(* ===== verification/Wizard_Prelude.thy ===== *)
theory Wizard_Prelude
  imports Main "HOL-Library.Sublist"
begin

text \<open>
  Shared vocabulary of the voting-wizard development: the byte-string
  operations that the Python code gets from \<open>re\<close> and \<open>str\<close> (literal
  substring search, ASCII lower-casing, character classes of the hash alphabet and of
  \<open>\w\<close>, decimal rendering of an option index), the lemma collections the
  component theories fill, and the generic lemmas on lists the components share.
  Python's \<open>bytes\<close> and ASCII \<open>str\<close> values are modelled as \<open>string\<close>
  (a list of 8-bit \<open>char\<close>s), so a character is a byte.
\<close>

named_theorems frame_simps
  "equations saying which fields of the wizard state an operation leaves unchanged"

named_theorems classify_simps
  "evaluation rules of the classifiers of external-process output"

subsection \<open>The configuration store\<close>

text \<open>
  \<open>self.config\<close> of the wizard: a dictionary from string keys to strings,
  booleans or lists of strings.
\<close>

datatype cval = CStr string | CBool bool | CList "string list"

type_synonym config = "string \<Rightarrow> cval option"

subsection \<open>Literal substring search\<close>

text \<open>
  Every pattern the wizard matches against process output without a capture group,
  such as \<^verbatim>\<open>re.search(b"Unauthorized proposal", result.stderr) is not None\<close>,
  is a literal, so the search is a substring test. \<open>contains pat s\<close> scans \<open>s\<close>
  from the left as the regex engine does; \<open>contains_sublist\<close> shows it agrees with
  the library's declarative \<open>sublist\<close>.
\<close>

fun contains :: "'a list \<Rightarrow> 'a list \<Rightarrow> bool" where
  "contains pat [] \<longleftrightarrow> pat = []"
| "contains pat (c # cs) \<longleftrightarrow> prefix pat (c # cs) \<or> contains pat cs"

subsection \<open>Characters\<close>

text \<open>ASCII lower-casing, as \<open>str.lower\<close> does on the ASCII answers the wizard reads.\<close>

definition upper_letters :: string where
  "upper_letters = ''ABCDEFGHIJKLMNOPQRSTUVWXYZ''"

definition lower_letters :: string where
  "lower_letters = ''abcdefghijklmnopqrstuvwxyz''"

definition lower_char :: "char \<Rightarrow> char" where
  "lower_char c = (case map_of (zip upper_letters lower_letters) c of None \<Rightarrow> c | Some d \<Rightarrow> d)"

definition lower :: "string \<Rightarrow> string" where
  "lower s = map lower_char s"

definition digit_chars :: string where
  "digit_chars = ''0123456789''"

text \<open>
  The regex class \<open>\w\<close> of a \<open>bytes\<close> pattern: ASCII letters, digits and the
  underscore.
\<close>

definition is_word_char :: "char \<Rightarrow> bool" where
  "is_word_char c \<longleftrightarrow> c \<in> set (upper_letters @ lower_letters @ digit_chars @ ''_'')"

text \<open>Whitespace as \<open>str.isspace\<close> sees it on ASCII: space, \<open>\t \n \v \f \r\<close>.\<close>

definition is_space :: "char \<Rightarrow> bool" where
  "is_space c \<longleftrightarrow> c \<in> {CHR '' '', CHR 0x09, CHR 0x0A, CHR 0x0B, CHR 0x0C, CHR 0x0D}"

definition newline :: string where
  "newline = [CHR 0x0A]"

definition apostrophe :: string where
  "apostrophe = [CHR 0x27]"

text \<open>Decimal rendering of a natural number, as \<open>str(n)\<close>.\<close>

fun dec_string :: "nat \<Rightarrow> string" where
  "dec_string n =
     (if n < 10 then [digit_chars ! n] else dec_string (n div 10) @ [digit_chars ! (n mod 10)])"

declare dec_string.simps [simp del]

text \<open>Its inverse on digit strings, as \<open>int(s)\<close>.\<close>

definition digit_of :: "char \<Rightarrow> nat" where
  "digit_of c = (case map_of (zip digit_chars [0, 1, 2, 3, 4, 5, 6, 7, 8, 9]) c of None \<Rightarrow> 0 | Some d \<Rightarrow> d)"

definition dec_value :: "string \<Rightarrow> nat" where
  "dec_value s = foldl (\<lambda>acc c. 10 * acc + digit_of c) 0 s"

subsection \<open>Generic lemmas\<close>

lemma contains_sublist: "contains pat s \<longleftrightarrow> sublist pat s"
  by (induction s) (auto simp: sublist_Cons_right)

lemma contains_append_left [simp]: "contains pat s \<Longrightarrow> contains pat (s @ t)"
  by (auto simp: contains_sublist sublist_def) blast

lemma contains_append_right [simp]: "contains pat t \<Longrightarrow> contains pat (s @ t)"
  by (auto simp: contains_sublist sublist_def) (metis append.assoc)

lemma contains_self [simp]: "contains pat pat"
  by (simp add: contains_sublist)

lemma contains_Nil [simp]: "contains [] s"
  by (simp add: contains_sublist)

lemma contains_length: "contains pat s \<Longrightarrow> length pat \<le> length s"
  by (simp add: contains_sublist sublist_length_le)

lemma lower_length [simp]: "length (lower s) = length s"
  by (simp add: lower_def)

lemma lower_Nil [simp]: "lower [] = []"
  by (simp add: lower_def)

lemma lower_Cons [simp]: "lower (c # s) = lower_char c # lower s"
  by (simp add: lower_def)

lemma digit_chars_nth_inj:
  "i < 10 \<Longrightarrow> j < 10 \<Longrightarrow> digit_chars ! i = digit_chars ! j \<longleftrightarrow> i = j"
  by (auto simp: digit_chars_def less_Suc_eq numeral_eq_Suc nth_Cons')

lemma digit_of_nth: "i < 10 \<Longrightarrow> digit_of (digit_chars ! i) = i"
  by (auto simp: digit_of_def digit_chars_def less_Suc_eq numeral_eq_Suc)

lemma dec_value_dec_string [simp]: "dec_value (dec_string n) = n"
proof (induction n rule: dec_string.induct)
  case (1 n)
  show ?case
  proof (cases "n < 10")
    case True
    then show ?thesis by (simp add: dec_string.simps [of n] dec_value_def digit_of_nth)
  next
    case False
    then have "dec_value (dec_string n) = 10 * dec_value (dec_string (n div 10)) + n mod 10"
      by (simp add: dec_string.simps [of n] dec_value_def digit_of_nth)
    with "1" False show ?thesis by simp
  qed
qed

lemma dec_string_inj: "dec_string m = dec_string n \<longleftrightarrow> m = n"
  by (metis dec_value_dec_string)

lemma dec_string_nonempty [simp]: "dec_string n \<noteq> []"
  by (subst dec_string.simps) simp

lemma dec_string_chars: "set (dec_string n) \<subseteq> set digit_chars"
proof (induction n rule: dec_string.induct)
  case (1 n)
  have "digit_chars ! m \<in> set digit_chars" if "m < 10" for m
    using that by (simp add: digit_chars_def del: set_simps)
  with "1" show ?case
    by (subst dec_string.simps) auto
qed

end
