(* ===== verification/Packaging.thy ===== *)
theory Packaging
  imports Wizard_Prelude
begin

text \<open>
  The packaging scripts under \<open>src/docker/\<close>: the source-package generator
  (\<open>package/package_generator.py\<close>), the signer (\<open>package/util/sign.py\<close>), the
  uploader (\<open>package/util/upload.py\<close>) and the driver that chains them
  (\<open>docker-tezos-packages.py\<close>). Each script is a function from its arguments and
  the environment it reads (directory listings, environment variables, the outcome of a
  download) to the list of external actions it performs, in order, and its exit: a
  Python exception is an \<open>Inl\<close> returned together with the actions already
  performed. The builds themselves (\<open>package.util.build\<close>, \<open>.ubuntu\<close>,
  \<open>.fedora\<close>, not under \<open>src/\<close>) are actions, not modelled further.
\<close>

subsection \<open>Paths and suffixes\<close>

text \<open>\<open>os.path.join(a, b)\<close>: an absolute \<open>b\<close> replaces \<open>a\<close>; otherwise a separator is
  inserted unless \<open>a\<close> is empty or already ends with one.\<close>

definition path_join :: "string \<Rightarrow> string \<Rightarrow> string" where
  "path_join a b =
     (if take 1 b = ''/'' then b
      else if a = [] \<or> last a = CHR ''/'' then a @ b
      else a @ ''/'' @ b)"

text \<open>\<open>str.endswith\<close>.\<close>

definition ends_with :: "string \<Rightarrow> string \<Rightarrow> bool" where
  "ends_with ext f \<longleftrightarrow> length ext \<le> length f \<and> drop (length f - length ext) f = ext"

text \<open>The exceptions the scripts can end with.\<close>

datatype pkg_error =
    AttributeError string
  | TypeError string
  | UnboundLocalError string
  | KeyError string
  | IndexError string
  | SystemExit int
  | MustSignBeforeUpload

subsection \<open>The package generator (\<open>package_generator.py\<close>)\<close>

text \<open>The dependency lists of lines 51--107: empty (or minimal) with prebuilt binaries.\<close>

definition get_ubuntu_run_deps :: "string option \<Rightarrow> string list" where
  "get_ubuntu_run_deps binaries_dir =
     (if binaries_dir \<noteq> None then []
      else [''libev-dev'', ''libgmp-dev'', ''libhidapi-dev'', ''libffi-dev'', ''zlib1g-dev'', ''libpq-dev''])"

definition get_fedora_run_deps :: "string option \<Rightarrow> string list" where
  "get_fedora_run_deps binaries_dir =
     (if binaries_dir \<noteq> None then []
      else [''libev-devel'', ''gmp-devel'', ''hidapi-devel'', ''libffi-devel'', ''zlib-devel'', ''libpq-devel''])"

definition get_build_deps :: "string option \<Rightarrow> string list" where
  "get_build_deps binaries_dir =
     (if binaries_dir \<noteq> None then [''make'', ''wget'']
      else [''make'', ''cmake'', ''m4'', ''perl'', ''pkg-config'', ''wget'', ''unzip'', ''rsync'', ''gcc'',
            ''cargo'', ''opam'', ''git'', ''autoconf'', ''coreutils''])"

text \<open>A package of \<open>.packages\<close>: its name, its version and release
  (\<open>package.meta\<close>), and the optional \<open>letter_version\<close> of the packages that need no
  new sources.\<close>

record package =
  pkg_name :: string
  pkg_version :: string
  pkg_release :: string
  letter_version :: "string option"

record pg_args =
  pg_os :: string
  pg_type :: string
  pg_packages :: "string list option"
  pg_distributions :: "string list option"
  pg_binaries_dir :: "string option"
  pg_sources_dir :: "string option"
  pg_launchpad_sources :: bool

record pg_env =
  pg_home :: "string option"
  pg_all_packages :: "string \<Rightarrow> package option"
  pg_listdir :: "string \<Rightarrow> string list"
  pg_download_ok :: "string \<Rightarrow> bool"
  pg_cwd :: string

datatype pg_action =
    MakeDirs string
  | Download string string
  | BuildUbuntu string "string list" "string list" bool "string option" "string option"
  | BuildFedora string "string list" "string list" bool "string list" "string option"
  | PrintErrors "string list"
  | CopyFile string string

definition output_dir :: string where
  "output_dir = ''out''"

definition archive_name :: "package \<Rightarrow> string" where
  "archive_name p = lower (pkg_name p) @ ''_'' @ pkg_version p @ ''.orig.tar.gz''"

text \<open>Lines 147--160: a source archive from the supplied directory; a missing one is an
  error unless the package has a letter version.\<close>

definition local_source :: "string \<Rightarrow> string list \<Rightarrow> package \<Rightarrow> string option \<times> string list" where
  "local_source dir archives p =
     (if archive_name p \<in> set archives then (Some (path_join dir (archive_name p)), [])
      else if letter_version p = None
      then (None, [''ERROR: supplied source dir does not contain source archive for '' @ pkg_name p])
      else (None, []))"

text \<open>Lines 162--189: the archive downloaded from the Launchpad PPA, \<open>tezos-rc\<close> for a
  version containing \<open>rc\<close>, for the first distribution.\<close>

definition launchpad_url :: "package \<Rightarrow> string \<Rightarrow> string" where
  "launchpad_url p dist =
     (let v = pkg_version p; repo = (if contains ''rc'' v then ''tezos-rc'' else ''tezos''); name = lower (pkg_name p)
      in ''https://launchpad.net/~serokell/+archive/ubuntu/'' @ repo @ ''/+sourcefiles/'' @ name @ ''/2:'' @ v @
         ''-0ubuntu1~'' @ dist @ ''/'' @ name @ ''_'' @ v @ ''.orig.tar.gz'')"

definition launchpad_source :: "pg_env \<Rightarrow> string \<Rightarrow> package \<Rightarrow> pg_action list \<times> string option \<times> string list" where
  "launchpad_source env dist p =
     (if letter_version p \<noteq> None then ([], None, [])
      else (let file = lower (pkg_name p) @ ''_'' @ pkg_version p @ ''.orig.tar.gz'';
                url = launchpad_url p dist
            in if pg_download_ok env url then ([Download url file], Some (path_join (pg_cwd env) file), [])
               else ([Download url file], None, [''ERROR: source archive for '' @ pkg_name p @ '' is not available''])))"

text \<open>Lines 144--192: the source archives of all packages and the errors; any error
  prints them all and exits with status 1. \<open>distributions[0]\<close> raises
  \<open>IndexError\<close> on the first package that needs a download when the list is empty.\<close>

definition pg_sources ::
  "pg_args \<Rightarrow> pg_env \<Rightarrow> string list \<Rightarrow> string list \<Rightarrow> package list \<Rightarrow>
   (pkg_error + string option list) \<times> pg_action list"
where
  "pg_sources a env archives dists pkgs =
     (if pg_type a \<noteq> ''source'' then (Inr (map (\<lambda>_. None) pkgs), [])
      else if archives \<noteq> [] then
        (let rs = map (local_source (the (pg_sources_dir a)) archives) pkgs; errs = concat (map snd rs)
         in if errs \<noteq> [] then (Inl (SystemExit 1), [PrintErrors errs]) else (Inr (map fst rs), []))
      else if pg_launchpad_sources a then
        (if dists = [] \<and> (\<exists>p \<in> set pkgs. letter_version p = None) then (Inl (IndexError ''distributions''), [])
         else
           (let rs = map (launchpad_source env (hd dists)) pkgs; acts = concat (map fst rs);
                errs = concat (map (snd \<circ> snd) rs)
            in if errs \<noteq> [] then (Inl (SystemExit 1), acts @ [PrintErrors errs])
               else (Inr (map (fst \<circ> snd) rs), acts)))
      else (Inr (map (\<lambda>_. None) pkgs), []))"

text \<open>Lines 194--226: the builds and the extensions of the artifacts to collect.\<close>

definition artifact_exts :: "string \<Rightarrow> bool \<Rightarrow> string list" where
  "artifact_exts os is_source =
     (if os = ''ubuntu'' then
        (if \<not> is_source then [''.deb''] else [''.orig.tar.gz'', ''.dsc'', ''.changes'', ''.debian.tar.xz'', ''.buildinfo''])
      else (if is_source then [''.src.rpm''] else [''.rpm'']))"

definition artifacts_dir :: "string \<Rightarrow> bool \<Rightarrow> string \<Rightarrow> string" where
  "artifacts_dir os is_source home =
     (if os = ''ubuntu'' then ''.'' else home @ ''/rpmbuild/'' @ (if is_source then ''SRPMS'' else ''RPMS/x86_64''))"

text \<open>Lines 228--231: every file of the artifacts directory is copied once per extension
  it ends with.\<close>

definition copy_artifacts :: "string \<Rightarrow> string list \<Rightarrow> string list \<Rightarrow> pg_action list" where
  "copy_artifacts dir exts files =
     concat (map (\<lambda>f. concat (map (\<lambda>ext. if ends_with ext f then [CopyFile (dir @ ''/'' @ f) (path_join output_dir f)] else []) exts)) files)"

definition lookup_packages :: "pg_env \<Rightarrow> string list \<Rightarrow> pkg_error + package list" where
  "lookup_packages env names =
     (case find (\<lambda>n. pg_all_packages env n = None) names of
        Some n \<Rightarrow> Inl (KeyError n)
      | None \<Rightarrow> Inr (map (\<lambda>n. the (pg_all_packages env n)) names))"

definition pg_main :: "pg_args \<Rightarrow> pg_env \<Rightarrow> (pkg_error + unit) \<times> pg_action list" where
  "pg_main a env =
     (let is_source = (pg_type a = ''source'');
          archives = (case pg_sources_dir a of Some d \<Rightarrow> pg_listdir env d | None \<Rightarrow> []);
          bdir = pg_binaries_dir a
      in if pg_os a \<notin> {''ubuntu'', ''fedora''} then (Inl (UnboundLocalError ''run_deps''), [])
         else
          (let run_deps = (if pg_os a = ''ubuntu'' then get_ubuntu_run_deps bdir else get_fedora_run_deps bdir);
               build_deps = get_build_deps bdir;
               common_deps = run_deps @ build_deps
           in case pg_home env of None \<Rightarrow> (Inl (KeyError ''HOME''), [])
            | Some home \<Rightarrow>
               (case pg_distributions a of None \<Rightarrow> (Inl (TypeError ''distributions''), [MakeDirs output_dir])
                | Some dists \<Rightarrow>
                   (case pg_packages a of None \<Rightarrow> (Inl (TypeError ''packages''), [MakeDirs output_dir])
                    | Some names \<Rightarrow>
                       (case lookup_packages env names of Inl e \<Rightarrow> (Inl e, [MakeDirs output_dir])
                        | Inr pkgs \<Rightarrow>
                           (case pg_sources a env archives dists pkgs of
                              (Inl e, acts) \<Rightarrow> (Inl e, MakeDirs output_dir # acts)
                            | (Inr srcs, acts) \<Rightarrow>
                                (let builds = (if pg_os a = ''ubuntu''
                                      then map (\<lambda>(p, src). BuildUbuntu (pkg_name p) dists common_deps is_source src bdir) (zip pkgs srcs)
                                      else map (\<lambda>p. BuildFedora (pkg_name p) build_deps run_deps is_source dists bdir) pkgs);
                                     adir = artifacts_dir (pg_os a) is_source home
                                 in (Inr (), MakeDirs output_dir # acts @ builds @
                                       copy_artifacts adir (artifact_exts (pg_os a) is_source) (pg_listdir env adir)))))))))"

subsection \<open>Signing (\<open>sign.py\<close>)\<close>

datatype pkg_cmd =
    SedChangedBy string string
  | Debsign string
  | Rpmsign string string string
  | WriteDputCfg
  | Dput string string
  | CoprBuild string string string

text \<open>\<open>str()\<close> of an optional argument, as the f-strings print it.\<close>

definition py_str :: "string option \<Rightarrow> string" where
  "py_str v = (case v of None \<Rightarrow> ''None'' | Some x \<Rightarrow> x)"

text \<open>The truth value of an optional string argument in an \<open>if\<close>.\<close>

definition py_truthy :: "string option \<Rightarrow> bool" where
  "py_truthy v = (case v of None \<Rightarrow> False | Some x \<Rightarrow> x \<noteq> [])"

record sign_args =
  sign_directory :: string
  sign_artifacts :: "string list"
  sign_identity :: "string option"

text \<open>
  The namespace \<open>parser.parse_args()\<close> returns has one attribute per destination of
  the parser: \<open>directory\<close>, \<open>artifacts\<close>, \<open>identity\<close>. \<open>fill_args\<close> reads
  \<open>args.packages\<close> (line 46), which is not one of them.
\<close>

datatype ns_val = NsStr string | NsList "string list" | NsNone | NsBool bool

type_synonym namespace = "string \<Rightarrow> ns_val option"

definition ns_attr :: "namespace \<Rightarrow> string \<Rightarrow> pkg_error + ns_val" where
  "ns_attr ns a = (case ns a of None \<Rightarrow> Inl (AttributeError a) | Some v \<Rightarrow> Inr v)"

definition sign_fill_args :: "namespace \<Rightarrow> pkg_error + sign_args" where
  "sign_fill_args ns =
     (case ns_attr ns ''directory'' of Inl e \<Rightarrow> Inl e | Inr (NsStr d) \<Rightarrow>
        (case ns_attr ns ''packages'' of Inl e \<Rightarrow> Inl e | Inr (NsList arts) \<Rightarrow>
           (case ns_attr ns ''identity'' of Inl e \<Rightarrow> Inl e
            | Inr (NsStr i) \<Rightarrow> Inr \<lparr>sign_directory = d, sign_artifacts = arts, sign_identity = Some i\<rparr>
            | Inr _ \<Rightarrow> Inr \<lparr>sign_directory = d, sign_artifacts = arts, sign_identity = None\<rparr>)
         | Inr _ \<Rightarrow> Inl (TypeError ''artifacts''))
      | Inr _ \<Rightarrow> Inl (TypeError ''directory''))"

text \<open>Lines 56--61: the given artifacts, or every entry of the directory.\<close>

definition sign_artifact_list :: "(string \<Rightarrow> string list) \<Rightarrow> sign_args \<Rightarrow> string list" where
  "sign_artifact_list listdir a =
     (if sign_artifacts a = [] then map (path_join (sign_directory a)) (listdir (sign_directory a))
      else sign_artifacts a)"

text \<open>Lines 67--74: a \<open>.changes\<close> file gets its \<open>Changed-By\<close> field rewritten and is
  signed by \<open>debsign\<close>; a \<open>.src.rpm\<close> file is signed by \<open>rpmsign\<close>; other files are
  left alone.\<close>

definition sign_file :: "string \<Rightarrow> string \<Rightarrow> string \<Rightarrow> pkg_cmd list" where
  "sign_file ident gpg f =
     (if ends_with ''.changes'' f then [SedChangedBy ident f, Debsign f]
      else if ends_with ''.src.rpm'' f then [Rpmsign ident gpg f]
      else [])"

definition sign_main :: "(string \<Rightarrow> string list) \<Rightarrow> string option \<Rightarrow> sign_args \<Rightarrow> pkg_cmd list" where
  "sign_main listdir gpg a =
     concat (map (sign_file (py_str (sign_identity a)) (py_str gpg)) (sign_artifact_list listdir a))"

subsection \<open>Uploading (\<open>upload.py\<close>)\<close>

record upload_args =
  upload_directory :: string
  upload_artifacts :: "string list"
  upload_destination :: "string option"

text \<open>
  \<open>re.search("v.*-rc[0-9]*", version)\<close> (line 96), tried at each start position in
  turn: a \<open>v\<close>, then \<open>.*\<close> over characters other than a newline, then \<open>-rc\<close>;
  \<open>[0-9]*\<close> always matches the empty string.
\<close>

fun is_rc_version :: "string \<Rightarrow> bool" where
  "is_rc_version [] = False"
| "is_rc_version (c # cs) =
     ((c = CHR ''v'' \<and> contains ''-rc'' (takeWhile (\<lambda>x. x \<noteq> CHR 0x0A) cs)) \<or> is_rc_version cs)"

definition launchpad_ppa :: "string \<Rightarrow> string" where
  "launchpad_ppa v = (if is_rc_version v then ''tezos-rc-serokell'' else ''tezos-serokell'')"

definition copr_project :: "string \<Rightarrow> string" where
  "copr_project v = (if is_rc_version v then ''@Serokell/Tezos-rc'' else ''@Serokell/Tezos-test'')"

text \<open>Lines 123--129: the chroots of the destination, unbound for any other value.\<close>

definition upload_chroots :: "string list \<Rightarrow> string option \<Rightarrow> string list option" where
  "upload_chroots fedora_versions dest =
     (if dest = Some ''epel'' then Some [''epel-x86_64'']
      else if dest = Some ''regular'' then
        Some (concat (map (\<lambda>v. map (\<lambda>arch. ''fedora-'' @ v @ ''-'' @ arch) [''x86_64'', ''aarch64'']) fedora_versions))
      else None)"

text \<open>\<open>sep.join(xs)\<close>.\<close>

fun py_join :: "string \<Rightarrow> string list \<Rightarrow> string" where
  "py_join sep [] = []"
| "py_join sep [x] = x"
| "py_join sep (x # y # ys) = x @ sep @ py_join sep (y # ys)"

definition chroot_flags :: "string list \<Rightarrow> string" where
  "chroot_flags cs = py_join '' '' (map (\<lambda>c. ''-r '' @ c) cs)"

definition upload_packages :: "(string \<Rightarrow> string list) \<Rightarrow> upload_args \<Rightarrow> string list" where
  "upload_packages listdir a =
     (if upload_artifacts a \<noteq> [] then upload_artifacts a
      else map (path_join (upload_directory a)) (listdir (upload_directory a)))"

text \<open>
  \<open>main\<close>, lines 61--137: \<open>dput.cfg\<close> is written; the version selects the PPA and
  the Copr project; every \<open>.changes\<close> package is uploaded with \<open>dput\<close>; then the
  chroots are computed, and every \<open>.src.rpm\<close> package is built on Copr.
\<close>

definition upload_main ::
  "(string \<Rightarrow> string list) \<Rightarrow> string list \<Rightarrow> string option \<Rightarrow> upload_args \<Rightarrow> (pkg_error + unit) \<times> pkg_cmd list"
where
  "upload_main listdir fedora_versions octez_version a =
     (case octez_version of
        None \<Rightarrow> (Inl (TypeError ''OCTEZ_VERSION''), [WriteDputCfg])
      | Some v \<Rightarrow>
          (let packages = upload_packages listdir a;
               dputs = map (\<lambda>f. Dput (launchpad_ppa v) (path_join (upload_directory a) f))
                         (filter (ends_with ''.changes'') packages)
           in case upload_chroots fedora_versions (upload_destination a) of
                None \<Rightarrow> (Inl (UnboundLocalError ''chroots''), WriteDputCfg # dputs)
              | Some cs \<Rightarrow>
                  (Inr (), WriteDputCfg # dputs @
                     map (\<lambda>f. CoprBuild (chroot_flags cs) (copr_project v) f)
                       (filter (ends_with ''.src.rpm'') packages))))"

subsection \<open>The driver (\<open>docker-tezos-packages.py\<close>)\<close>

text \<open>
  Lines 37--46: the build returns the artifacts; with an identity they are signed, and
  then uploaded if asked; an upload asked for without an identity raises, after the
  build. The environment of the two scripts is passed through.
\<close>

record pkg_env =
  listdir :: "string \<Rightarrow> string list"
  gpg_path :: "string option"
  fedora_versions :: "string list"
  octez_version :: "string option"

definition driver_main ::
  "pkg_env \<Rightarrow> string \<Rightarrow> string list \<Rightarrow> string option \<Rightarrow> string option \<Rightarrow> (pkg_error + unit) \<times> pkg_cmd list"
where
  "driver_main env out_dir artifacts gpg_sign upload =
     (if py_truthy gpg_sign then
        (let signed = sign_main (listdir env) (gpg_path env)
                        \<lparr>sign_directory = out_dir, sign_artifacts = artifacts, sign_identity = gpg_sign\<rparr>
         in if \<not> py_truthy upload then (Inr (), signed)
            else (case upload_main (listdir env) (fedora_versions env) (octez_version env)
                        \<lparr>upload_directory = out_dir, upload_artifacts = artifacts, upload_destination = upload\<rparr> of
                    (r, cmds) \<Rightarrow> (r, signed @ cmds)))
      else if py_truthy upload then (Inl MustSignBeforeUpload, [])
      else (Inr (), []))"

text \<open>Suffix-free extension lists: no extension ends with another.\<close>

definition suffix_free :: "string list \<Rightarrow> bool" where
  "suffix_free exts \<longleftrightarrow> distinct exts \<and> (\<forall>e1 \<in> set exts. \<forall>e2 \<in> set exts. e1 \<noteq> e2 \<longrightarrow> \<not> suffix e1 e2)"

subsection \<open>Lemmas on paths, suffixes and command lists\<close>

lemma ends_with_suffix: "ends_with ext f \<longleftrightarrow> suffix ext f"
proof
  assume "ends_with ext f"
  then have "f = take (length f - length ext) f @ ext"
    by (metis append_take_drop_id ends_with_def)
  then show "suffix ext f" by (metis suffix_def)
next
  assume "suffix ext f"
  then obtain zs where "f = zs @ ext" by (auto simp: suffix_def)
  then show "ends_with ext f" by (simp add: ends_with_def)
qed

lemma changes_not_src_rpm: "ends_with ''.changes'' f \<Longrightarrow> \<not> ends_with ''.src.rpm'' f"
  by (auto simp: ends_with_suffix suffix_def)

lemma path_join_abs [simp]: "take 1 b = ''/'' \<Longrightarrow> path_join a b = b"
  by (simp add: path_join_def)

lemma path_join_abs_left: "take 1 a = ''/'' \<Longrightarrow> take 1 (path_join a b) = ''/''"
  by (cases a) (auto simp: path_join_def)

lemma sign_file_cmds:
  "c \<in> set (sign_file i g f) \<Longrightarrow> c = SedChangedBy i f \<or> c = Debsign f \<or> c = Rpmsign i g f"
  by (auto simp: sign_file_def split: if_splits)

lemma debsign_in_sign_main:
  "f \<in> set (sign_artifact_list ld a) \<Longrightarrow> ends_with ''.changes'' f \<Longrightarrow>
   Debsign f \<in> set (sign_main ld gpg a)"
  by (force simp: sign_main_def sign_file_def)

lemma rpmsign_in_sign_main:
  "f \<in> set (sign_artifact_list ld a) \<Longrightarrow> ends_with ''.src.rpm'' f \<Longrightarrow>
   Rpmsign (py_str (sign_identity a)) (py_str gpg) f \<in> set (sign_main ld gpg a)"
  by (force simp: sign_main_def sign_file_def dest: changes_not_src_rpm)

lemma sign_main_no_upload:
  "Dput p f \<notin> set (sign_main ld gpg a)" "CoprBuild cs p f \<notin> set (sign_main ld gpg a)"
  by (auto simp: sign_main_def dest!: sign_file_cmds)

lemma prefix_before:
  assumes "A @ B = xs @ c # ys" "c \<notin> set A"
  shows "set A \<subseteq> set xs"
proof -
  from assms(1) consider us where "xs = A @ us" | us where "A = xs @ us" "us @ B = c # ys"
    by (auto simp: append_eq_append_conv2)
  then show ?thesis
  proof cases
    case 1 then show ?thesis by simp
  next
    case (2 us)
    with assms(2) show ?thesis by (cases us) auto
  qed
qed

lemma driver_cmds:
  assumes "driver_main env out arts gpg up = (r, cmds)"
  shows "\<exists>ucmds. cmds = sign_main (listdir env) (gpg_path env)
            \<lparr>sign_directory = out, sign_artifacts = arts, sign_identity = gpg\<rparr> @ ucmds \<and>
          (ucmds = [] \<or> (\<exists>r'. upload_main (listdir env) (fedora_versions env) (octez_version env)
            \<lparr>upload_directory = out, upload_artifacts = arts, upload_destination = up\<rparr> = (r', ucmds)))
        \<or> cmds = []"
  using assms by (auto simp: driver_main_def Let_def split: if_splits prod.splits)

lemma upload_packages_sign_list:
  "upload_packages ld \<lparr>upload_directory = out, upload_artifacts = arts, upload_destination = up\<rparr> =
   sign_artifact_list ld \<lparr>sign_directory = out, sign_artifacts = arts, sign_identity = gpg\<rparr>"
  by (simp add: upload_packages_def sign_artifact_list_def)

lemma sign_artifact_list_abs:
  assumes "take 1 out = ''/''" "list_all (\<lambda>a. take 1 a = ''/'') arts"
  shows "list_all (\<lambda>a. take 1 a = ''/'') (sign_artifact_list ld \<lparr>sign_directory = out, sign_artifacts = arts, sign_identity = gpg\<rparr>)"
  using assms path_join_abs_left [of out] by (auto simp: sign_artifact_list_def list_all_iff)

lemma upload_main_dput:
  "upload_main ld fv ov a = (r, cmds) \<Longrightarrow> Dput p f \<in> set cmds \<Longrightarrow>
   \<exists>x \<in> set (upload_packages ld a). ends_with ''.changes'' x \<and> f = path_join (upload_directory a) x"
  by (auto simp: upload_main_def Let_def split: option.splits)

lemma upload_main_copr:
  "upload_main ld fv ov a = (r, cmds) \<Longrightarrow> CoprBuild cs p f \<in> set cmds \<Longrightarrow>
   f \<in> set (upload_packages ld a) \<and> ends_with ''.src.rpm'' f"
  by (auto simp: upload_main_def Let_def split: option.splits)

lemma driver_upload_part:
  assumes run: "driver_main env out arts gpg up = (r, cmds)"
    and c: "cmds = xs @ c # ys" and nsig: "c \<notin> set (sign_main (listdir env) (gpg_path env)
            \<lparr>sign_directory = out, sign_artifacts = arts, sign_identity = gpg\<rparr>)"
  shows "\<exists>ucmds r'. cmds = sign_main (listdir env) (gpg_path env)
            \<lparr>sign_directory = out, sign_artifacts = arts, sign_identity = gpg\<rparr> @ ucmds \<and>
          upload_main (listdir env) (fedora_versions env) (octez_version env)
            \<lparr>upload_directory = out, upload_artifacts = arts, upload_destination = up\<rparr> = (r', ucmds) \<and>
          c \<in> set ucmds"
proof -
  let ?signed = "sign_main (listdir env) (gpg_path env) \<lparr>sign_directory = out, sign_artifacts = arts, sign_identity = gpg\<rparr>"
  have ne: "cmds \<noteq> []" using c by simp
  with driver_cmds [OF run] obtain ucmds where
    cm: "cmds = ?signed @ ucmds" and u: "ucmds = [] \<or> (\<exists>r'. upload_main (listdir env) (fedora_versions env) (octez_version env)
            \<lparr>upload_directory = out, upload_artifacts = arts, upload_destination = up\<rparr> = (r', ucmds))"
    by blast
  have cmem: "c \<in> set cmds" using c by simp
  have "c \<in> set (?signed @ ucmds)" using cmem cm by (simp only:)
  with nsig have cu: "c \<in> set ucmds" by simp
  then have "ucmds \<noteq> []" by auto
  with u cm cu show ?thesis by blast
qed

lemma dput_signed:
  assumes run: "driver_main env out arts gpg up = (r, cmds)"
    and abs: "take 1 out = ''/''" "list_all (\<lambda>a. take 1 a = ''/'') arts"
    and c: "cmds = xs @ Dput p f # ys"
  shows "Debsign f \<in> set xs"
proof -
  let ?sa = "\<lparr>sign_directory = out, sign_artifacts = arts, sign_identity = gpg\<rparr>"
  let ?ua = "\<lparr>upload_directory = out, upload_artifacts = arts, upload_destination = up\<rparr>"
  let ?signed = "sign_main (listdir env) (gpg_path env) ?sa"
  have pk: "upload_packages (listdir env) ?ua = sign_artifact_list (listdir env) ?sa"
    by (rule upload_packages_sign_list)
  have ab: "list_all (\<lambda>a. take 1 a = ''/'') (sign_artifact_list (listdir env) ?sa)"
    using abs by (rule sign_artifact_list_abs)
  from driver_upload_part [OF run c sign_main_no_upload(1)] obtain ucmds r' where
    u: "cmds = ?signed @ ucmds" "upload_main (listdir env) (fedora_versions env) (octez_version env) ?ua = (r', ucmds)"
      "Dput p f \<in> set ucmds"
    by (elim exE conjE)
  from upload_main_dput [OF u(2) u(3)]
  have "\<exists>x \<in> set (upload_packages (listdir env) ?ua). ends_with ''.changes'' x \<and> f = path_join out x"
    by (simp only: upload_args.simps)
  then obtain x where
    x: "x \<in> set (upload_packages (listdir env) ?ua)" "ends_with ''.changes'' x" "f = path_join out x"
    by (elim bexE conjE)
  have xs: "x \<in> set (sign_artifact_list (listdir env) ?sa)" using x(1) pk by (simp only:)
  from ab have "\<forall>a \<in> set (sign_artifact_list (listdir env) ?sa). take 1 a = ''/''"
    by (simp only: list_all_iff)
  from this xs have "take 1 x = ''/''" by (rule bspec)
  then have fx: "f = x" using x(3) by (simp only: path_join_abs)
  have "Debsign x \<in> set ?signed" using debsign_in_sign_main [OF xs x(2)] .
  moreover from u(1) c have "?signed @ ucmds = xs @ Dput p f # ys" by (rule trans [OF sym])
  then have "set ?signed \<subseteq> set xs" using sign_main_no_upload(1) by (rule prefix_before)
  ultimately have "Debsign x \<in> set xs" by (rule subsetD [rotated])
  then show "Debsign f \<in> set xs" by (simp only: fx)
qed

lemma copr_signed:
  assumes run: "driver_main env out arts gpg up = (r, cmds)"
    and c: "cmds = xs @ CoprBuild cs p f # ys"
  shows "\<exists>i g. Rpmsign i g f \<in> set xs"
proof -
  let ?sa = "\<lparr>sign_directory = out, sign_artifacts = arts, sign_identity = gpg\<rparr>"
  let ?ua = "\<lparr>upload_directory = out, upload_artifacts = arts, upload_destination = up\<rparr>"
  let ?signed = "sign_main (listdir env) (gpg_path env) ?sa"
  have pk: "upload_packages (listdir env) ?ua = sign_artifact_list (listdir env) ?sa"
    by (rule upload_packages_sign_list)
  from driver_upload_part [OF run c sign_main_no_upload(2)] obtain ucmds r' where
    u: "cmds = ?signed @ ucmds" "upload_main (listdir env) (fedora_versions env) (octez_version env) ?ua = (r', ucmds)"
      "CoprBuild cs p f \<in> set ucmds"
    by (elim exE conjE)
  from upload_main_copr [OF u(2) u(3)]
  have x1: "f \<in> set (upload_packages (listdir env) ?ua)" by (rule conjunct1)
  from upload_main_copr [OF u(2) u(3)]
  have x2: "ends_with ''.src.rpm'' f" by (rule conjunct2)
  note x = x1 x2
  have xs: "f \<in> set (sign_artifact_list (listdir env) ?sa)" using x(1) pk by (simp only:)
  have "Rpmsign (py_str (sign_identity ?sa)) (py_str (gpg_path env)) f \<in> set ?signed"
    using rpmsign_in_sign_main [OF xs x(2)] .
  moreover from u(1) c have "?signed @ ucmds = xs @ CoprBuild cs p f # ys" by (rule trans [OF sym])
  then have "set ?signed \<subseteq> set xs" using sign_main_no_upload(2) by (rule prefix_before)
  ultimately have "Rpmsign (py_str (sign_identity ?sa)) (py_str (gpg_path env)) f \<in> set xs"
    by (rule subsetD [rotated])
  then show ?thesis by (intro exI)
qed

lemma local_source_errs:
  "snd (local_source d archives p) =
     (if archive_name p \<notin> set archives \<and> letter_version p = None
      then [''ERROR: supplied source dir does not contain source archive for '' @ pkg_name p] else [])"
  by (simp add: local_source_def)

lemma local_errors:
  "concat (map (snd \<circ> local_source d archives) pkgs) =
   map (\<lambda>p. ''ERROR: supplied source dir does not contain source archive for '' @ pkg_name p)
     (filter (\<lambda>p. archive_name p \<notin> set archives \<and> letter_version p = None) pkgs)"
  by (induction pkgs) (simp_all add: local_source_errs)

lemma ends_with_one:
  assumes "suffix_free exts" "ends_with e1 f" "ends_with e2 f" "e1 \<in> set exts" "e2 \<in> set exts"
  shows "e1 = e2"
proof (rule ccontr)
  assume ne: "e1 \<noteq> e2"
  from assms(2,3) have "suffix e1 f" "suffix e2 f" by (simp_all add: ends_with_suffix)
  then have "suffix e1 e2 \<or> suffix e2 e1" by (rule suffix_same_cases)
  with assms(1,4,5) ne show False by (auto simp: suffix_free_def)
qed

lemma copies_of_file:
  assumes "suffix_free exts"
  shows "concat (map (\<lambda>ext. if ends_with ext f then [x] else []) exts) =
           (if \<exists>e \<in> set exts. ends_with e f then [x] else [])"
  using assms
proof (induction exts)
  case Nil
  then show ?case by simp
next
  case (Cons e exts)
  then have sf: "suffix_free exts" by (simp add: suffix_free_def)
  show ?case
  proof (cases "ends_with e f")
    case True
    with Cons.prems have "\<not> (\<exists>e' \<in> set exts. ends_with e' f)"
      using ends_with_one [OF Cons.prems True] by (auto simp: suffix_free_def)
    with True Cons.IH [OF sf] show ?thesis by simp
  next
    case False
    with Cons.IH [OF sf] show ?thesis by simp
  qed
qed

lemma artifact_exts_suffix_free: "suffix_free (artifact_exts os src)"
  by (simp add: artifact_exts_def suffix_free_def suffix_def)

subsection \<open>Properties of the scripts\<close>

text \<open>C21: the driver uploads nothing unsigned: when the output directory and the
  artifacts are absolute paths, every \<open>dput\<close> of a file comes after the \<open>debsign\<close>
  of that file, and every Copr build of a file after its \<open>rpmsign\<close>.\<close>
theorem driver_signs_before_upload:
  assumes run: "driver_main env out arts gpg up = (r, cmds)"
    and abs: "take 1 out = ''/''" "list_all (\<lambda>a. take 1 a = ''/'') arts"
  shows "(\<forall>xs p f ys. cmds = xs @ Dput p f # ys \<longrightarrow> Debsign f \<in> set xs) \<and>
         (\<forall>xs cs p f ys. cmds = xs @ CoprBuild cs p f # ys \<longrightarrow> (\<exists>i g. Rpmsign i g f \<in> set xs))"
proof (intro conjI allI impI)
  fix xs p f ys
  assume "cmds = xs @ Dput p f # ys"
  then show "Debsign f \<in> set xs" by (rule dput_signed [OF run abs])
next
  fix xs cs p f ys
  assume "cmds = xs @ CoprBuild cs p f # ys"
  then show "\<exists>i g. Rpmsign i g f \<in> set xs" by (rule copr_signed [OF run])
qed

text \<open>C22: in source mode with a non-empty source directory, a package without a letter
  version whose archive is missing makes the generator print one error per such package
  and exit with status 1, before any build.\<close>

theorem pg_main_missing_archive:
  assumes os: "pg_os a \<in> {''ubuntu'', ''fedora''}" and home: "pg_home env = Some h"
    and dists: "pg_distributions a = Some ds" and names: "pg_packages a = Some ns"
    and look: "lookup_packages env ns = Inr pkgs"
    and src: "pg_type a = ''source''" and dir: "pg_sources_dir a = Some d" and ne: "pg_listdir env d \<noteq> []"
    and miss: "p \<in> set pkgs" "letter_version p = None" "archive_name p \<notin> set (pg_listdir env d)"
  shows "pg_main a env =
     (Inl (SystemExit 1), [MakeDirs output_dir, PrintErrors
        (map (\<lambda>q. ''ERROR: supplied source dir does not contain source archive for '' @ pkg_name q)
          (filter (\<lambda>q. archive_name q \<notin> set (pg_listdir env d) \<and> letter_version q = None) pkgs))])"
proof -
  let ?errs = "map (\<lambda>q. ''ERROR: supplied source dir does not contain source archive for '' @ pkg_name q)
          (filter (\<lambda>q. archive_name q \<notin> set (pg_listdir env d) \<and> letter_version q = None) pkgs)"
  have "?errs \<noteq> []" using miss by (auto simp: filter_empty_conv)
  then have "pg_sources a env (pg_listdir env d) ds pkgs = (Inl (SystemExit 1), [PrintErrors ?errs])"
    using src dir ne by (auto simp: pg_sources_def Let_def local_errors local_source_errs filter_empty_conv)
  then show ?thesis
    using os home dists names look dir by (auto simp: pg_main_def Let_def)
qed

text \<open>C23: the artifacts are collected by extension, each matching file exactly once,
  since no extension of the lists of lines 206--223 ends with another.\<close>

theorem copy_artifacts_once:
  "copy_artifacts dir (artifact_exts os src) files =
     map (\<lambda>f. CopyFile (dir @ ''/'' @ f) (path_join output_dir f))
       (filter (\<lambda>f. \<exists>e \<in> set (artifact_exts os src). ends_with e f) files)"
  by (induction files)
    (simp_all add: copy_artifacts_def copies_of_file [OF artifact_exts_suffix_free])

text \<open>C24: an upload destination other than \<open>epel\<close> or \<open>regular\<close> leaves
  \<open>chroots\<close> unbound: the script has already uploaded every \<open>.changes\<close> package
  with \<open>dput\<close>, then raises \<open>UnboundLocalError\<close> and builds nothing on Copr.\<close>

theorem upload_unsupported_destination:
  assumes "upload_destination a \<notin> {Some ''epel'', Some ''regular''}"
  shows "upload_main ld fv (Some v) a =
     (Inl (UnboundLocalError ''chroots''),
      WriteDputCfg # map (\<lambda>f. Dput (launchpad_ppa v) (path_join (upload_directory a) f))
                       (filter (ends_with ''.changes'') (upload_packages ld a)))"
  using assms by (simp add: upload_main_def upload_chroots_def)

end
