(* ===== verification/Arg_Parse.thy ===== *)
theory Arg_Parse
  imports Packaging
begin

text \<open>
  The part of Python's \<open>argparse\<close> and \<open>posixpath\<close> that the scripts' command lines
  go through (Python 3.11.10): \<open>ArgumentParser.parse_args\<close> for parsers whose arguments
  are all optional (\<open>--name\<close>/\<open>-n\<close>) with the actions \<open>store\<close>, \<open>store_true\<close>
  and the automatic \<open>-h\<close>/\<open>--help\<close>, the \<open>nargs\<close> values \<open>None\<close>, \<open>'?'\<close>,
  \<open>'+'\<close>, \<open>required\<close>, \<open>choices\<close>, \<open>const\<close>, \<open>default\<close>, and the types \<open>str\<close>
  and \<open>os.path.abspath\<close>. These are library functions, not code of the repository;
  they are written after \<open>Lib/argparse.py\<close> (\<open>_parse_known_args\<close>,
  \<open>_parse_optional\<close>, \<open>_get_option_tuples\<close>, \<open>consume_optional\<close>,
  \<open>_get_values\<close>) and \<open>Lib/posixpath.py\<close> (\<open>normpath\<close>, \<open>abspath\<close>), so that
  the parser declarations of the scripts (theory \<open>Command_Lines\<close>) can be read as
  data and run. Every way \<open>parse_args\<close> stops early (\<open>parser.error\<close>, which
  exits with status 2, and the help action, which exits with status 0) is the value
  \<open>Inl (SystemExit n)\<close>.
\<close>

subsection \<open>Paths: \<open>posixpath.normpath\<close> and \<open>abspath\<close>\<close>

text \<open>\<open>str.split(sep)\<close>: the pieces between the separators, empty ones included.\<close>

fun split_on :: "char \<Rightarrow> string \<Rightarrow> string list" where
  "split_on c [] = [[]]"
| "split_on c (x # xs) =
     (if x = c then [] # split_on c xs
      else (case split_on c xs of w # ws \<Rightarrow> (x # w) # ws | [] \<Rightarrow> [[x]]))"

text \<open>One or two leading slashes are kept, three or more count as one.\<close>

definition initial_slashes :: "string \<Rightarrow> nat" where
  "initial_slashes p =
     (if take 1 p = ''/'' then (if take 2 p = ''//'' \<and> take 3 p \<noteq> ''///'' then 2 else 1) else 0)"

text \<open>The loop of \<open>normpath\<close> over the components: empty ones and \<open>.\<close> are dropped,
  \<open>..\<close> removes the previous component, and is kept at the start of a relative path
  or after another kept \<open>..\<close>.\<close>

definition norm_step :: "nat \<Rightarrow> string list \<Rightarrow> string \<Rightarrow> string list" where
  "norm_step initial acc c =
     (if c = [] \<or> c = ''.'' then acc
      else if c \<noteq> ''..'' \<or> (initial = 0 \<and> acc = []) \<or> (acc \<noteq> [] \<and> last acc = ''..'')
      then acc @ [c]
      else if acc \<noteq> [] then butlast acc else acc)"

definition normpath :: "string \<Rightarrow> string" where
  "normpath p =
     (if p = [] then ''.''
      else (let ini = initial_slashes p;
                q = replicate ini (CHR ''/'') @ py_join ''/'' (foldl (norm_step ini) [] (split_on (CHR ''/'') p))
            in if q = [] then ''.'' else q))"

text \<open>\<open>abspath\<close> joins a relative path to the working directory first.\<close>

definition abspath :: "string \<Rightarrow> string \<Rightarrow> string" where
  "abspath cwd p = normpath (if take 1 p = ''/'' then p else path_join cwd p)"

subsection \<open>Argument declarations\<close>

datatype arg_action = ActStore | ActStoreTrue | ActHelp

datatype arg_nargs = NargsOne | NargsOpt | NargsPlus | NargsZero

datatype arg_conv = ConvStr | ConvAbspath

text \<open>One \<open>add_argument\<close> call: its option strings and keyword arguments.\<close>

record arg_spec =
  arg_flags :: "string list"
  arg_act :: arg_action
  arg_nargs :: arg_nargs
  arg_default :: ns_val
  arg_const :: ns_val
  arg_required :: bool
  arg_choices :: "string list option"
  arg_conv :: arg_conv

text \<open>\<open>add_argument(*flags)\<close> with every keyword at its default.\<close>

definition add_argument :: "string list \<Rightarrow> arg_spec" where
  "add_argument flags =
     \<lparr>arg_flags = flags, arg_act = ActStore, arg_nargs = NargsOne, arg_default = NsNone,
      arg_const = NsNone, arg_required = False, arg_choices = None, arg_conv = ConvStr\<rparr>"

definition store_true :: "arg_spec \<Rightarrow> arg_spec" where
  "store_true a = a\<lparr>arg_act := ActStoreTrue, arg_nargs := NargsZero, arg_default := NsBool False,
     arg_const := NsBool True\<rparr>"

text \<open>\<open>ArgumentParser()\<close> adds \<open>-h\<close>/\<open>--help\<close> before the declared arguments.\<close>

definition help_action :: arg_spec where
  "help_action = (add_argument [''-h'', ''--help''])\<lparr>arg_act := ActHelp, arg_nargs := NargsZero\<rparr>"

text \<open>The attribute name: the first long option string, else the first one, without
  its leading dashes and with \<open>-\<close> replaced by \<open>_\<close>.\<close>

definition underscores :: "string \<Rightarrow> string" where
  "underscores s = map (\<lambda>c. if c = CHR ''-'' then CHR ''_'' else c) s"

definition arg_dest :: "arg_spec \<Rightarrow> string" where
  "arg_dest a =
     underscores (dropWhile (\<lambda>c. c = CHR ''-'')
       (case filter (\<lambda>f. take 2 f = ''--'') (arg_flags a) of f # _ \<Rightarrow> f | [] \<Rightarrow> hd (arg_flags a)))"

text \<open>The option strings in declaration order, each with the index of its argument.\<close>

definition option_strings :: "arg_spec list \<Rightarrow> (nat \<times> string) list" where
  "option_strings specs = concat (map (\<lambda>(i, a). map (Pair i) (arg_flags a)) (enumerate 0 specs))"

definition flag_index :: "arg_spec list \<Rightarrow> string \<Rightarrow> nat option" where
  "flag_index specs s = map_of (map (\<lambda>(i, f). (f, i)) (option_strings specs)) s"

subsection \<open>Reading the command line\<close>

text \<open>The classes of command-line strings: an option (with the index of its argument,
  the option string matched, whether a \<open>=\<close> separated it from its value, and the
  value written after it or after a short flag), an unknown option, an argument, and the
  first \<open>--\<close>.\<close>

datatype arg_tok = TOpt nat string bool "string option" | TUnknown string | TArg string | TSep

definition is_digit :: "char \<Rightarrow> bool" where
  "is_digit c \<longleftrightarrow> c \<in> set digit_chars"

text \<open>\<open>^-\d+$|^-\d*\.\d+$\<close>.\<close>

definition is_neg_number :: "string \<Rightarrow> bool" where
  "is_neg_number s =
     (case s of
        c # r \<Rightarrow> c = CHR ''-'' \<and>
          ((r \<noteq> [] \<and> list_all is_digit r) \<or>
           (case dropWhile is_digit r of d # b \<Rightarrow> d = CHR ''.'' \<and> b \<noteq> [] \<and> list_all is_digit b | [] \<Rightarrow> False))
      | [] \<Rightarrow> False)"

definition split_eq :: "string \<Rightarrow> string \<times> string" where
  "split_eq s = (takeWhile (\<lambda>c. c \<noteq> CHR ''='') s, drop 1 (dropWhile (\<lambda>c. c \<noteq> CHR ''='') s))"

text \<open>\<open>_get_option_tuples\<close>: a long prefix matches every long option it starts; a
  short one matches its two-character flag, with the rest as the value.\<close>

definition option_tuples :: "arg_spec list \<Rightarrow> string \<Rightarrow> arg_tok list" where
  "option_tuples specs s =
     (if take 2 s = ''--'' then
        (let (pre, eq, ex) = (if CHR ''='' \<in> set s then (fst (split_eq s), True, Some (snd (split_eq s)))
                              else (s, False, None))
         in map (\<lambda>(i, f). TOpt i f eq ex) (filter (\<lambda>(i, f). take (length pre) f = pre) (option_strings specs)))
      else
        concat (map (\<lambda>(i, f). if f = take 2 s then [TOpt i f False (Some (drop 2 s))]
                              else if take (length s) f = s then [TOpt i f False None] else [])
                  (option_strings specs)))"

text \<open>\<open>_parse_optional\<close>.\<close>

definition classify_arg :: "arg_spec list \<Rightarrow> string \<Rightarrow> pkg_error + arg_tok" where
  "classify_arg specs s =
     (if s = [] \<or> hd s \<noteq> CHR ''-'' then Inr (TArg s)
      else case flag_index specs s of
        Some i \<Rightarrow> Inr (TOpt i s False None)
      | None \<Rightarrow>
          if length s = 1 then Inr (TArg s)
          else case (if CHR ''='' \<in> set s then flag_index specs (fst (split_eq s)) else None) of
            Some i \<Rightarrow> Inr (TOpt i (fst (split_eq s)) True (Some (snd (split_eq s))))
          | None \<Rightarrow>
              (case option_tuples specs s of
                 [] \<Rightarrow> if is_neg_number s \<and> \<not> list_ex (is_neg_number \<circ> snd) (option_strings specs)
                       then Inr (TArg s)
                       else if CHR '' '' \<in> set s then Inr (TArg s) else Inr (TUnknown s)
               | [t] \<Rightarrow> Inr t
               | _ \<Rightarrow> Inl (SystemExit 2)))"

text \<open>Every string after the first \<open>--\<close> is an argument.\<close>

fun tokenise :: "arg_spec list \<Rightarrow> string list \<Rightarrow> pkg_error + arg_tok list" where
  "tokenise specs [] = Inr []"
| "tokenise specs (s # ss) =
     (if s = ''--'' then Inr (TSep # map TArg ss)
      else (case classify_arg specs s of
              Inl e \<Rightarrow> Inl e
            | Inr t \<Rightarrow> (case tokenise specs ss of Inl e \<Rightarrow> Inl e | Inr ts \<Rightarrow> Inr (t # ts))))"

fun tok_str :: "arg_tok \<Rightarrow> string" where
  "tok_str (TArg s) = s"
| "tok_str (TUnknown s) = s"
| "tok_str (TOpt i f eq e) = f"
| "tok_str TSep = ''--''"

fun is_targ :: "arg_tok \<Rightarrow> bool" where
  "is_targ (TArg s) = True"
| "is_targ t = False"

subsection \<open>Consuming the options\<close>

text \<open>
  The loop of \<open>consume_optional\<close> over a value written with the option: an option
  that takes a value takes it; a short flag that takes none (\<open>-h\<close>) is followed by
  the short flag spelled by the value's first character, and when there is no such flag
  the rest of the string is an extra; anything else is an error. The result lists the
  actions with their values, the action (if any) that takes its values from the strings
  that follow, and the extras.
\<close>

function opt_chain ::
  "arg_spec list \<Rightarrow> nat \<Rightarrow> string \<Rightarrow> bool \<Rightarrow> string option \<Rightarrow>
     pkg_error + (nat \<times> string list) list \<times> nat option \<times> string list"
where
  "opt_chain specs i f eq None = Inr ([], Some i, [])"
| "opt_chain specs i f eq (Some x) =
     (if arg_nargs (specs ! i) \<noteq> NargsZero then Inr ([(i, [x])], None, [])
      else if take 1 (drop 1 f) \<noteq> ''-'' \<and> x \<noteq> [] then
        (if eq \<or> hd x = CHR ''-'' then Inl (SystemExit 2)
         else (case flag_index specs (take 1 f @ take 1 x) of
                 None \<Rightarrow> Inr ([(i, [])], None, [take 1 f @ x])
               | Some j \<Rightarrow>
                   (case opt_chain specs j (take 1 f @ take 1 x) (tl x \<noteq> [] \<and> hd (tl x) = CHR ''='')
                           (if tl x = [] then None else if hd (tl x) = CHR ''='' then Some (tl (tl x)) else Some (tl x)) of
                      Inl e \<Rightarrow> Inl e
                    | Inr (acts, p, ex) \<Rightarrow> Inr ((i, []) # acts, p, ex))))
      else Inl (SystemExit 2))"
  by pat_completeness auto
termination
  by (relation "measure (\<lambda>(_, _, _, _, x). case x of None \<Rightarrow> 0 | Some s \<Rightarrow> Suc (length s))") auto

text \<open>\<open>match_argument\<close>: how many of the \<open>k\<close> arguments that follow an option it takes,
  or \<open>None\<close> for the errors \<open>expected one argument\<close> and
  \<open>expected at least one argument\<close>.\<close>

definition nargs_take :: "arg_nargs \<Rightarrow> nat \<Rightarrow> nat option" where
  "nargs_take n k =
     (case n of
        NargsOne \<Rightarrow> if k = 0 then None else Some 1
      | NargsOpt \<Rightarrow> Some (min k 1)
      | NargsPlus \<Rightarrow> if k = 0 then None else Some k
      | NargsZero \<Rightarrow> Some 0)"

definition opt_consume ::
  "arg_spec list \<Rightarrow> nat \<Rightarrow> string \<Rightarrow> bool \<Rightarrow> string option \<Rightarrow> arg_tok list \<Rightarrow>
     pkg_error + (nat \<times> string list) list \<times> nat \<times> string list"
where
  "opt_consume specs i f eq x ts =
     (case opt_chain specs i f eq x of
        Inl e \<Rightarrow> Inl e
      | Inr (acts, None, ex) \<Rightarrow> Inr (acts, 0, ex)
      | Inr (acts, Some j, ex) \<Rightarrow>
          (case nargs_take (arg_nargs (specs ! j)) (length (takeWhile is_targ ts)) of
             None \<Rightarrow> Inl (SystemExit 2)
           | Some n \<Rightarrow> Inr (acts @ [(j, map tok_str (take n ts))], n, ex)))"

text \<open>\<open>_get_value\<close> and \<open>_check_value\<close>.\<close>

definition conv_value :: "string \<Rightarrow> arg_conv \<Rightarrow> string \<Rightarrow> string" where
  "conv_value cwd c v = (case c of ConvStr \<Rightarrow> v | ConvAbspath \<Rightarrow> abspath cwd v)"

definition check_choice :: "arg_spec \<Rightarrow> string \<Rightarrow> bool" where
  "check_choice a v = (case arg_choices a of None \<Rightarrow> True | Some cs \<Rightarrow> v \<in> set cs)"

definition checked_str :: "string \<Rightarrow> arg_spec \<Rightarrow> string \<Rightarrow> pkg_error + ns_val" where
  "checked_str cwd a v =
     (let x = conv_value cwd (arg_conv a) v in if check_choice a x then Inr (NsStr x) else Inl (SystemExit 2))"

text \<open>\<open>_get_values\<close>: no value for \<open>'?'\<close> gives the constant, converted and
  checked when it is a string.\<close>

definition arg_values :: "string \<Rightarrow> arg_spec \<Rightarrow> string list \<Rightarrow> pkg_error + ns_val" where
  "arg_values cwd a vs =
     (case arg_nargs a of
        NargsZero \<Rightarrow> Inr (arg_const a)
      | NargsPlus \<Rightarrow>
          (let xs = map (conv_value cwd (arg_conv a)) vs in
           if list_all (check_choice a) xs then Inr (NsList xs) else Inl (SystemExit 2))
      | _ \<Rightarrow>
          (case vs of
             [] \<Rightarrow> (case arg_const a of
                      NsStr c \<Rightarrow> checked_str cwd a c
                    | v \<Rightarrow> Inr v)
           | v # _ \<Rightarrow> checked_str cwd a v))"

record parse_st =
  ps_ns :: namespace
  ps_seen :: "nat list"
  ps_extras :: "string list"

text \<open>\<open>take_action\<close>: the help action exits; the others store their value.\<close>

definition take_action :: "string \<Rightarrow> arg_spec list \<Rightarrow> nat \<Rightarrow> string list \<Rightarrow> parse_st \<Rightarrow> pkg_error + parse_st" where
  "take_action cwd specs i vs st =
     (let a = specs ! i in
      if arg_act a = ActHelp then Inl (SystemExit 0)
      else (case arg_values cwd a vs of
              Inl e \<Rightarrow> Inl e
            | Inr v \<Rightarrow> Inr (st\<lparr>ps_ns := (ps_ns st)(arg_dest a \<mapsto> v), ps_seen := ps_seen st @ [i]\<rparr>)))"

fun run_actions :: "string \<Rightarrow> arg_spec list \<Rightarrow> (nat \<times> string list) list \<Rightarrow> parse_st \<Rightarrow> pkg_error + parse_st" where
  "run_actions cwd specs [] st = Inr st"
| "run_actions cwd specs ((i, vs) # acts) st =
     (case take_action cwd specs i vs st of Inl e \<Rightarrow> Inl e | Inr st' \<Rightarrow> run_actions cwd specs acts st')"

text \<open>The main loop of \<open>_parse_known_args\<close>: with no positional arguments declared,
  every argument not taken by an option, every unknown option and everything from
  \<open>--\<close> on is an extra.\<close>

function consume :: "string \<Rightarrow> arg_spec list \<Rightarrow> arg_tok list \<Rightarrow> parse_st \<Rightarrow> pkg_error + parse_st" where
  "consume cwd specs [] st = Inr st"
| "consume cwd specs (TArg s # ts) st = consume cwd specs ts (st\<lparr>ps_extras := ps_extras st @ [s]\<rparr>)"
| "consume cwd specs (TUnknown s # ts) st = consume cwd specs ts (st\<lparr>ps_extras := ps_extras st @ [s]\<rparr>)"
| "consume cwd specs (TSep # ts) st = Inr (st\<lparr>ps_extras := ps_extras st @ ''--'' # map tok_str ts\<rparr>)"
| "consume cwd specs (TOpt i f eq x # ts) st =
     (case opt_consume specs i f eq x ts of
        Inl e \<Rightarrow> Inl e
      | Inr (acts, n, ex) \<Rightarrow>
          (case run_actions cwd specs acts st of
             Inl e \<Rightarrow> Inl e
           | Inr st' \<Rightarrow> consume cwd specs (drop n ts) (st'\<lparr>ps_extras := ps_extras st' @ ex\<rparr>)))"
  by pat_completeness auto
termination
  by (relation "measure (\<lambda>(_, _, ts, _). length ts)") auto

text \<open>The namespace starts with every default; a string default of an argument not
  given is converted by its type at the end.\<close>

definition initial_ns :: "arg_spec list \<Rightarrow> namespace" where
  "initial_ns specs = map_of (map (\<lambda>a. (arg_dest a, arg_default a)) (filter (\<lambda>a. arg_act a \<noteq> ActHelp) specs))"

definition finish_defaults :: "string \<Rightarrow> arg_spec list \<Rightarrow> parse_st \<Rightarrow> namespace" where
  "finish_defaults cwd specs st =
     foldl (\<lambda>ns (i, a).
              if i \<notin> set (ps_seen st) \<and> arg_act a \<noteq> ActHelp
              then (case arg_default a of NsStr d \<Rightarrow> ns(arg_dest a \<mapsto> NsStr (conv_value cwd (arg_conv a) d)) | _ \<Rightarrow> ns)
              else ns)
       (ps_ns st) (enumerate 0 specs)"

definition missing_required :: "arg_spec list \<Rightarrow> parse_st \<Rightarrow> bool" where
  "missing_required specs st = list_ex (\<lambda>(i, a). arg_required a \<and> i \<notin> set (ps_seen st)) (enumerate 0 specs)"

text \<open>\<open>parse_args\<close>: a missing required argument and any extra are errors.\<close>

definition parse_args :: "string \<Rightarrow> arg_spec list \<Rightarrow> string list \<Rightarrow> pkg_error + namespace" where
  "parse_args cwd decls argv =
     (let specs = help_action # decls in
      case tokenise specs argv of
        Inl e \<Rightarrow> Inl e
      | Inr ts \<Rightarrow>
          (case consume cwd specs ts \<lparr>ps_ns = initial_ns specs, ps_seen = [], ps_extras = []\<rparr> of
             Inl e \<Rightarrow> Inl e
           | Inr st \<Rightarrow>
               if missing_required specs st then Inl (SystemExit 2)
               else if ps_extras st \<noteq> [] then Inl (SystemExit 2)
               else Inr (finish_defaults cwd specs st)))"

text \<open>Predicates used by the lemmas below: an argument that does not start with a dash,
  option tokens and actions whose index names a declared argument, and the attribute
  names of a parser.\<close>

definition plain_arg :: "string \<Rightarrow> bool" where
  "plain_arg s \<longleftrightarrow> take 1 s \<noteq> ''-''"

definition tok_ok :: "arg_spec list \<Rightarrow> arg_tok \<Rightarrow> bool" where
  "tok_ok specs t = (case t of TOpt i f eq x \<Rightarrow> i < length specs | _ \<Rightarrow> True)"

definition acts_ok :: "arg_spec list \<Rightarrow> (nat \<times> string list) list \<Rightarrow> bool" where
  "acts_ok specs acts = list_all (\<lambda>(j, vs). j < length specs \<and> (vs = [] \<longrightarrow> arg_nargs (specs ! j) \<in> {NargsOpt, NargsZero})) acts"

abbreviation dests :: "arg_spec list \<Rightarrow> string set" where
  "dests specs \<equiv> arg_dest ` set specs"

subsection \<open>Every option index names a declared argument\<close>

text \<open>The tokens and actions the reader produces refer to declared arguments only.\<close>

lemma option_strings_iff:
  "(i, f) \<in> set (option_strings specs) \<longleftrightarrow> i < length specs \<and> f \<in> set (arg_flags (specs ! i))"
  unfolding option_strings_def
  apply (auto simp: in_set_enumerate_eq)
  apply (rule bexI [of _ "(i, specs ! i)"])
   apply (auto simp: in_set_enumerate_eq)
  done

lemma flag_index_lt: "flag_index specs s = Some i \<Longrightarrow> i < length specs"
  by (auto simp: flag_index_def option_strings_iff dest!: map_of_SomeD)

lemma option_tuples_ok: "t \<in> set (option_tuples specs s) \<Longrightarrow> tok_ok specs t"
  by (auto simp: option_tuples_def tok_ok_def option_strings_iff split: prod.splits if_splits)

lemma option_tuples_hd_ok: "option_tuples specs s = t # ts \<Longrightarrow> tok_ok specs t"
  by (rule option_tuples_ok [of _ _ s]) simp

lemma classify_arg_ok: "classify_arg specs s = Inr t \<Longrightarrow> tok_ok specs t"
  by (auto simp: classify_arg_def tok_ok_def split: option.splits if_splits list.splits
      dest: flag_index_lt option_tuples_hd_ok)

lemma tokenise_ok: "tokenise specs ss = Inr ts \<Longrightarrow> list_all (tok_ok specs) ts"
proof (induction specs ss arbitrary: ts rule: tokenise.induct)
  case (2 specs s ss)
  show ?case
  proof (cases "s = ''--''")
    case True with "2.prems" show ?thesis by (auto simp: tok_ok_def list_all_iff)
  next
    case False
    with "2.prems" obtain t us where c: "classify_arg specs s = Inr t" and r: "tokenise specs ss = Inr us"
      and ts: "ts = t # us"
      by (auto split: sum.splits)
    from classify_arg_ok [OF c] "2.IH" [OF False c r] ts show ?thesis by simp
  qed
qed simp

lemma opt_chain_ok:
  "i < length specs \<Longrightarrow> opt_chain specs i f eq x = Inr (acts, p, ex) \<Longrightarrow>
     acts_ok specs acts \<and> (case p of Some j \<Rightarrow> j < length specs | None \<Rightarrow> True)"
proof (induction specs i f eq x arbitrary: acts p ex rule: opt_chain.induct)
  case (1 specs i f eq)
  then show ?case by (auto simp: acts_ok_def)
next
  case (2 specs i f eq x)
  let ?g = "take 1 f @ take 1 x"
  let ?eq = "tl x \<noteq> [] \<and> hd (tl x) = CHR ''=''"
  let ?x = "if tl x = [] then None else if hd (tl x) = CHR ''='' then Some (tl (tl x)) else Some (tl x)"
  show ?case
  proof (cases "arg_nargs (specs ! i) \<noteq> NargsZero \<or> \<not> (take 1 (drop 1 f) \<noteq> ''-'' \<and> x \<noteq> []) \<or> eq \<or> hd x = CHR ''-''")
    case True
    with "2.prems" show ?thesis by (auto simp: acts_ok_def split: if_splits)
  next
    case False
    then have nz: "arg_nargs (specs ! i) = NargsZero" by simp
    show ?thesis
    proof (cases "flag_index specs ?g")
      case None
      with "2.prems" False show ?thesis by (auto simp: acts_ok_def)
    next
      case (Some j)
      obtain r where r: "opt_chain specs j ?g ?eq ?x = r" by simp
      show ?thesis
      proof (cases r)
        case (Inl e)
        with "2.prems" False Some r show ?thesis by simp
      next
        case (Inr q)
        then obtain acts' p' ex' where q: "r = Inr (acts', p', ex')" by (metis prod_cases3)
        with "2.prems" False Some r have acts: "acts = (i, []) # acts'" "p = p'" by simp_all
        have c: "\<not> arg_nargs (specs ! i) \<noteq> NargsZero" "take 1 (drop 1 f) \<noteq> ''-'' \<and> x \<noteq> []"
          "\<not> (eq \<or> hd x = CHR ''-'')" using False by auto
        from r q have r': "opt_chain specs j ?g ?eq ?x = Inr (acts', p', ex')" by simp
        from "2.IH" [OF c Some flag_index_lt [OF Some] r']
        have "acts_ok specs acts' \<and> (case p' of Some j \<Rightarrow> j < length specs | None \<Rightarrow> True)" by simp
        with acts "2.prems"(1) nz show ?thesis by (simp add: acts_ok_def)
      qed
    qed
  qed
qed

lemma opt_consume_ok:
  "i < length specs \<Longrightarrow> opt_consume specs i f eq x ts = Inr (acts, n, ex) \<Longrightarrow> acts_ok specs acts"
  by (auto simp: opt_consume_def acts_ok_def nargs_take_def split: sum.splits prod.splits option.splits
      if_splits arg_nargs.splits dest!: opt_chain_ok)

subsection \<open>Invariants of the parse\<close>

text \<open>\<open>consume_preserves\<close> carries a property of the state through the main loop when every action keeps it; the namespace only ever holds the attributes of the declared arguments, and the value of an argument is one its action can store, or its (converted) default.\<close>

lemma run_actions_preserves:
  assumes step: "\<And>j vs st st'. j < length specs \<Longrightarrow> (vs = [] \<Longrightarrow> arg_nargs (specs ! j) \<in> {NargsOpt, NargsZero}) \<Longrightarrow>
      take_action cwd specs j vs st = Inr st' \<Longrightarrow> P st \<Longrightarrow> P st'"
  shows "acts_ok specs acts \<Longrightarrow> run_actions cwd specs acts st = Inr st' \<Longrightarrow> P st \<Longrightarrow> P st'"
proof (induction acts arbitrary: st)
  case (Cons a acts)
  obtain j vs where a: "a = (j, vs)" by fastforce
  from Cons.prems a obtain st1 where t: "take_action cwd specs j vs st = Inr st1"
    and r: "run_actions cwd specs acts st1 = Inr st'"
    by (auto split: sum.splits)
  from Cons.prems(1) a have j: "j < length specs" "vs = [] \<Longrightarrow> arg_nargs (specs ! j) \<in> {NargsOpt, NargsZero}"
    and ok: "acts_ok specs acts" by (auto simp: acts_ok_def)
  from Cons.IH [OF ok r step [OF j t Cons.prems(3)]] show ?case .
qed simp

lemma consume_preserves:
  assumes run: "\<And>acts st st'. acts_ok specs acts \<Longrightarrow> run_actions cwd specs acts st = Inr st' \<Longrightarrow> P st \<Longrightarrow> P st'"
    and ext: "\<And>st xs. P st \<Longrightarrow> P (st\<lparr>ps_extras := xs\<rparr>)"
  shows "list_all (tok_ok specs) ts \<Longrightarrow> consume cwd specs ts st = Inr st' \<Longrightarrow> P st \<Longrightarrow> P st'"
proof -
  have "c = cwd \<Longrightarrow> sp = specs \<Longrightarrow> list_all (tok_ok specs) ts \<Longrightarrow> consume c sp ts st = Inr st' \<Longrightarrow> P st \<Longrightarrow> P st'"
    for c sp
  proof (induction c sp ts st rule: consume.induct)
    case (5 c sp i f eq x ts st)
    from "5.prems"(3) have i: "i < length specs" and ts: "list_all (tok_ok specs) (drop n ts)" for n
      by (auto simp: tok_ok_def list_all_iff dest: in_set_dropD)
    show ?case
    proof (cases "opt_consume specs i f eq x ts")
      case (Inl e) with "5.prems" show ?thesis by simp
    next
      case (Inr r)
      then obtain acts n ex where oc: "opt_consume specs i f eq x ts = Inr (acts, n, ex)"
        by (metis prod_cases3)
      show ?thesis
      proof (cases "run_actions cwd specs acts st")
        case (Inl e) with oc "5.prems" show ?thesis by simp
      next
        case (Inr st1)
        have "P (st1\<lparr>ps_extras := ps_extras st1 @ ex\<rparr>)"
          by (rule ext [OF run [OF opt_consume_ok [OF i oc] Inr "5.prems"(5)]])
        from "5.IH" [OF oc [folded "5.prems"(2)] refl refl Inr [folded "5.prems"(1,2)] "5.prems"(1,2) ts _ this]
          oc Inr "5.prems"(1,2,4)
        show ?thesis by simp
      qed
    qed
  qed (auto intro: ext)
  then show "list_all (tok_ok specs) ts \<Longrightarrow> consume cwd specs ts st = Inr st' \<Longrightarrow> P st \<Longrightarrow> P st'" by blast
qed

lemma take_action_Inr:
  "take_action cwd specs i vs st = Inr st' \<Longrightarrow>
     \<exists>v. arg_values cwd (specs ! i) vs = Inr v \<and> ps_ns st' = (ps_ns st)(arg_dest (specs ! i) \<mapsto> v) \<and>
         ps_seen st' = ps_seen st @ [i]"
  by (auto simp: take_action_def Let_def split: if_splits sum.splits)

lemma take_action_dom:
  assumes "i < length specs" "take_action cwd specs i vs st = Inr st'" "dom (ps_ns st) \<subseteq> dests specs"
  shows "dom (ps_ns st') \<subseteq> dests specs"
  using take_action_Inr [OF assms(2)] assms(1,3) by (fastforce simp: subset_iff domIff split: if_splits)

lemma consume_dom:
  assumes "list_all (tok_ok specs) ts" "consume cwd specs ts st = Inr st'" "dom (ps_ns st) \<subseteq> dests specs"
  shows "dom (ps_ns st') \<subseteq> dests specs"
proof -
  let ?P = "\<lambda>s. dom (ps_ns s) \<subseteq> dests specs"
  have step: "?P s'" if "j < length specs" "take_action cwd specs j vs s = Inr s'" "?P s" for j vs s s'
    using take_action_dom that by blast
  have run: "?P s'" if "acts_ok specs acts" "run_actions cwd specs acts s = Inr s'" "?P s" for acts s s'
    by (rule run_actions_preserves [of specs cwd ?P, OF step that])
  show ?thesis by (rule consume_preserves [of specs cwd ?P, OF run _ assms]) auto
qed

lemma initial_ns_dom: "dom (initial_ns specs) \<subseteq> dests specs"
  by (auto simp: initial_ns_def dom_map_of_conv_image_fst intro: imageI)

lemma finish_defaults_dom:
  assumes "dom (ps_ns st) \<subseteq> dests specs"
  shows "dom (finish_defaults cwd specs st) \<subseteq> dests specs"
proof -
  have "dom ns \<subseteq> dests specs \<Longrightarrow> set ps \<subseteq> set (enumerate 0 specs) \<Longrightarrow>
      dom (foldl (\<lambda>ns (i, a). if i \<notin> set (ps_seen st) \<and> arg_act a \<noteq> ActHelp
              then (case arg_default a of NsStr d \<Rightarrow> ns(arg_dest a \<mapsto> NsStr (conv_value cwd (arg_conv a) d)) | _ \<Rightarrow> ns)
              else ns) ns ps) \<subseteq> dests specs" for ns ps
  proof (induction ps arbitrary: ns)
    case (Cons p ps)
    obtain i a where p: "p = (i, a)" by fastforce
    with Cons.prems(2) have "a \<in> set specs" by (auto simp: in_set_enumerate_eq)
    with Cons p show ?case by (auto split: ns_val.splits)
  qed simp
  from this [OF assms order_refl] show ?thesis by (simp add: finish_defaults_def)
qed

lemma parse_args_dom:
  assumes "parse_args cwd decls argv = Inr ns"
  shows "dom ns \<subseteq> dests (help_action # decls)"
proof -
  let ?specs = "help_action # decls"
  let ?st0 = "\<lparr>ps_ns = initial_ns ?specs, ps_seen = [], ps_extras = []\<rparr>"
  from assms obtain ts st where t: "tokenise ?specs argv = Inr ts" and c: "consume cwd ?specs ts ?st0 = Inr st"
    and ns: "ns = finish_defaults cwd ?specs st"
    by (auto simp: parse_args_def Let_def split: sum.splits if_splits)
  have "dom (ps_ns ?st0) \<subseteq> dests ?specs" using initial_ns_dom [of ?specs] by simp
  from consume_dom [OF tokenise_ok [OF t] c this] show ?thesis
    unfolding ns by (rule finish_defaults_dom)
qed

lemma arg_values_choice:
  "arg_nargs a = NargsOne \<Longrightarrow> arg_choices a = Some cs \<Longrightarrow> vs \<noteq> [] \<Longrightarrow> arg_values cwd a vs = Inr v \<Longrightarrow>
     \<exists>y\<in>set cs. v = NsStr y"
  by (cases vs) (auto simp: arg_values_def checked_str_def check_choice_def Let_def split: if_splits)

lemma distinct_dest_neq:
  "distinct (map arg_dest specs) \<Longrightarrow> j < length specs \<Longrightarrow> k < length specs \<Longrightarrow> j \<noteq> k \<Longrightarrow>
     arg_dest (specs ! j) \<noteq> arg_dest (specs ! k)"
  by (metis length_map nth_eq_iff_index_eq nth_map)

lemma take_action_value:
  assumes dist: "distinct (map arg_dest specs)" and k: "k < length specs"
    and vals: "\<And>vs v. (vs = [] \<Longrightarrow> arg_nargs (specs ! k) \<in> {NargsOpt, NargsZero}) \<Longrightarrow> arg_values cwd (specs ! k) vs = Inr v \<Longrightarrow> Q v"
    and j: "j < length specs" "vs = [] \<Longrightarrow> arg_nargs (specs ! j) \<in> {NargsOpt, NargsZero}"
    and t: "take_action cwd specs j vs st = Inr st'"
    and inv: "(k \<in> set (ps_seen st) \<longrightarrow> (\<exists>v. ps_ns st (arg_dest (specs ! k)) = Some v \<and> Q v)) \<and>
              (k \<notin> set (ps_seen st) \<longrightarrow> ps_ns st (arg_dest (specs ! k)) = Some (arg_default (specs ! k)))"
  shows "(k \<in> set (ps_seen st') \<longrightarrow> (\<exists>v. ps_ns st' (arg_dest (specs ! k)) = Some v \<and> Q v)) \<and>
         (k \<notin> set (ps_seen st') \<longrightarrow> ps_ns st' (arg_dest (specs ! k)) = Some (arg_default (specs ! k)))"
proof -
  from take_action_Inr [OF t] obtain v where v: "arg_values cwd (specs ! j) vs = Inr v"
    and ns: "ps_ns st' = (ps_ns st)(arg_dest (specs ! j) \<mapsto> v)" and seen: "ps_seen st' = ps_seen st @ [j]"
    by blast
  show ?thesis
  proof (cases "j = k")
    case True
    with vals j(2) v have "Q v" by blast
    with ns seen True show ?thesis by auto
  next
    case False
    from distinct_dest_neq [OF dist j(1) k False] ns seen False inv show ?thesis by auto
  qed
qed

lemma finish_defaults_at:
  assumes "k < length specs" "distinct (map arg_dest specs)"
  shows "finish_defaults cwd specs st (arg_dest (specs ! k)) =
     (case arg_default (specs ! k) of
        NsStr d \<Rightarrow> if k \<notin> set (ps_seen st) \<and> arg_act (specs ! k) \<noteq> ActHelp
                  then Some (NsStr (conv_value cwd (arg_conv (specs ! k)) d)) else ps_ns st (arg_dest (specs ! k))
      | _ \<Rightarrow> ps_ns st (arg_dest (specs ! k)))"
proof -
  let ?f = "\<lambda>ns (i, a). if i \<notin> set (ps_seen st) \<and> arg_act a \<noteq> ActHelp
              then (case arg_default a of NsStr d \<Rightarrow> ns(arg_dest a \<mapsto> NsStr (conv_value cwd (arg_conv a) d)) | _ \<Rightarrow> ns)
              else ns"
  define new where "new x = (case arg_default (specs ! k) of
        NsStr d \<Rightarrow> if k \<notin> set (ps_seen st) \<and> arg_act (specs ! k) \<noteq> ActHelp
                  then Some (NsStr (conv_value cwd (arg_conv (specs ! k)) d)) else x
      | _ \<Rightarrow> x)" for x
  have gen: "distinct (map fst ps) \<Longrightarrow> set ps \<subseteq> set (enumerate 0 specs) \<Longrightarrow>
      foldl ?f ns ps (arg_dest (specs ! k)) =
        (if k \<in> fst ` set ps then new (ns (arg_dest (specs ! k))) else ns (arg_dest (specs ! k)))"
    for ns ps
  proof (induction ps arbitrary: ns)
    case (Cons p ps)
    obtain i a where p: "p = (i, a)" by fastforce
    with Cons.prems(2) have i: "i < length specs" "a = specs ! i" by (auto simp: in_set_enumerate_eq)
    show ?case
    proof (cases "i = k")
      case True
      with Cons.prems(1) p have nk: "k \<notin> fst ` set ps" by auto
      have "?f ns (i, a) (arg_dest (specs ! k)) = new (ns (arg_dest (specs ! k)))"
        using True i by (auto simp: new_def split: ns_val.splits)
      with Cons.IH [of "?f ns (i, a)"] Cons.prems(1,2) p nk True show ?thesis by auto
    next
      case False
      have "arg_dest a \<noteq> arg_dest (specs ! k)" using distinct_dest_neq [OF assms(2) i(1) assms(1) False] i(2) by simp
      then have "?f ns (i, a) (arg_dest (specs ! k)) = ns (arg_dest (specs ! k))" by (auto split: ns_val.splits)
      with Cons.IH [of "?f ns (i, a)"] Cons.prems p False show ?thesis by auto
    qed
  qed simp
  have "distinct (map fst (enumerate 0 specs))" by (simp add: enumerate_eq_zip)
  moreover have "k \<in> fst ` set (enumerate 0 specs)"
    by (rule image_eqI [of _ _ "(k, specs ! k)"]) (simp_all add: in_set_enumerate_eq assms(1))
  ultimately show ?thesis using gen [of "enumerate 0 specs" "ps_ns st"] by (simp add: finish_defaults_def new_def)
qed

lemma initial_ns_at:
  assumes "k < length specs" "distinct (map arg_dest specs)" "arg_act (specs ! k) \<noteq> ActHelp"
  shows "initial_ns specs (arg_dest (specs ! k)) = Some (arg_default (specs ! k))"
proof -
  let ?xs = "map (\<lambda>a. (arg_dest a, arg_default a)) (filter (\<lambda>a. arg_act a \<noteq> ActHelp) specs)"
  have "distinct (map fst ?xs)"
    using assms(2) by (simp add: comp_def distinct_map_filter)
  moreover have "(arg_dest (specs ! k), arg_default (specs ! k)) \<in> set ?xs"
    using assms(1,3) by (auto dest: nth_mem)
  ultimately show ?thesis by (simp add: initial_ns_def)
qed

lemma missing_required_seen:
  "\<not> missing_required specs st \<Longrightarrow> k < length specs \<Longrightarrow> arg_required (specs ! k) \<Longrightarrow> k \<in> set (ps_seen st)"
proof (rule ccontr)
  assume m: "\<not> missing_required specs st" and k: "k < length specs" "arg_required (specs ! k)"
    and n: "k \<notin> set (ps_seen st)"
  from k have "(k, specs ! k) \<in> set (enumerate 0 specs)" by (simp add: in_set_enumerate_eq)
  with k(2) n have "missing_required specs st" unfolding missing_required_def list_ex_iff by blast
  with m show False ..
qed

lemma parse_args_value:
  assumes p: "parse_args cwd decls argv = Inr ns"
    and dist: "distinct (map arg_dest (help_action # decls))"
    and k: "k < length decls" "arg_act (decls ! k) \<noteq> ActHelp"
    and vals: "\<And>vs v. (vs = [] \<Longrightarrow> arg_nargs (decls ! k) \<in> {NargsOpt, NargsZero}) \<Longrightarrow> arg_values cwd (decls ! k) vs = Inr v \<Longrightarrow> Q v"
    and dflt: "\<not> arg_required (decls ! k) \<Longrightarrow>
      Q (case arg_default (decls ! k) of NsStr d \<Rightarrow> NsStr (conv_value cwd (arg_conv (decls ! k)) d) | v \<Rightarrow> v)"
  shows "\<exists>v. ns (arg_dest (decls ! k)) = Some v \<and> Q v"
proof -
  let ?specs = "help_action # decls"
  let ?st0 = "\<lparr>ps_ns = initial_ns ?specs, ps_seen = [], ps_extras = []\<rparr>"
  let ?d = "arg_dest (?specs ! Suc k)"
  let ?P = "\<lambda>s. (Suc k \<in> set (ps_seen s) \<longrightarrow> (\<exists>v. ps_ns s ?d = Some v \<and> Q v)) \<and>
                 (Suc k \<notin> set (ps_seen s) \<longrightarrow> ps_ns s ?d = Some (arg_default (?specs ! Suc k)))"
  from p obtain ts st where t: "tokenise ?specs argv = Inr ts" and c: "consume cwd ?specs ts ?st0 = Inr st"
    and m: "\<not> missing_required ?specs st" and ns: "ns = finish_defaults cwd ?specs st"
    by (auto simp: parse_args_def Let_def split: sum.splits if_splits)
  have k': "Suc k < length ?specs" "arg_act (?specs ! Suc k) \<noteq> ActHelp" using k by simp_all
  have vals': "Q v" if "vs = [] \<Longrightarrow> arg_nargs (?specs ! Suc k) \<in> {NargsOpt, NargsZero}" "arg_values cwd (?specs ! Suc k) vs = Inr v"
    for vs v using that by (intro vals) auto
  have run: "?P s'" if "acts_ok ?specs acts" "run_actions cwd ?specs acts s = Inr s'" "?P s" for acts s s'
    by (rule run_actions_preserves [of ?specs cwd ?P, OF _ that]) (rule take_action_value [OF dist k'(1) vals'])
  have P0: "?P ?st0" using initial_ns_at [OF k'(1) dist k'(2)] by simp
  have P: "?P st" by (rule consume_preserves [of ?specs cwd ?P, OF run _ tokenise_ok [OF t] c P0]) auto
  show ?thesis
  proof (cases "Suc k \<in> set (ps_seen st)")
    case True
    with P finish_defaults_at [OF k'(1) dist, of cwd st] ns show ?thesis by (auto split: ns_val.splits)
  next
    case False
    with missing_required_seen [OF m k'(1)] have "\<not> arg_required (decls ! k)" by auto
    from dflt [OF this] P False finish_defaults_at [OF k'(1) dist, of cwd st] ns k' show ?thesis
      by (auto split: ns_val.splits)
  qed
qed

lemma parse_args_choice:
  assumes p: "parse_args cwd decls argv = Inr ns"
    and dist: "distinct (map arg_dest (help_action # decls))"
    and k: "k < length decls" "arg_act (decls ! k) \<noteq> ActHelp" "arg_required (decls ! k)"
      "arg_nargs (decls ! k) = NargsOne" "arg_choices (decls ! k) = Some cs"
  shows "\<exists>v\<in>set cs. ns (arg_dest (decls ! k)) = Some (NsStr v)"
proof -
  have "\<exists>v. ns (arg_dest (decls ! k)) = Some v \<and> (\<exists>y\<in>set cs. v = NsStr y)"
  proof (rule parse_args_value [OF p dist k(1,2)])
    fix vs v assume ne: "vs = [] \<Longrightarrow> arg_nargs (decls ! k) \<in> {NargsOpt, NargsZero}"
      and v: "arg_values cwd (decls ! k) vs = Inr v"
    from ne k(4) have "vs \<noteq> []" by auto
    from arg_values_choice [OF k(4,5) this v] show "\<exists>y\<in>set cs. v = NsStr y" .
  qed (simp add: k(3))
  then show ?thesis by auto
qed

subsection \<open>Reading particular command lines\<close>

text \<open>How the reader treats plain arguments, exact option strings and an option followed by its values.\<close>

lemma classify_plain: "plain_arg s \<Longrightarrow> classify_arg specs s = Inr (TArg s)"
  by (cases s) (auto simp: classify_arg_def plain_arg_def)

lemma classify_flag:
  "flag_index specs f = Some i \<Longrightarrow> take 1 f = ''-'' \<Longrightarrow> classify_arg specs f = Inr (TOpt i f False None)"
  by (cases f) (auto simp: classify_arg_def)

lemma tokenise_append:
  "''--'' \<notin> set xs \<Longrightarrow> tokenise specs (xs @ ys) =
     (case tokenise specs xs of Inl e \<Rightarrow> Inl e | Inr ts \<Rightarrow> (case tokenise specs ys of Inl e \<Rightarrow> Inl e | Inr us \<Rightarrow> Inr (ts @ us)))"
  by (induction xs) (auto split: sum.splits)

lemma tokenise_plain: "list_all plain_arg xs \<Longrightarrow> tokenise specs xs = Inr (map TArg xs)"
  by (induction xs) (auto simp: classify_plain plain_arg_def)

lemma takeWhile_targ: "takeWhile is_targ (map TArg vs @ ys) = map TArg vs @ takeWhile is_targ ys"
  by (induction vs) simp_all

lemma plain_not_sep: "plain_arg s \<Longrightarrow> s \<noteq> ''--''"
  by (auto simp: plain_arg_def)

lemma opt_consume_args:
  assumes "rest = [] \<or> \<not> is_targ (hd rest)" "nargs_take (arg_nargs (specs ! i)) (length vs) = Some (length vs)"
  shows "opt_consume specs i f False None (map TArg vs @ rest) = Inr ([(i, vs)], length vs, [])"
proof -
  have "takeWhile is_targ (map TArg vs @ rest) = map TArg vs"
    using assms(1) by (cases rest) (auto simp: takeWhile_targ)
  with assms(2) show ?thesis by (simp add: opt_consume_def comp_def)
qed

lemma consume_opt_args:
  assumes "rest = [] \<or> \<not> is_targ (hd rest)" "nargs_take (arg_nargs (specs ! i)) (length vs) = Some (length vs)"
  shows "consume cwd specs (TOpt i f False None # map TArg vs @ rest) st =
     (case take_action cwd specs i vs st of Inl e \<Rightarrow> Inl e | Inr st' \<Rightarrow> consume cwd specs rest st')"
  by (simp add: opt_consume_args [OF assms] split: sum.splits)

lemma consume_args: "consume cwd specs (map TArg xs) st = Inr (st\<lparr>ps_extras := ps_extras st @ xs\<rparr>)"
  by (induction xs arbitrary: st) simp_all

lemma conv_value_str [simp]: "map (conv_value cwd ConvStr) xs = xs"
  by (induction xs) (simp_all add: conv_value_def)

lemma check_choice_None: "arg_choices a = None \<Longrightarrow> list_all (check_choice a) xs"
  by (simp add: check_choice_def list_all_iff)

text \<open>Appending strings that start with an option: the tokens before them are read as
  without them, as long as no \<open>--\<close> comes first.\<close>

lemma option_tuples_not_sep: "TSep \<notin> set (option_tuples specs s)"
  by (auto simp: option_tuples_def Let_def split: prod.splits if_splits)

lemma classify_arg_not_sep: "classify_arg specs s = Inr t \<Longrightarrow> t \<noteq> TSep"
  using option_tuples_not_sep [of specs s]
  by (auto simp: classify_arg_def split: if_splits option.splits list.splits)

lemma tokenise_not_sep: "''--'' \<notin> set xs \<Longrightarrow> tokenise specs xs = Inr ts \<Longrightarrow> TSep \<notin> set ts"
proof (induction xs arbitrary: ts)
  case (Cons x xs)
  then show ?case by (auto split: sum.splits dest: classify_arg_not_sep)
qed simp

lemma takeWhile_targ_append:
  "us = [] \<or> \<not> is_targ (hd us) \<Longrightarrow> takeWhile is_targ (ts @ us) = takeWhile is_targ ts"
proof (induction ts)
  case Nil
  then show ?case by (cases us) auto
qed simp

lemma nargs_take_le: "nargs_take m k = Some n \<Longrightarrow> n \<le> k"
  by (auto simp: nargs_take_def split: arg_nargs.splits if_splits)

lemma opt_consume_le: "opt_consume specs i f eq x ts = Inr (acts, n, ex) \<Longrightarrow> n \<le> length ts"
  by (auto simp: opt_consume_def split: sum.splits prod.splits option.splits
      dest!: nargs_take_le intro: order_trans [OF _ length_takeWhile_le])

lemma opt_consume_append:
  assumes "us = [] \<or> \<not> is_targ (hd us)"
  shows "opt_consume specs i f eq x (ts @ us) = opt_consume specs i f eq x ts"
proof -
  have tw: "takeWhile is_targ (ts @ us) = takeWhile is_targ ts" by (rule takeWhile_targ_append [OF assms])
  have le: "n \<le> length ts" if "nargs_take m (length (takeWhile is_targ ts)) = Some n" for m n
    using nargs_take_le [OF that] length_takeWhile_le [of is_targ ts] by simp
  show ?thesis by (auto simp: opt_consume_def tw split: sum.splits prod.splits option.splits dest: le)
qed

lemma consume_append:
  "TSep \<notin> set ts \<Longrightarrow> us = [] \<or> \<not> is_targ (hd us) \<Longrightarrow>
     consume cwd specs (ts @ us) st = (case consume cwd specs ts st of Inl e \<Rightarrow> Inl e | Inr st' \<Rightarrow> consume cwd specs us st')"
proof (induction cwd specs ts st rule: consume.induct)
  case (5 cwd specs i f eq x ts st)
  have a: "opt_consume specs i f eq x (ts @ us) = opt_consume specs i f eq x ts"
    by (rule opt_consume_append [OF "5.prems"(2)])
  show ?case
  proof (cases "opt_consume specs i f eq x ts")
    case (Inr r)
    then obtain acts n ex where r: "opt_consume specs i f eq x ts = Inr (acts, n, ex)" by (metis prod_cases3)
    have d: "drop n (ts @ us) = drop n ts @ us" using opt_consume_le [OF r] by simp
    have ns: "TSep \<notin> set (drop n ts)" using "5.prems"(1) by (auto dest: in_set_dropD)
    show ?thesis using "5.IH" [OF r refl _ _ ns "5.prems"(2)] a r d
      by (auto split: sum.splits prod.splits)
  qed (simp add: a)
qed simp_all

subsection \<open>Absolute paths\<close>

text \<open>\<open>abspath\<close> of anything is absolute when the working directory is.\<close>

lemma normpath_abs: "take 1 q = ''/'' \<Longrightarrow> take 1 (normpath q) = ''/''"
  by (cases q) (auto simp: normpath_def initial_slashes_def Let_def)

lemma abspath_abs:
  assumes "take 1 cwd = ''/''"
  shows "take 1 (abspath cwd p) = ''/''"
proof -
  have "take 1 (if take 1 p = ''/'' then p else path_join cwd p) = ''/''"
    using path_join_abs_left [OF assms, of p] by simp
  then show ?thesis unfolding abspath_def by (rule normpath_abs)
qed

end
