(* ===== verification/Validators.thy ===== *)
theory Validators
  imports Wizard_Prelude
begin

text \<open>
  The validator chain of the wizard (\<open>tezos_baking.validators\<close>, imported by
  \<open>src/baking/src/tezos_baking/tezos_voting_wizard.py\<close> but not itself under
  \<open>src/\<close>, so modelled from the spec, section 4.2). A check is a value of the
  datatype \<open>vcheck\<close>; \<open>run_check\<close> runs one on a raw answer and returns the
  rejection reason (\<open>Inl\<close>) or the accepted, possibly normalised answer
  (\<open>Inr\<close>); \<open>run_validator\<close> runs a chain left to right and stops at the
  first rejection. The HTTP probe of \<open>reachable_url\<close> is a parameter
  \<open>probe url path\<close>, true when a request to the URL extended by the path succeeds.
\<close>

type_synonym reason = string
type_synonym url_probe = "string \<Rightarrow> string \<Rightarrow> bool"

subsection \<open>The protocol-hash shape\<close>

text \<open>
  \<^verbatim>\<open>P[123456789ABCDEFGHJKLMNPQRSTUVWXYZabcdefghijkmnopqrstuvwxyz]{50}\<close>, the
  pattern the wizard shows as help for a proposal hash: the letter \<open>P\<close> and fifty
  base-58 characters (no \<open>0\<close>, \<open>O\<close>, \<open>I\<close> or \<open>l\<close>).
\<close>

definition b58_alphabet :: string where
  "b58_alphabet = ''123456789ABCDEFGHJKLMNPQRSTUVWXYZabcdefghijkmnopqrstuvwxyz''"

definition is_b58_char :: "char \<Rightarrow> bool" where
  "is_b58_char c \<longleftrightarrow> c \<in> set b58_alphabet"

definition protocol_hash_length :: nat where
  "protocol_hash_length = 51"

definition is_protocol_hash :: "string \<Rightarrow> bool" where
  "is_protocol_hash s \<longleftrightarrow>
     (case s of [] \<Rightarrow> False
      | c # cs \<Rightarrow> c = CHR ''P'' \<and> length cs = 50 \<and> list_all is_b58_char cs)"

subsection \<open>Checks\<close>

datatype vcheck =
    RequiredField
  | EnumRange "string list"
  | ProtocolHash
  | ReachableUrl string
  | AnyOf vcheck vcheck

text \<open>
  \<open>enum_range\<close> accepts a listed literal as it is, and otherwise the 1-based display
  index of an option written in decimal, which it resolves to that option.
\<close>

fun resolve_index :: "string \<Rightarrow> string list \<Rightarrow> nat \<Rightarrow> string option" where
  "resolve_index s [] i = None"
| "resolve_index s (opt # opts) i = (if dec_string i = s then Some opt else resolve_index s opts (Suc i))"

definition enum_range :: "string list \<Rightarrow> string \<Rightarrow> reason + string" where
  "enum_range opts s =
     (if s \<in> set opts then Inr s
      else case resolve_index s opts 1 of
        Some v \<Rightarrow> Inr v
      | None \<Rightarrow> Inl (''Please choose one of the provided values: '' @ concat (map (\<lambda>x. x @ '' '') opts)))"

definition required_field :: "string \<Rightarrow> reason + string" where
  "required_field s = (if list_all is_space s then Inl ''Please provide an input.'' else Inr s)"

definition protocol_hash :: "string \<Rightarrow> reason + string" where
  "protocol_hash s = (if is_protocol_hash s then Inr s else Inl ''The input is not a valid protocol hash.'')"

definition reachable_url :: "url_probe \<Rightarrow> string \<Rightarrow> string \<Rightarrow> reason + string" where
  "reachable_url probe path s = (if probe s path then Inr s else Inl (''The URL '' @ s @ '' is unreachable.''))"

text \<open>
  \<open>any_of a b\<close> tries \<open>a\<close>, then \<open>b\<close>; only when both reject does it reject, with
  a message that joins both reasons.
\<close>

primrec run_check :: "url_probe \<Rightarrow> vcheck \<Rightarrow> string \<Rightarrow> reason + string" where
  "run_check probe RequiredField s = required_field s"
| "run_check probe (EnumRange opts) s = enum_range opts s"
| "run_check probe ProtocolHash s = protocol_hash s"
| "run_check probe (ReachableUrl path) s = reachable_url probe path s"
| "run_check probe (AnyOf a b) s =
     (case run_check probe a s of
        Inr v \<Rightarrow> Inr v
      | Inl ra \<Rightarrow> (case run_check probe b s of
                    Inr v \<Rightarrow> Inr v
                  | Inl rb \<Rightarrow> Inl (ra @ '' or '' @ rb)))"

fun run_validator :: "url_probe \<Rightarrow> vcheck list \<Rightarrow> string \<Rightarrow> reason + string" where
  "run_validator probe [] s = Inr s"
| "run_validator probe (v # vs) s =
     (case run_check probe v s of Inl r \<Rightarrow> Inl r | Inr s' \<Rightarrow> run_validator probe vs s')"

subsection \<open>Lemmas\<close>

lemma resolve_index_member: "resolve_index s opts i = Some v \<Longrightarrow> v \<in> set opts"
  by (induction s opts i rule: resolve_index.induct) (auto split: if_splits)

lemma resolve_index_Some_iff:
  "resolve_index s opts i = Some v \<longleftrightarrow> (\<exists>k < length opts. s = dec_string (i + k) \<and> v = opts ! k)"
proof (induction opts arbitrary: i)
  case Nil
  then show ?case by simp
next
  case (Cons opt opts)
  show ?case
  proof (cases "dec_string i = s")
    case True
    have "s = dec_string (i + k) \<longleftrightarrow> k = 0" for k
      using True by (auto simp: dec_string_inj)
    with True show ?thesis by auto
  next
    case False
    have "(\<exists>k < length (opt # opts). s = dec_string (i + k) \<and> v = (opt # opts) ! k) \<longleftrightarrow>
          (\<exists>k < length opts. s = dec_string (Suc i + k) \<and> v = opts ! k)" (is "?l \<longleftrightarrow> ?r")
    proof
      assume ?l
      then obtain k where k: "k < length (opt # opts)" "s = dec_string (i + k)" "v = (opt # opts) ! k"
        by blast
      with False obtain k' where "k = Suc k'" by (cases k) auto
      with k show ?r by auto
    next
      assume ?r
      then obtain k where "k < length opts" "s = dec_string (Suc i + k)" "v = opts ! k"
        by blast
      then show ?l by (intro exI [of _ "Suc k"]) simp
    qed
    with False Cons.IH show ?thesis by simp
  qed
qed

lemma resolve_index_None_iff:
  "resolve_index s opts i = None \<longleftrightarrow> \<not> (\<exists>k < length opts. s = dec_string (i + k))"
  by (metis (no_types, lifting) not_None_eq resolve_index_Some_iff)

lemma enum_range_Inr_member: "enum_range opts s = Inr v \<Longrightarrow> v \<in> set opts"
  by (auto simp: enum_range_def split: if_splits option.splits dest: resolve_index_member)

lemma required_field_Inr: "required_field s = Inr v \<longleftrightarrow> v = s \<and> (\<exists>c \<in> set s. \<not> is_space c)"
  by (auto simp: required_field_def list_all_iff)

lemma protocol_hash_Inr: "protocol_hash s = Inr v \<longleftrightarrow> v = s \<and> is_protocol_hash s"
  by (auto simp: protocol_hash_def)

lemma is_protocol_hash_length: "is_protocol_hash s \<Longrightarrow> length s = protocol_hash_length"
  by (auto simp: is_protocol_hash_def protocol_hash_length_def split: list.splits)

lemma is_protocol_hash_chars: "is_protocol_hash s \<Longrightarrow> list_all is_b58_char s"
  by (auto simp: is_protocol_hash_def is_b58_char_def b58_alphabet_def split: list.splits)

lemma run_validator_append:
  "run_validator probe (vs @ ws) s =
     (case run_validator probe vs s of Inl r \<Rightarrow> Inl r | Inr s' \<Rightarrow> run_validator probe ws s')"
  by (induction vs arbitrary: s) (auto split: sum.splits)

lemma run_validator_Inr_Cons:
  "run_validator probe (v # vs) s = Inr w \<longleftrightarrow>
     (\<exists>s'. run_check probe v s = Inr s' \<and> run_validator probe vs s' = Inr w)"
  by (auto split: sum.splits)

text \<open>The contracts of the checks, section 4.2 of the spec.\<close>

lemma enum_range_spec:
  "enum_range opts s = Inr v \<longleftrightarrow>
     (s \<in> set opts \<and> v = s) \<or>
     (s \<notin> set opts \<and> (\<exists>k < length opts. s = dec_string (Suc k) \<and> v = opts ! k))"
proof (cases "resolve_index s opts 1")
  case None
  moreover from None have "\<not> (\<exists>k < length opts. s = dec_string (1 + k))"
    using resolve_index_None_iff by blast
  ultimately show ?thesis
    by (auto simp: enum_range_def)
next
  case (Some w)
  moreover from Some have "\<exists>k < length opts. s = dec_string (1 + k) \<and> w = opts ! k"
    using resolve_index_Some_iff by blast
  ultimately show ?thesis
    by (auto simp: enum_range_def dec_string_inj)
qed

lemma protocol_hash_rejects:
  "isl (protocol_hash s) \<longleftrightarrow>
     length s \<noteq> 51 \<or> take 1 s \<noteq> ''P'' \<or> (\<exists>c \<in> set (drop 1 s). \<not> is_b58_char c)"
  by (cases s) (auto simp: protocol_hash_def is_protocol_hash_def list_all_iff)

lemma any_of_accepts:
  "isl (run_check probe (AnyOf a b) s) \<longleftrightarrow> isl (run_check probe a s) \<and> isl (run_check probe b s)"
  by (auto split: sum.splits)

lemma any_of_rejects:
  assumes "run_check probe (AnyOf a b) s = Inl r"
  shows "\<exists>ra rb. run_check probe a s = Inl ra \<and> run_check probe b s = Inl rb \<and>
           contains ra r \<and> contains rb r"
  using assms by (auto split: sum.splits)

end
