(* ===== verification/Client_Adapter.thy ===== *)
theory Client_Adapter
  imports Validators
begin

text \<open>
  The boundary between the wizard and the processes it starts
  (\<open>src/baking/src/tezos_baking/tezos_voting_wizard.py\<close>): the commands it
  issues through \<open>get_proc_output\<close> and \<open>proc_call\<close>, the
  \<open>CompletedProcess\<close> they return, and the pure functions that read that output:
  the voting period name (\<open>re.search(b'Current period: "(\\w+)"', info).group(1)\<close>,
  line 317), the proposal hashes (\<open>re.findall(protocol_hash_regex, info)\<close>, line 320),
  the failure classes of \<open>submit proposals\<close> (lines 348--389) and of
  \<open>submit ballot\<close> (lines 421--454), and the marker of
  \<open>wait_for_ledger_app\<close> (line 79).
\<close>

subsection \<open>Commands and their results\<close>

text \<open>
  One constructor per command line the wizard builds; the arguments are the parts it
  substitutes into the f-string (client options, alias, hash, ballot, directory,
  network).
\<close>

datatype cmd =
    ListConnectedLedgers string
  | Sleep1
  | SystemctlIsActive string
  | MkdirNetworkDir string
  | ShowVotingPeriod string
  | SubmitProposals string string string
  | SubmitBallot string string string string
  | RestartBakingService string

record proc_result =
  returncode :: int
  stdout :: string
  stderr :: string

subsection \<open>The voting period name\<close>

definition quote_char :: char where
  "quote_char = CHR 0x22"

definition period_marker :: string where
  "period_marker = ''Current period: '' @ [quote_char]"

text \<open>
  The pattern matched at the start of a string: the marker, a maximal non-empty run of
  \<open>\w\<close> characters, and a closing quote. Backtracking into a shorter run cannot help,
  since the character after a shorter run is a word character, not a quote.
\<close>

definition match_period :: "string \<Rightarrow> string option" where
  "match_period s =
     (if prefix period_marker s then
        (let rest = drop (length period_marker) s; w = takeWhile is_word_char rest
         in if w \<noteq> [] \<and> take 1 (dropWhile is_word_char rest) = [quote_char] then Some w else None)
      else None)"

text \<open>\<open>re.search\<close>: the leftmost position where the pattern matches.\<close>

fun search_period :: "string \<Rightarrow> string option" where
  "search_period [] = None"
| "search_period (c # cs) = (case match_period (c # cs) of Some w \<Rightarrow> Some w | None \<Rightarrow> search_period cs)"

subsection \<open>Proposal hashes in the status output\<close>

text \<open>
  \<open>re.findall\<close> with the fixed-length hash pattern: where a hash starts, it is
  taken and the scan resumes after it; elsewhere the scan moves one character on.
\<close>

function findall_hashes :: "string \<Rightarrow> string list" where
  "findall_hashes [] = []"
| "findall_hashes (c # cs) =
     (if is_protocol_hash (take protocol_hash_length (c # cs))
      then take protocol_hash_length (c # cs) # findall_hashes (drop protocol_hash_length (c # cs))
      else findall_hashes cs)"
  by pat_completeness auto
termination
  by (relation "measure length") (auto simp: protocol_hash_length_def)

subsection \<open>Failure classes\<close>

datatype proposal_failure =
    InvalidProposal
  | UnauthorizedProposal
  | NotInProposalPeriod
  | TooManyProposals
  | UnclassifiedProposalFailure

text \<open>
  The \<open>if\<close>/\<open>elif\<close> chain of \<open>process_proposal_period\<close>, in its order;
  \<^verbatim>\<open>[Ii]nvalid proposal\<close> is the two literals it stands for.
\<close>

definition classify_proposal_failure :: "string \<Rightarrow> proposal_failure" where
  "classify_proposal_failure err =
     (if contains ''Invalid proposal'' err \<or> contains ''invalid proposal'' err then InvalidProposal
      else if contains ''Unauthorized proposal'' err then UnauthorizedProposal
      else if contains ''Not in a proposal period'' err then NotInProposalPeriod
      else if contains ''Too many proposals'' err then TooManyProposals
      else UnclassifiedProposalFailure)"

text \<open>The two independent tests of \<open>process_voting_period\<close>.\<close>

definition ballot_unauthorized :: "string \<Rightarrow> bool" where
  "ballot_unauthorized err \<longleftrightarrow> contains ''Unauthorized ballot'' err"

definition ballot_wrong_period :: "string \<Rightarrow> bool" where
  "ballot_wrong_period err \<longleftrightarrow> contains ''Not in Exploration or Promotion period'' err"

definition ledger_app_found :: "string \<Rightarrow> string \<Rightarrow> bool" where
  "ledger_app_found app out \<longleftrightarrow> contains (''Found a Tezos '' @ app) out"

subsection \<open>Lemmas on the parsers\<close>

lemma quote_not_word [simp]: "\<not> is_word_char quote_char"
  by (simp add: quote_char_def is_word_char_def upper_letters_def lower_letters_def digit_chars_def)

lemma period_marker_nonempty [simp]: "period_marker \<noteq> []"
  by (simp add: period_marker_def)

lemma match_period_marker:
  assumes "w \<noteq> []" "list_all is_word_char w"
  shows "match_period (period_marker @ w @ quote_char # rest) = Some w"
proof -
  from assms(2) have "takeWhile is_word_char (w @ quote_char # rest) = w"
    "dropWhile is_word_char (w @ quote_char # rest) = quote_char # rest"
    by (simp_all add: list_all_iff takeWhile_append2 dropWhile_append2)
  with assms(1) show ?thesis by (simp add: match_period_def Let_def)
qed

lemma match_period_sound:
  assumes "match_period s = Some w"
  shows "w \<noteq> [] \<and> list_all is_word_char w \<and> (\<exists>rest. s = period_marker @ w @ quote_char # rest)"
proof -
  from assms have pre: "prefix period_marker s"
    by (simp add: match_period_def split: if_splits)
  then obtain t where s: "s = period_marker @ t" by (auto simp: prefix_def)
  let ?w = "takeWhile is_word_char t"
  from assms s have w: "w = ?w" "?w \<noteq> []" "take 1 (dropWhile is_word_char t) = [quote_char]"
    by (simp_all add: match_period_def Let_def split: if_splits)
  then obtain rest where "dropWhile is_word_char t = quote_char # rest"
    by (cases "dropWhile is_word_char t") auto
  then have "t = ?w @ quote_char # rest" by (metis takeWhile_dropWhile_id)
  with w s show ?thesis by (auto simp: list_all_iff dest: set_takeWhileD)
qed

lemma search_period_sound:
  "search_period s = Some w \<Longrightarrow>
     w \<noteq> [] \<and> list_all is_word_char w \<and> (\<exists>pre rest. s = pre @ period_marker @ w @ quote_char # rest)"
proof (induction s rule: search_period.induct)
  case 1
  then show ?case by simp
next
  case (2 c cs)
  show ?case
  proof (cases "match_period (c # cs)")
    case None
    with "2.prems" have "search_period cs = Some w" by simp
    from "2.IH" [OF None this] show ?thesis by (metis append_Cons)
  next
    case (Some v)
    with "2.prems" have "match_period (c # cs) = Some w" by simp
    from match_period_sound [OF this] show ?thesis by (metis append_Nil)
  qed
qed

lemma findall_hashes_hash:
  assumes "is_protocol_hash h"
  shows "findall_hashes (h @ rest) = h # findall_hashes rest"
proof -
  from assms have len: "length h = protocol_hash_length" by (rule is_protocol_hash_length)
  from assms obtain c cs where h: "h = c # cs" by (cases h) (auto simp: is_protocol_hash_def)
  with len have l: "protocol_hash_length = Suc (length cs)" by simp
  from assms h show ?thesis by (simp add: l)
qed

lemma findall_hashes_skip:
  assumes "\<forall>c \<in> set sep. \<not> is_b58_char c"
  shows "findall_hashes (sep @ rest) = findall_hashes rest"
  using assms
proof (induction sep)
  case Nil
  then show ?case by simp
next
  case (Cons c sep)
  then have "\<not> is_protocol_hash (take protocol_hash_length (c # sep @ rest))"
    by (auto simp: is_protocol_hash_def is_b58_char_def b58_alphabet_def protocol_hash_length_def)
  with Cons show ?case by simp
qed

text \<open>C9: the period name the wizard reads back from a status line
  \<open>Current period: "<name>"\<close> is that name.\<close>

theorem search_period_roundtrip:
  assumes "w \<noteq> []" "list_all is_word_char w"
  shows "search_period (period_marker @ w @ quote_char # rest) = Some w"
proof -
  obtain c cs where "period_marker @ w @ quote_char # rest = c # cs"
    by (cases "period_marker @ w @ quote_char # rest") auto
  with match_period_marker [OF assms, of rest] show ?thesis by simp
qed

lemma findall_hashes_well_formed: "list_all is_protocol_hash (findall_hashes s)"
  by (induction s rule: findall_hashes.induct) simp_all

text \<open>C11: the scanner recovers exactly the hashes of an output that lists well-formed
  hashes, each followed by a separator of characters outside the base-58 alphabet.\<close>

theorem findall_hashes_roundtrip:
  assumes "list_all is_protocol_hash hs" "\<forall>c \<in> set sep. \<not> is_b58_char c"
  shows "findall_hashes (concat (map (\<lambda>h. h @ sep) hs)) = hs"
  using assms(1)
proof (induction hs)
  case Nil
  then show ?case by simp
next
  case (Cons h hs)
  then show ?case
    by (simp add: findall_hashes_hash findall_hashes_skip [OF assms(2)])
qed

end
