(* ===== verification/Wizard_Engine.thy ===== *)
theory Wizard_Engine
  imports Client_Adapter
begin

text \<open>
  The wizard engine: the state one wizard run keeps, the environment it runs in, and
  the operations every controller is built from. The engine itself
  (\<open>tezos_baking.wizard_structure\<close>: \<open>Step\<close>, \<open>Setup.query_step\<close>) is
  not under \<open>src/\<close> and is modelled from the spec (sections 3, 4.1 and 7); the
  operations on processes follow \<open>get_proc_output\<close> and \<open>proc_call\<close> as
  \<open>src/baking/src/tezos_baking/tezos_voting_wizard.py\<close> uses them.

  \<^item> \<open>wstate\<close> is the run's state: the configuration store \<open>self.config\<close>
    (a map from keys to values), the lines of standard input not yet read, a clock
    that counts external calls, the commands issued so far in order, and the reports
    shown to the operator in order.
  \<^item> \<open>wenv\<close> is what the run cannot change: the external client (the result of a
    command at a given clock tick, so that a poll loop can see the world change), the
    URL probe, the names of the known networks, and the two helpers of
    \<open>wizard_structure.Setup\<close> the voting code calls, \<open>get_tezos_client_options\<close>
    and \<open>check_ledger_use\<close>, as functions of the configuration.
  \<^item> A fallible operation returns \<open>'a outcome\<close>: the value (\<open>Inr\<close>) or the
    exception (\<open>Inl\<close>), together with the state reached, since what was printed and
    run before an exception stays done.
\<close>

subsection \<open>Errors and reports\<close>

datatype werror =
    Cancelled
  | EndOfInput
  | ClientError string
  | ProcFailed cmd
  | KeyMissing string
  | ValueTypeError string
  | NoPeriodMatch
  | IndexOutOfRange
  | UnpackNone string

datatype event =
    HelpShown string
  | ValidationFailed string reason
  | LedgerWaiting string
  | LedgerPrompt
  | VotingInfoUnavailable
  | PeriodAnnounced string
  | ProposalReport proposal_failure
  | CheckBakerData
  | CurrentProposal string
  | BallotUnauthorized
  | BallotPeriodOver string
  | ClientFailure
  | VotingImpossible
  | NoLocalBakingService string
  | RestartingBaking string
  | ThankYou
  | DefaultDataDir string

subsection \<open>State and environment\<close>

record wstate =
  config :: config
  stdin :: "string list"
  tick :: nat
  calls :: "cmd list"
  events :: "event list"

record wenv =
  client :: "nat \<Rightarrow> cmd \<Rightarrow> proc_result"
  probe :: url_probe
  networks :: "string list"
  client_options :: "config \<Rightarrow> string"
  uses_ledger :: "config \<Rightarrow> bool"

type_synonym 'a outcome = "(werror + 'a) \<times> wstate"

definition then_w :: "'a outcome \<Rightarrow> ('a \<Rightarrow> wstate \<Rightarrow> 'b outcome) \<Rightarrow> 'b outcome" where
  "then_w r f = (case r of (Inl e, s) \<Rightarrow> (Inl e, s) | (Inr a, s) \<Rightarrow> f a s)"

definition log_event :: "event \<Rightarrow> wstate \<Rightarrow> wstate" where
  "log_event ev s = s\<lparr>events := events s @ [ev]\<rparr>"

definition set_config :: "string \<Rightarrow> cval \<Rightarrow> wstate \<Rightarrow> wstate" where
  "set_config k v s = s\<lparr>config := (config s)(k \<mapsto> v)\<rparr>"

text \<open>\<open>self.config[k]\<close>: a missing key raises \<open>KeyError\<close>.\<close>

definition get_str :: "string \<Rightarrow> wstate \<Rightarrow> string outcome" where
  "get_str k s = (case config s k of
      None \<Rightarrow> (Inl (KeyMissing k), s)
    | Some (CStr v) \<Rightarrow> (Inr v, s)
    | Some _ \<Rightarrow> (Inl (ValueTypeError k), s))"

definition get_list :: "string \<Rightarrow> wstate \<Rightarrow> string list outcome" where
  "get_list k s = (case config s k of
      None \<Rightarrow> (Inl (KeyMissing k), s)
    | Some (CList v) \<Rightarrow> (Inr v, s)
    | Some _ \<Rightarrow> (Inl (ValueTypeError k), s))"

text \<open>\<open>self.config.get(k, False)\<close> on a boolean entry.\<close>

definition get_flag :: "string \<Rightarrow> wstate \<Rightarrow> bool" where
  "get_flag k s = (config s k = Some (CBool True))"

subsection \<open>External processes\<close>

definition run_cmd :: "wenv \<Rightarrow> cmd \<Rightarrow> wstate \<Rightarrow> proc_result \<times> wstate" where
  "run_cmd E c s = (client E (tick s) c, s\<lparr>tick := Suc (tick s), calls := calls s @ [c]\<rparr>)"

text \<open>\<open>proc_call\<close>: a non-zero exit status raises.\<close>

definition proc_call :: "wenv \<Rightarrow> cmd \<Rightarrow> wstate \<Rightarrow> unit outcome" where
  "proc_call E c s = (case run_cmd E c s of
      (r, s') \<Rightarrow> if returncode r = 0 then (Inr (), s') else (Inl (ProcFailed c), s'))"

subsection \<open>Steps and the query loop\<close>

record step =
  step_id :: string
  step_prompt :: string
  step_default :: "string option"
  step_help :: string
  step_options :: "string list option"
  step_validator :: "vcheck list"

text \<open>
  One answer per line of input. \<open>exit\<close> cancels the run, \<open>help\<close> or \<open>?\<close>
  shows the help and reads again, an empty line stands for the default when the step has
  one, and a rejected answer is reported and read again, with no limit. The end of the
  input raises \<open>EOFError\<close>.
\<close>

fun answer_loop ::
  "url_probe \<Rightarrow> step \<Rightarrow> string list \<Rightarrow> event list \<Rightarrow> (werror + string) \<times> string list \<times> event list"
where
  "answer_loop pr st [] evs = (Inl EndOfInput, [], evs)"
| "answer_loop pr st (l # ls) evs =
     (if lower l = ''exit'' then (Inl Cancelled, ls, evs)
      else if lower l = ''help'' \<or> l = ''?'' then answer_loop pr st ls (evs @ [HelpShown (step_id st)])
      else (case run_validator pr (step_validator st)
                   (if l = [] then (case step_default st of None \<Rightarrow> [] | Some d \<Rightarrow> d) else l) of
              Inl r \<Rightarrow> answer_loop pr st ls (evs @ [ValidationFailed (step_id st) r])
            | Inr v \<Rightarrow> (Inr v, ls, evs)))"

definition query_step :: "wenv \<Rightarrow> step \<Rightarrow> wstate \<Rightarrow> string outcome" where
  "query_step E st s = (case answer_loop (probe E) st (stdin s) (events s) of
      (Inl e, rest, evs) \<Rightarrow> (Inl e, s\<lparr>stdin := rest, events := evs\<rparr>)
    | (Inr v, rest, evs) \<Rightarrow>
        (Inr v, s\<lparr>stdin := rest, events := evs, config := (config s)(step_id st \<mapsto> CStr v)\<rparr>))"

subsection \<open>Lemmas on sequencing and on the state\<close>

lemma then_w_Inl [simp]: "then_w (Inl e, s) f = (Inl e, s)"
  by (simp add: then_w_def)

lemma then_w_Inr [simp]: "then_w (Inr a, s) f = f a s"
  by (simp add: then_w_def)

lemma then_w_cong [fundef_cong]:
  "r = r' \<Longrightarrow> (\<And>a s. r' = (Inr a, s) \<Longrightarrow> f a s = f' a s) \<Longrightarrow> then_w r f = then_w r' f'"
  by (cases r') (auto simp: then_w_def split: sum.splits)

lemma then_w_Inr_iff:
  "then_w r f = (Inr b, s') \<longleftrightarrow> (\<exists>a s. r = (Inr a, s) \<and> f a s = (Inr b, s'))"
  by (cases r) (auto simp: then_w_def split: sum.splits)

lemma then_w_Inl_iff:
  "then_w r f = (Inl e, s') \<longleftrightarrow> r = (Inl e, s') \<or> (\<exists>a s. r = (Inr a, s) \<and> f a s = (Inl e, s'))"
  by (cases r) (auto simp: then_w_def split: sum.splits)

lemma log_event_fields [frame_simps]:
  "config (log_event ev s) = config s" "stdin (log_event ev s) = stdin s"
  "tick (log_event ev s) = tick s" "calls (log_event ev s) = calls s"
  "events (log_event ev s) = events s @ [ev]"
  by (simp_all add: log_event_def)

lemma set_config_fields [frame_simps]:
  "config (set_config k v s) = (config s)(k \<mapsto> v)" "stdin (set_config k v s) = stdin s"
  "tick (set_config k v s) = tick s" "calls (set_config k v s) = calls s"
  "events (set_config k v s) = events s"
  by (simp_all add: set_config_def)

lemma run_cmd_fields [frame_simps]:
  "fst (run_cmd E c s) = client E (tick s) c"
  "config (snd (run_cmd E c s)) = config s" "stdin (snd (run_cmd E c s)) = stdin s"
  "tick (snd (run_cmd E c s)) = Suc (tick s)" "calls (snd (run_cmd E c s)) = calls s @ [c]"
  "events (snd (run_cmd E c s)) = events s"
  by (simp_all add: run_cmd_def)

lemma get_str_state: "get_str k s = (r, s') \<Longrightarrow> s' = s"
  by (auto simp: get_str_def split: option.splits cval.splits)

lemma get_list_state: "get_list k s = (r, s') \<Longrightarrow> s' = s"
  by (auto simp: get_list_def split: option.splits cval.splits)

lemma get_str_Inr [simp]: "config s k = Some (CStr v) \<Longrightarrow> get_str k s = (Inr v, s)"
  by (simp add: get_str_def)

lemma get_list_Inr [simp]: "config s k = Some (CList v) \<Longrightarrow> get_list k s = (Inr v, s)"
  by (simp add: get_list_def)

lemma proc_call_state:
  "proc_call E c s = (r, s') \<Longrightarrow> s' = snd (run_cmd E c s)"
  by (auto simp: proc_call_def run_cmd_def split: if_splits)

subsection \<open>The query loop\<close>

lemma answer_loop_length:
  "answer_loop pr st ls evs = (r, rest, evs') \<Longrightarrow>
     length rest \<le> length ls \<and> (\<forall>v. r = Inr v \<longrightarrow> length rest < length ls)"
  by (induction pr st ls evs rule: answer_loop.induct)
    (fastforce split: if_splits sum.splits)+

lemma answer_loop_valid:
  "answer_loop pr st ls evs = (Inr v, rest, evs') \<Longrightarrow> \<exists>a. run_validator pr (step_validator st) a = Inr v"
  by (induction pr st ls evs rule: answer_loop.induct) (auto split: if_splits sum.splits)

lemma answer_loop_events:
  "answer_loop pr st ls evs = (r, rest, evs') \<Longrightarrow> prefix evs evs'"
  by (induction pr st ls evs rule: answer_loop.induct)
    (auto split: if_splits sum.splits dest: append_prefixD)

lemma query_step_frame [frame_simps]:
  "tick (snd (query_step E st s)) = tick s" "calls (snd (query_step E st s)) = calls s"
  by (simp_all add: query_step_def split: prod.splits sum.splits)

lemma query_step_frame_eq: "query_step E st s = (r, s') \<Longrightarrow> calls s' = calls s \<and> tick s' = tick s"
  using query_step_frame [of E st s] by (metis snd_conv)

lemma query_step_stdin_le: "query_step E st s = (r, s') \<Longrightarrow> length (stdin s') \<le> length (stdin s)"
  by (auto simp: query_step_def split: prod.splits sum.splits dest: answer_loop_length)

lemma query_step_Inl_config: "query_step E st s = (Inl e, s') \<Longrightarrow> config s' = config s"
  by (auto simp: query_step_def split: prod.splits sum.splits)

lemma query_step_Inr:
  assumes "query_step E st s = (Inr v, s')"
  shows "config s' = (config s)(step_id st \<mapsto> CStr v) \<and> length (stdin s') < length (stdin s) \<and>
         (\<exists>a. run_validator (probe E) (step_validator st) a = Inr v)"
  using assms
  by (auto simp: query_step_def split: prod.splits sum.splits dest: answer_loop_length answer_loop_valid)

lemma query_step_Inr_stdin: "query_step E st s = (Inr v, s') \<Longrightarrow> length (stdin s') < length (stdin s)"
  using query_step_Inr by blast


text \<open>Sequencing and the reads of the store, for proofs that follow a state through a
  chain of steps.\<close>

lemma then_w_trans:
  assumes "then_w m f = (r, s')"
    and "\<And>x t. m = (x, t) \<Longrightarrow> R s t"
    and "\<And>a t r' t'. m = (Inr a, t) \<Longrightarrow> f a t = (r', t') \<Longrightarrow> R t t'"
    and "\<And>a b c. R a b \<Longrightarrow> R b c \<Longrightarrow> R a c"
  shows "R s s'"
  using assms by (cases m) (auto simp: then_w_def split: sum.splits)

lemma then_w_get_str:
  "then_w (get_str k s) f = (case config s k of
      None \<Rightarrow> (Inl (KeyMissing k), s)
    | Some (CStr v) \<Rightarrow> f v s
    | Some _ \<Rightarrow> (Inl (ValueTypeError k), s))"
  by (auto simp: get_str_def split: option.splits cval.splits)

end
