(* ===== verification/Voting_Controller.thy ===== *)
theory Voting_Controller
  imports Wizard_Engine
begin

text \<open>
  The voting controller of \<open>src/baking/src/tezos_baking/tezos_voting_wizard.py\<close>:
  its option tables, its steps, \<open>wait_for_ledger_app\<close>, and the methods of its
  \<open>Setup\<close> class that read the voting period and submit a proposal or a ballot,
  in the order of the file. Each method is a function from the run's state to an
  \<open>outcome\<close>; a method that calls itself (\<open>process_proposal_period\<close>) is a
  \<^theory_text>\<open>function\<close> whose termination rests on the input it consumes, and the
  ledger poll, which may wait for ever, is a \<^theory_text>\<open>partial_function\<close> in the
  option monad.
\<close>

subsection \<open>Option tables (lines 24--36)\<close>

definition ballot_outcomes :: "(string \<times> string) list" where
  "ballot_outcomes =
     [(''yay'', ''Vote for accepting the proposal''),
      (''nay'', ''Vote for rejecting the proposal''),
      (''pass'', ''Submit a vote not influencing the result but contributing to quorum'')]"

definition public_nodes :: "(string \<times> string) list" where
  "public_nodes =
     [(''https://rpc.tzbeta.net'', ''by Tezos Foundation''),
      (''https://mainnet.api.tez.ie'', ''by ECAD Labs''),
      (''https://mainnet.smartpy.io'', ''by SmartPy''),
      (''https://teznode.letzbake.com'', ''by LetzBake!''),
      (''https://mainnet-tezos.giganode.io'', ''by GigaNode'')]"

subsection \<open>Waiting for a ledger app (lines 70--85)\<close>

text \<open>
  \<open>output\<close> starts empty; each round lists the connected ledgers, sleeps a second
  and tests the listing for \<open>Found a Tezos <app>\<close>. There is no time-out: if the
  marker never appears the loop does not return, which is the value \<open>None\<close>.
\<close>

partial_function (option) wait_ledger_loop ::
  "wenv \<Rightarrow> string \<Rightarrow> string \<Rightarrow> string \<Rightarrow> wstate \<Rightarrow> unit outcome option"
where
  "wait_ledger_loop E app dir output s =
     (if ledger_app_found app output then Some (Inr (), s)
      else (case run_cmd E (ListConnectedLedgers dir) s of
              (r, s1) \<Rightarrow> (case proc_call E Sleep1 s1 of
                           (Inl e, s2) \<Rightarrow> Some (Inl e, s2)
                         | (Inr u, s2) \<Rightarrow> wait_ledger_loop E app dir (stdout r) s2)))"

definition wait_for_ledger_app :: "wenv \<Rightarrow> string \<Rightarrow> string \<Rightarrow> wstate \<Rightarrow> unit outcome option" where
  "wait_for_ledger_app E app dir s = wait_ledger_loop E app dir [] (log_event (LedgerWaiting app) s)"

subsection \<open>Steps (lines 90--186)\<close>

definition new_proposal_query :: step where
  "new_proposal_query =
     \<lparr>step_id = ''new_proposal_hash'',
      step_prompt = ''Provide the hash for your newly submitted proposal.'',
      step_default = None,
      step_help = ''The format is 'P[123456789ABCDEFGHJKLMNPQRSTUVWXYZabcdefghijkmnopqrstuvwxyz]{50}'' @ apostrophe,
      step_options = None,
      step_validator = [RequiredField, ProtocolHash]\<rparr>"

definition new_hash_option :: string where
  "new_hash_option = ''Specify new proposal hash''"

definition get_proposal_period_hash :: "string list \<Rightarrow> step" where
  "get_proposal_period_hash hashes =
     \<lparr>step_id = ''chosen_hash'',
      step_prompt = ''Select a proposal hash.'' @ newline @
        ''You can choose one of the suggested hashes or provide your own:'',
      step_default = None,
      step_help = ''You can submit one proposal at a time.'' @ newline @
        apostrophe @ ''Specify new proposal hash' will ask a protocol hash from you. '',
      step_options = Some (hashes @ [new_hash_option]),
      step_validator = [RequiredField, EnumRange (hashes @ [new_hash_option])]\<rparr>"

definition ballot_outcome_query :: step where
  "ballot_outcome_query =
     \<lparr>step_id = ''ballot_outcome'',
      step_prompt = ''Choose the outcome for your ballot.'',
      step_default = None,
      step_help = apostrophe @ ''yay' is for supporting the proposal, 'nay' is for rejecting the proposal,'' @
        newline @ apostrophe @ ''pass' is used to not influence a vote but still contribute to reaching a quorum.'',
      step_options = Some (map fst ballot_outcomes),
      step_validator = [RequiredField, EnumRange (map fst ballot_outcomes)]\<rparr>"

definition node_rpc_url_path :: string where
  "node_rpc_url_path = ''chains/main/blocks/head/header''"

text \<open>The public nodes are offered on mainnet only, and only those that answer.\<close>

definition relevant_nodes :: "wenv \<Rightarrow> string \<Rightarrow> (string \<times> string) list" where
  "relevant_nodes E network =
     filter (\<lambda>(url, provider). network = ''mainnet'' \<and> probe E url node_rpc_url_path) public_nodes"

definition get_node_rpc_endpoint_query :: "wenv \<Rightarrow> string \<Rightarrow> string option \<Rightarrow> step" where
  "get_node_rpc_endpoint_query E network dflt =
     (let nodes = relevant_nodes E network in
      \<lparr>step_id = ''node_rpc_endpoint'',
       step_prompt = (if nodes = [] then ''Provide the node's RPC address.''
                      else ''Choose one of the public nodes or provide the node's RPC address.''),
       step_default = (if nodes \<noteq> [] \<and> dflt = None then Some ''1'' else dflt),
       step_help = ''The node's RPC address will be used by octez-client to vote. If you have baking set up'' @
         newline @ ''through systemd services, the address is usually 'http://localhost:8732' by default.'',
       step_options = Some (map fst nodes),
       step_validator = [RequiredField, AnyOf (EnumRange (map fst nodes)) (ReachableUrl node_rpc_url_path)]\<rparr>)"

definition baker_alias_query :: step where
  "baker_alias_query =
     \<lparr>step_id = ''baker_alias'',
      step_prompt = ''Provide the baker's alias.'',
      step_default = None,
      step_help = ''The baker's alias will be used by octez-client to vote. If you have baking set up'' @
        newline @ ''through systemd services, the address is usually 'baker' by default.'',
      step_options = None,
      step_validator = [RequiredField]\<rparr>"

definition get_key_mode_query :: "string list \<Rightarrow> step" where
  "get_key_mode_query modes =
     \<lparr>step_id = ''key_import_mode'',
      step_prompt = ''How do you want to import the voter key?'',
      step_default = None,
      step_help = ''Tezos Voting Wizard will use the 'baker' alias for the key'' @ newline @
        ''that will be used for voting. You will only need to import the key'' @ newline @
        ''once unless you'll want to change the key.'',
      step_options = Some modes,
      step_validator = [EnumRange modes]\<rparr>"

subsection \<open>The baking service and the network (lines 190--202, 294--300)\<close>

text \<open>The bare \<open>except\<close> turns a failed \<open>systemctl is-active\<close> into \<open>False\<close>.\<close>

definition check_baking_service :: "wenv \<Rightarrow> wstate \<Rightarrow> unit outcome" where
  "check_baking_service E s =
     then_w (get_str ''network'' s) (\<lambda>net s1.
       (case proc_call E (SystemctlIsActive net) s1 of
          (Inr u, s2) \<Rightarrow> (Inr (), set_config ''is_local_baking_setup'' (CBool True) s2)
        | (Inl e, s2) \<Rightarrow>
            (Inr (), set_config ''is_local_baking_setup'' (CBool False)
                       (log_event (NoLocalBakingService net) s2))))"

definition get_network :: "wenv \<Rightarrow> string \<Rightarrow> wstate \<Rightarrow> wstate" where
  "get_network E arg s =
     (if arg \<in> set (networks E) then set_config ''network'' (CStr arg) s
      else set_config ''network'' (CStr (''custom@'' @ arg)) s)"

subsection \<open>The voting period (lines 302--321)\<close>

definition fill_voting_period_info :: "wenv \<Rightarrow> wstate \<Rightarrow> unit outcome" where
  "fill_voting_period_info E s =
     then_w (get_str ''tezos_client_options'' s) (\<lambda>opts s1.
       (case run_cmd E (ShowVotingPeriod opts) s1 of
          (r, s2) \<Rightarrow>
            if returncode r \<noteq> 0 then (Inl Cancelled, log_event VotingInfoUnavailable s2)
            else (case search_period (stdout r) of
                    None \<Rightarrow> (Inl NoPeriodMatch, s2)
                  | Some phase \<Rightarrow>
                      (Inr (), set_config ''proposal_hashes'' (CList (findall_hashes (stdout r)))
                                 (set_config ''amendment_phase'' (CStr phase) s2)))))"

subsection \<open>The proposal period (lines 323--391)\<close>

text \<open>Lines 325--330: the hash to submit, asked for anew when the sentinel is chosen.\<close>

definition choose_proposal_hash :: "wenv \<Rightarrow> wstate \<Rightarrow> string outcome" where
  "choose_proposal_hash E s =
     then_w (get_list ''proposal_hashes'' s) (\<lambda>hashes s1.
     then_w (query_step E (get_proposal_period_hash hashes) s1) (\<lambda>_ s2.
     then_w (get_str ''chosen_hash'' s2) (\<lambda>chosen s3.
       if chosen = new_hash_option
       then then_w (query_step E new_proposal_query s3) (\<lambda>_ s4. get_str ''new_proposal_hash'' s4)
       else (Inr chosen, s3))))"

text \<open>Lines 332--343: the ledger notice and the submission.\<close>

definition submit_proposal :: "wenv \<Rightarrow> string \<Rightarrow> wstate \<Rightarrow> proc_result outcome" where
  "submit_proposal E hash s =
     (let s1 = (if uses_ledger E (config s) then log_event LedgerPrompt s else s) in
      then_w (get_str ''tezos_client_options'' s1) (\<lambda>opts s2.
      then_w (get_str ''baker_alias'' s2) (\<lambda>alias s3.
        (case run_cmd E (SubmitProposals opts alias hash) s3 of (r, s4) \<Rightarrow> (Inr r, s4)))))"

text \<open>
  Lines 345--391: an invalid hash starts the period over; the three other known
  failures are reported and end the method; anything else raises \<open>OSError\<close> with
  the client's error output.
\<close>

function process_proposal_period :: "wenv \<Rightarrow> wstate \<Rightarrow> unit outcome" where
  "process_proposal_period E s =
     then_w (choose_proposal_hash E s) (\<lambda>hash s1.
     then_w (submit_proposal E hash s1) (\<lambda>r s2.
       if returncode r = 0 then (Inr (), s2)
       else (case classify_proposal_failure (stderr r) of
               InvalidProposal \<Rightarrow> process_proposal_period E (log_event (ProposalReport InvalidProposal) s2)
             | UnclassifiedProposalFailure \<Rightarrow> (Inl (ClientError (stderr r)), log_event ClientFailure s2)
             | f \<Rightarrow> (Inr (), log_event CheckBakerData (log_event (ProposalReport f) s2)))))"
  by pat_completeness auto

subsection \<open>The exploration and promotion periods (lines 393--454)\<close>

text \<open>
  Lines 416--454. The two tests are separate \<open>if\<close>s, and the \<open>else\<close> that
  raises belongs to the second: an error output that says \<open>Unauthorized ballot\<close>
  without the period message is reported and then raised as well.
\<close>

definition ballot_failure :: "string \<Rightarrow> wstate \<Rightarrow> unit outcome" where
  "ballot_failure err s =
     (let s1 = (if ballot_unauthorized err
                then log_event CheckBakerData (log_event BallotUnauthorized s) else s) in
      if ballot_wrong_period err
      then then_w (get_str ''amendment_phase'' s1) (\<lambda>phase s2. (Inr (), log_event (BallotPeriodOver phase) s2))
      else (Inl (ClientError err), log_event ClientFailure s1))"

text \<open>\<open>self.config["proposal_hashes"][0]\<close> raises \<open>IndexError\<close> on an empty list.\<close>

definition first_hash :: "wstate \<Rightarrow> string outcome" where
  "first_hash s = then_w (get_list ''proposal_hashes'' s) (\<lambda>hashes s1.
     (case hashes of [] \<Rightarrow> (Inl IndexOutOfRange, s1) | h # _ \<Rightarrow> (Inr h, s1)))"

definition process_voting_period :: "wenv \<Rightarrow> wstate \<Rightarrow> unit outcome" where
  "process_voting_period E s =
     then_w (first_hash s) (\<lambda>h s1.
     then_w (query_step E ballot_outcome_query (log_event (CurrentProposal h) s1)) (\<lambda>_ s2.
       (let s3 = (if uses_ledger E (config s2) then log_event LedgerPrompt s2 else s2) in
        then_w (get_str ''tezos_client_options'' s3) (\<lambda>opts s4.
        then_w (get_str ''baker_alias'' s4) (\<lambda>alias s5.
        then_w (first_hash s5) (\<lambda>h' s6.
        then_w (get_str ''ballot_outcome'' s6) (\<lambda>outcome s7.
          (case run_cmd E (SubmitBallot opts alias h' outcome) s7 of
             (r, s8) \<Rightarrow> if returncode r \<noteq> 0 then ballot_failure (stderr r) s8 else (Inr (), s8)))))))))"

subsection \<open>The run (lines 456--504) and the exit status (lines 507--537)\<close>

text \<open>Lines 473--492: the sub-workflow chosen by the period name.\<close>

definition dispatch_period :: "wenv \<Rightarrow> wstate \<Rightarrow> unit outcome" where
  "dispatch_period E s =
     then_w (get_str ''amendment_phase'' s) (\<lambda>phase s1.
       (let s2 = log_event (PeriodAnnounced phase) s1 in
        if phase = ''proposal'' then process_proposal_period E s2
        else if phase \<in> {''exploration'', ''promotion''} then process_voting_period E s2
        else (Inr (), log_event VotingImpossible s2)))"

text \<open>Sequencing of steps that may not return.\<close>

definition then_o :: "'a outcome option \<Rightarrow> ('a \<Rightarrow> wstate \<Rightarrow> 'b outcome option) \<Rightarrow> 'b outcome option" where
  "then_o r f = (case r of None \<Rightarrow> None | Some (Inl e, s) \<Rightarrow> Some (Inl e, s) | Some (Inr a, s) \<Rightarrow> f a s)"

definition ledger_wallet_wait :: "wenv \<Rightarrow> wstate \<Rightarrow> unit outcome option" where
  "ledger_wallet_wait E s =
     (if uses_ledger E (config s)
      then (case get_str ''client_data_dir'' s of
              (Inl e, s1) \<Rightarrow> Some (Inl e, s1)
            | (Inr dir, s1) \<Rightarrow> wait_for_ledger_app E ''Wallet'' dir s1)
      else Some (Inr (), s))"

text \<open>Lines 494--500: back to the Baking app and a restart of the local baker.\<close>

definition restart_local_baker :: "wenv \<Rightarrow> wstate \<Rightarrow> unit outcome option" where
  "restart_local_baker E s =
     (if get_flag ''is_local_baking_setup'' s \<and> uses_ledger E (config s)
      then (case get_str ''client_data_dir'' s of
              (Inl e, s1) \<Rightarrow> Some (Inl e, s1)
            | (Inr dir, s1) \<Rightarrow>
                then_o (wait_for_ledger_app E ''Baking'' dir s1) (\<lambda>_ s2.
                  Some (then_w (get_str ''network'' s2) (\<lambda>net s3.
                    proc_call E (RestartBakingService net) (log_event (RestartingBaking net) s3)))))
      else Some (Inr (), s))"

text \<open>
  \<open>run_voting\<close> after \<open>get_network\<close> and \<open>collect_baking_info\<close> (line 464 on):
  the client options, the Wallet app, the period, the sub-workflow, the restart, and
  the closing message.
\<close>

definition vote :: "wenv \<Rightarrow> wstate \<Rightarrow> unit outcome option" where
  "vote E s =
     (let s1 = set_config ''tezos_client_options'' (CStr (client_options E (config s))) s in
      then_o (ledger_wallet_wait E s1) (\<lambda>_ s2.
      then_o (Some (then_w (fill_voting_period_info E s2) (\<lambda>_ s3. dispatch_period E s3))) (\<lambda>_ s4.
      then_o (restart_local_baker E s4) (\<lambda>_ s5. Some (Inr (), log_event ThankYou s5)))))"

text \<open>\<open>main\<close>: status 0 after a normal run, 1 after any exception.\<close>

definition exit_status :: "(werror + unit) \<Rightarrow> int" where
  "exit_status r = (case r of Inr _ \<Rightarrow> 0 | Inl _ \<Rightarrow> 1)"

subsection \<open>Predicates on the command log\<close>

text \<open>A proposal command is well formed when it carries a protocol hash; the hash list read
  from the status output is well formed when every entry is a protocol hash.\<close>

fun proposal_ok :: "cmd \<Rightarrow> bool" where
  "proposal_ok (SubmitProposals opts alias h) = is_protocol_hash h"
| "proposal_ok c = True"

fun is_proposal_submission :: "cmd \<Rightarrow> bool" where
  "is_proposal_submission (SubmitProposals opts alias h) = True"
| "is_proposal_submission c = False"

definition hashes_valid :: "wstate \<Rightarrow> bool" where
  "hashes_valid s \<longleftrightarrow> (case config s ''proposal_hashes'' of Some (CList hs) \<Rightarrow> list_all is_protocol_hash hs | _ \<Rightarrow> False)"

subsection \<open>Termination of the proposal period\<close>

lemma choose_proposal_hash_stdin:
  assumes "choose_proposal_hash E s = (Inr h, s')"
  shows "length (stdin s') < length (stdin s)"
proof -
  from assms obtain hashes s1 v s2 chosen s3 where
    s1: "get_list ''proposal_hashes'' s = (Inr hashes, s1)" and
    q: "query_step E (get_proposal_period_hash hashes) s1 = (Inr v, s2)" and
    s3: "get_str ''chosen_hash'' s2 = (Inr chosen, s3)" and
    rest: "(if chosen = new_hash_option
            then then_w (query_step E new_proposal_query s3) (\<lambda>_ s4. get_str ''new_proposal_hash'' s4)
            else (Inr chosen, s3)) = (Inr h, s')"
    by (auto simp: choose_proposal_hash_def then_w_Inr_iff)
  from s1 s3 have "s1 = s" "s3 = s2" by (auto dest: get_list_state get_str_state)
  with q have lt: "length (stdin s3) < length (stdin s)" by (auto dest: query_step_Inr_stdin)
  from rest have "length (stdin s') \<le> length (stdin s3)"
    by (auto simp: then_w_Inr_iff split: if_splits dest!: get_str_state query_step_stdin_le)
  with lt show ?thesis by simp
qed

lemma submit_proposal_stdin: "submit_proposal E h s = (r, s') \<Longrightarrow> stdin s' = stdin s"
  by (auto simp: submit_proposal_def then_w_def Let_def run_cmd_def log_event_def
      split: prod.splits sum.splits if_splits dest!: get_str_state)

termination process_proposal_period
  by (relation "measure (\<lambda>(E, s). length (stdin s))")
    (auto simp: frame_simps dest!: choose_proposal_hash_stdin submit_proposal_stdin)

declare process_proposal_period.simps [simp del]

subsection \<open>Lemmas on the steps\<close>

lemma query_step_state:
  assumes "query_step E st s = (Inr v, s')"
  shows "config s' = (config s)(step_id st \<mapsto> CStr v)" "tick s' = tick s" "calls s' = calls s"
  using query_step_Inr [OF assms] query_step_frame [of E st s] assms by auto

lemma enum_step_answer:
  assumes "query_step E st s = (Inr v, s')" and "step_validator st = [RequiredField, EnumRange opts]"
  shows "v \<in> set opts"
proof -
  from query_step_Inr [OF assms(1)] obtain a where "run_validator (probe E) (step_validator st) a = Inr v"
    by blast
  with assms(2) show ?thesis
    by (auto simp del: run_validator.simps simp add: run_validator_Inr_Cons run_validator.simps(1)
        dest: enum_range_Inr_member)
qed

lemma ballot_outcome_answer:
  assumes "query_step E ballot_outcome_query s = (Inr v, s')"
  shows "v \<in> set (map fst ballot_outcomes)"
  using assms by (rule enum_step_answer) (simp add: ballot_outcome_query_def)

lemma new_proposal_answer:
  assumes "query_step E new_proposal_query s = (Inr v, s')"
  shows "is_protocol_hash v"
proof -
  from query_step_Inr [OF assms] obtain a where "run_validator (probe E) [RequiredField, ProtocolHash] a = Inr v"
    by (auto simp: new_proposal_query_def)
  then show ?thesis
    by (auto simp del: run_validator.simps simp add: run_validator_Inr_Cons run_validator.simps(1)
        protocol_hash_Inr)
qed

lemma first_hash_eq [simp]: "config s ''proposal_hashes'' = Some (CList (h # hs)) \<Longrightarrow> first_hash s = (Inr h, s)"
  by (simp add: first_hash_def)

subsection \<open>Reading the voting period\<close>

text \<open>C10: when \<open>show voting period\<close> succeeds and its output names the period,
  \<open>fill_voting_period_info\<close> runs that one command and stores the period name and
  the hashes found in the output, all of them well formed, and nothing else.\<close>

theorem fill_voting_period_info_stores:
  assumes "config s ''tezos_client_options'' = Some (CStr opts)"
    and r: "r = client E (tick s) (ShowVotingPeriod opts)" and "returncode r = 0"
    and "search_period (stdout r) = Some p"
  shows "\<exists>s'. fill_voting_period_info E s = (Inr (), s') \<and>
           config s' = (config s)(''amendment_phase'' \<mapsto> CStr p,
                                  ''proposal_hashes'' \<mapsto> CList (findall_hashes (stdout r))) \<and>
           calls s' = calls s @ [ShowVotingPeriod opts] \<and>
           list_all is_protocol_hash (findall_hashes (stdout r))"
  using assms by (simp add: fill_voting_period_info_def run_cmd_def frame_simps findall_hashes_well_formed)

text \<open>C12: when \<open>show voting period\<close> fails, the wizard reports that the voting
  period is unavailable and cancels the run, storing nothing, which exits with status 1.\<close>

theorem fill_voting_period_info_cancels:
  assumes "config s ''tezos_client_options'' = Some (CStr opts)"
    and "returncode (client E (tick s) (ShowVotingPeriod opts)) \<noteq> 0"
  shows "\<exists>s'. fill_voting_period_info E s = (Inl Cancelled, s') \<and> config s' = config s \<and>
           events s' = events s @ [VotingInfoUnavailable] \<and>
           exit_status (fst (fill_voting_period_info E s)) = 1"
  using assms by (simp add: fill_voting_period_info_def run_cmd_def frame_simps exit_status_def)

subsection \<open>The validators of the wizard's steps\<close>

lemmas chain_simps = run_validator_Inr_Cons run_validator.simps(1) required_field_Inr

text \<open>C6: the proposal-hash step accepts exactly a non-blank answer that is one of the
  listed hashes or the sentinel, kept as it is, or the 1-based index of an entry that is
  not itself listed, resolved to that entry.\<close>

theorem proposal_step_accepts:
  "run_validator pr (step_validator (get_proposal_period_hash hashes)) a = Inr v \<longleftrightarrow>
     (\<exists>c \<in> set a. \<not> is_space c) \<and>
     ((a \<in> set (hashes @ [new_hash_option]) \<and> v = a) \<or>
      (a \<notin> set (hashes @ [new_hash_option]) \<and>
       (\<exists>k < Suc (length hashes). a = dec_string (Suc k) \<and> v = (hashes @ [new_hash_option]) ! k)))"
  by (simp del: run_validator.simps add: get_proposal_period_hash_def chain_simps enum_range_spec)

text \<open>C7: the new-hash step rejects every answer of the wrong length, with a first
  character other than \<open>P\<close>, or with a character outside the base-58 alphabet after
  it, and accepts every other answer.\<close>

theorem new_proposal_step_rejects:
  "isl (run_validator pr (step_validator new_proposal_query) a) \<longleftrightarrow>
     length a \<noteq> 51 \<or> take 1 a \<noteq> ''P'' \<or> (\<exists>c \<in> set (drop 1 a). \<not> is_b58_char c)"
proof (cases "list_all is_space a")
  case True
  then have rhs: "length a \<noteq> 51 \<or> take 1 a \<noteq> ''P''"
    by (cases a) (auto simp: is_space_def)
  have "isl (run_validator pr (step_validator new_proposal_query) a)"
    using True by (simp add: new_proposal_query_def required_field_def)
  with rhs show ?thesis by blast
next
  case False
  then have "isl (run_validator pr (step_validator new_proposal_query) a) \<longleftrightarrow> isl (protocol_hash a)"
    by (cases "protocol_hash a") (simp_all add: new_proposal_query_def required_field_def)
  then show ?thesis by (simp only: protocol_hash_rejects)
qed

text \<open>C8: an endpoint the node-endpoint step accepts answered the reachability probe:
  either it is a public node offered on mainnet (chosen by address or by index), which
  was offered only because it answered, or the probe of the address the operator typed
  succeeded.\<close>

theorem endpoint_step_reachable:
  assumes "run_validator (probe E) (step_validator (get_node_rpc_endpoint_query E network dflt)) a = Inr v"
  shows "probe E v node_rpc_url_path"
proof -
  from assms obtain a' where "run_check (probe E) (AnyOf (EnumRange (map fst (relevant_nodes E network)))
      (ReachableUrl node_rpc_url_path)) a' = Inr v"
    by (auto simp del: run_validator.simps simp: get_node_rpc_endpoint_query_def Let_def chain_simps)
  then have "v \<in> set (map fst (relevant_nodes E network)) \<or> probe E v node_rpc_url_path"
    by (auto simp: reachable_url_def split: sum.splits if_splits dest: enum_range_Inr_member)
  then show ?thesis by (auto simp: relevant_nodes_def)
qed

subsection \<open>The proposal\<close>

lemma choose_proposal_hash_state:
  assumes "choose_proposal_hash E s = (Inr h, s')"
  shows "tick s' = tick s \<and> calls s' = calls s \<and>
         (\<forall>k. k \<noteq> ''chosen_hash'' \<longrightarrow> k \<noteq> ''new_proposal_hash'' \<longrightarrow> config s' k = config s k)"
proof -
  from assms obtain hashes s1 v s2 chosen s3 where
    s1: "get_list ''proposal_hashes'' s = (Inr hashes, s1)" and
    q: "query_step E (get_proposal_period_hash hashes) s1 = (Inr v, s2)" and
    s3: "get_str ''chosen_hash'' s2 = (Inr chosen, s3)" and
    rest: "(if chosen = new_hash_option
            then then_w (query_step E new_proposal_query s3) (\<lambda>_ s4. get_str ''new_proposal_hash'' s4)
            else (Inr chosen, s3)) = (Inr h, s')"
    by (auto simp: choose_proposal_hash_def then_w_Inr_iff)
  from s1 s3 have "s1 = s" "s3 = s2" by (auto dest: get_list_state get_str_state)
  with query_step_state [OF q] have mid: "tick s3 = tick s \<and> calls s3 = calls s \<and>
      (\<forall>k. k \<noteq> ''chosen_hash'' \<longrightarrow> config s3 k = config s k)"
    by (simp add: get_proposal_period_hash_def)
  show ?thesis
  proof (cases "chosen = new_hash_option")
    case True
    with rest obtain w s4 where q2: "query_step E new_proposal_query s3 = (Inr w, s4)"
      and g: "get_str ''new_proposal_hash'' s4 = (Inr h, s')"
      by (auto simp: then_w_Inr_iff)
    from g have "s' = s4" by (rule get_str_state)
    with mid query_step_state [OF q2] show ?thesis
      by (simp add: new_proposal_query_def)
  next
    case False
    with rest mid show ?thesis by simp
  qed
qed

lemma submit_proposal_eq:
  assumes "config s ''tezos_client_options'' = Some (CStr opts)" "config s ''baker_alias'' = Some (CStr alias)"
  shows "submit_proposal E h s =
     (Inr (client E (tick s) (SubmitProposals opts alias h)),
      snd (run_cmd E (SubmitProposals opts alias h) (if uses_ledger E (config s) then log_event LedgerPrompt s else s)))"
  using assms by (simp add: submit_proposal_def Let_def run_cmd_def frame_simps)

text \<open>
  With the client options and the alias in the store, one round of the proposal period:
  the chosen hash is submitted, and a failure is classified.
\<close>

lemma process_proposal_period_eq:
  assumes keys: "config s ''tezos_client_options'' = Some (CStr opts)" "config s ''baker_alias'' = Some (CStr alias)"
    and ch: "choose_proposal_hash E s = (Inr h, s1)"
  shows "process_proposal_period E s =
     (let r = client E (tick s) (SubmitProposals opts alias h);
          s2 = snd (run_cmd E (SubmitProposals opts alias h)
                 (if uses_ledger E (config s1) then log_event LedgerPrompt s1 else s1))
      in if returncode r = 0 then (Inr (), s2)
         else (case classify_proposal_failure (stderr r) of
                 InvalidProposal \<Rightarrow> process_proposal_period E (log_event (ProposalReport InvalidProposal) s2)
               | UnclassifiedProposalFailure \<Rightarrow> (Inl (ClientError (stderr r)), log_event ClientFailure s2)
               | f \<Rightarrow> (Inr (), log_event CheckBakerData (log_event (ProposalReport f) s2))))"
proof -
  from choose_proposal_hash_state [OF ch] keys have k1:
    "config s1 ''tezos_client_options'' = Some (CStr opts)" "config s1 ''baker_alias'' = Some (CStr alias)"
    and tk: "tick s1 = tick s" by auto
  show ?thesis
    by (subst process_proposal_period.simps) (simp add: ch submit_proposal_eq [OF k1] tk Let_def)
qed

lemma choose_proposal_hash_calls: "choose_proposal_hash E s = (r, s') \<Longrightarrow> calls s' = calls s"
  by (auto simp: choose_proposal_hash_def then_w_def split: prod.splits sum.splits if_splits
      dest!: query_step_frame_eq get_str_state get_list_state)

text \<open>
  One round of the proposal loop, and the rule that carries a relation between the
  state before and after a round through the whole recursion.
\<close>

lemma process_proposal_period_step:
  "process_proposal_period E s =
     (case choose_proposal_hash E s of
        (Inl e, s1) \<Rightarrow> (Inl e, s1)
      | (Inr h, s1) \<Rightarrow>
          (case submit_proposal E h s1 of
             (Inl e, s2) \<Rightarrow> (Inl e, s2)
           | (Inr r, s2) \<Rightarrow>
               if returncode r = 0 then (Inr (), s2)
               else (case classify_proposal_failure (stderr r) of
                       InvalidProposal \<Rightarrow> process_proposal_period E (log_event (ProposalReport InvalidProposal) s2)
                     | UnclassifiedProposalFailure \<Rightarrow> (Inl (ClientError (stderr r)), log_event ClientFailure s2)
                     | f \<Rightarrow> (Inr (), log_event CheckBakerData (log_event (ProposalReport f) s2)))))"
  by (subst process_proposal_period.simps) (simp add: then_w_def split: prod.splits sum.splits)

lemma process_proposal_period_preserves:
  assumes choose: "\<And>s r s1. P s \<Longrightarrow> choose_proposal_hash E s = (r, s1) \<Longrightarrow> R s s1"
    and submit: "\<And>s h s1 r s2. P s \<Longrightarrow> choose_proposal_hash E s = (Inr h, s1) \<Longrightarrow>
                   submit_proposal E h s1 = (r, s2) \<Longrightarrow> R s s2 \<and> P s2"
    and log_R: "\<And>s t ev. R s t \<Longrightarrow> R s (log_event ev t)"
    and log_P: "\<And>t ev. P t \<Longrightarrow> P (log_event ev t)"
    and trans: "\<And>s t u. R s t \<Longrightarrow> R t u \<Longrightarrow> R s u"
    and start: "P s"
  shows "R s (snd (process_proposal_period E s))"
proof -
  have "E' = E \<Longrightarrow> P s \<Longrightarrow> R s (snd (process_proposal_period E' s))" for E' s
  proof (induction E' s rule: process_proposal_period.induct)
    case (1 E' s)
    from "1.prems" have E: "E' = E" and Ps: "P s" by simp_all
    obtain r1 s1 where ch: "choose_proposal_hash E s = (r1, s1)" by fastforce
    have R1: "R s s1" using choose [OF Ps ch] .
    show ?case
    proof (cases r1)
      case (Inl e)
      with ch E R1 show ?thesis by (simp add: process_proposal_period_step [of E])
    next
      case (Inr h)
      obtain r2 s2 where sb: "submit_proposal E h s1 = (r2, s2)" by fastforce
      from submit [OF Ps ch [unfolded Inr] sb] have R2: "R s s2" and P2: "P s2" by simp_all
      show ?thesis
      proof (cases r2)
        case (Inl e)
        with ch Inr sb E R2 show ?thesis by (simp add: process_proposal_period_step [of E])
      next
        case (Inr r)
        have L1: "R s (log_event ev s2)" for ev using log_R [OF R2] .
        have L2: "R s (log_event ev' (log_event ev s2))" for ev ev' using log_R [OF L1] .
        have IH: "R (log_event (ProposalReport InvalidProposal) s2)
                    (snd (process_proposal_period E (log_event (ProposalReport InvalidProposal) s2)))"
          if "returncode r \<noteq> 0" "classify_proposal_failure (stderr r) = InvalidProposal"
          using "1.IH" [OF ch [unfolded \<open>r1 = Inr h\<close>, folded E] sb [unfolded Inr, folded E] that E log_P [OF P2]]
          by (simp add: E)
        show ?thesis
          using ch sb \<open>r1 = Inr h\<close> Inr E R2 L1 L2 IH trans [OF L1]
          by (cases "classify_proposal_failure (stderr r)") (auto simp: process_proposal_period_step [of E])
      qed
    qed
  qed
  with start show ?thesis by blast
qed

lemma choose_proposal_hash_stdin_le:
  "choose_proposal_hash E s = (r, s') \<Longrightarrow> length (stdin s') \<le> length (stdin s)"
  by (auto simp: choose_proposal_hash_def then_w_def split: prod.splits sum.splits if_splits
      dest!: query_step_stdin_le get_str_state get_list_state)

lemma choose_proposal_hash_effect:
  "choose_proposal_hash E s = (r, s') \<Longrightarrow> calls s' = calls s \<and> length (stdin s') \<le> length (stdin s)"
  using choose_proposal_hash_calls choose_proposal_hash_stdin_le by blast

lemma submit_proposal_effect:
  assumes "submit_proposal E h s = (r, s')"
  shows "config s' = config s \<and> stdin s' = stdin s \<and>
         (calls s' = calls s \<or> (\<exists>opts alias. calls s' = calls s @ [SubmitProposals opts alias h]))"
  using assms
  by (auto simp: submit_proposal_def then_w_def Let_def run_cmd_def frame_simps
      split: prod.splits sum.splits dest!: get_str_state)

lemma proposal_round_effect:
  assumes "choose_proposal_hash E s = (Inr h, s1)" "submit_proposal E h s1 = (r, s2)"
  shows "stdin s2 = stdin s1 \<and> length (stdin s1) < length (stdin s) \<and> config s2 = config s1 \<and>
         (calls s2 = calls s \<or> (\<exists>opts alias. calls s2 = calls s @ [SubmitProposals opts alias h]))"
  using submit_proposal_effect [OF assms(2)] choose_proposal_hash_calls [OF assms(1)]
    choose_proposal_hash_stdin [OF assms(1)] by simp

lemma process_proposal_period_calls: "\<exists>cs. calls (snd (process_proposal_period E s)) = calls s @ cs"
proof -
  have "prefix (calls s) (calls (snd (process_proposal_period E s)))"
  proof (rule process_proposal_period_preserves [where P = "\<lambda>_. True"])
    fix s h s1 r s2
    assume "choose_proposal_hash E s = (Inr h, s1)" "submit_proposal E h s1 = (r, s2)"
    from proposal_round_effect [OF this] show "prefix (calls s) (calls s2) \<and> True"
      by (auto simp: prefix_def)
  qed (auto simp: frame_simps prefix_def dest!: choose_proposal_hash_effect)
  then show ?thesis by (auto simp: prefix_def)
qed

lemma choose_new_hash:
  assumes "config s ''proposal_hashes'' = Some (CList hashes)"
    and q1: "query_step E (get_proposal_period_hash hashes) s = (Inr new_hash_option, s1)"
    and q2: "query_step E new_proposal_query s1 = (Inr h, s2)"
  shows "choose_proposal_hash E s = (Inr h, s2)"
proof -
  have "config s1 ''chosen_hash'' = Some (CStr new_hash_option)"
    using query_step_state (1) [OF q1] by (simp add: get_proposal_period_hash_def)
  moreover have "config s2 ''new_proposal_hash'' = Some (CStr h)"
    using query_step_state (1) [OF q2] by (simp add: new_proposal_query_def)
  ultimately show ?thesis
    using assms by (simp add: choose_proposal_hash_def)
qed

text \<open>C3: when the operator picks the sentinel \<open>Specify new proposal hash\<close> and then
  enters a hash, that hash is well formed and is what the controller submits first, not
  an entry of the listed hashes and not the sentinel.\<close>

theorem new_hash_submitted:
  assumes keys: "config s ''tezos_client_options'' = Some (CStr opts)" "config s ''baker_alias'' = Some (CStr alias)"
    "config s ''proposal_hashes'' = Some (CList hashes)"
    and q1: "query_step E (get_proposal_period_hash hashes) s = (Inr new_hash_option, s1)"
    and q2: "query_step E new_proposal_query s1 = (Inr h, s2)"
  shows "is_protocol_hash h \<and>
         (\<exists>cs. calls (snd (process_proposal_period E s)) = calls s @ SubmitProposals opts alias h # cs)"
proof -
  have ch: "choose_proposal_hash E s = (Inr h, s2)" using choose_new_hash [OF keys(3) q1 q2] .
  have c2: "calls s2 = calls s" using choose_proposal_hash_calls [OF ch] .
  let ?c = "SubmitProposals opts alias h"
  let ?s3 = "snd (run_cmd E ?c (if uses_ledger E (config s2) then log_event LedgerPrompt s2 else s2))"
  have c3: "calls ?s3 = calls s @ [?c]" using c2 by (simp add: frame_simps)
  have "\<exists>cs. calls (snd (process_proposal_period E (log_event ev ?s3))) = calls s @ ?c # cs" for ev
    using process_proposal_period_calls [of E "log_event ev ?s3"] c3 by (auto simp: frame_simps)
  then have "\<exists>cs. calls (snd (process_proposal_period E s)) = calls s @ ?c # cs"
    using c2 by (auto simp: process_proposal_period_eq [OF keys(1,2) ch] Let_def frame_simps
        split: proposal_failure.splits)
  with new_proposal_answer [OF q2] show ?thesis by blast
qed

text \<open>C2: a submission refused as unauthorized, as out of the proposal period, or as one
  proposal too many is reported, with the request to check the baker data, once: the
  method returns normally after that single submission and asks nothing more.\<close>

theorem known_proposal_failure_reported:
  assumes keys: "config s ''tezos_client_options'' = Some (CStr opts)" "config s ''baker_alias'' = Some (CStr alias)"
    and ch: "choose_proposal_hash E s = (Inr h, s1)"
    and r: "r = client E (tick s) (SubmitProposals opts alias h)"
    and fail: "returncode r \<noteq> 0"
    and f: "classify_proposal_failure (stderr r) \<in> {UnauthorizedProposal, NotInProposalPeriod, TooManyProposals}"
  shows "\<exists>s'. process_proposal_period E s = (Inr (), s') \<and>
           calls s' = calls s @ [SubmitProposals opts alias h] \<and> stdin s' = stdin s1 \<and>
           events s' = events s1 @ (if uses_ledger E (config s1) then [LedgerPrompt] else []) @
             [ProposalReport (classify_proposal_failure (stderr r)), CheckBakerData]"
proof -
  have "calls s1 = calls s" using choose_proposal_hash_state [OF ch] by simp
  with f fail show ?thesis
    by (auto simp: process_proposal_period_eq [OF keys ch] r Let_def frame_simps)
qed

text \<open>C5: a submission failure that matches none of the known messages is reported as
  unclassified and aborts the run with the client's raw error output, which gives the
  process exit status 1.\<close>

theorem unclassified_proposal_failure_aborts:
  assumes keys: "config s ''tezos_client_options'' = Some (CStr opts)" "config s ''baker_alias'' = Some (CStr alias)"
    and ch: "choose_proposal_hash E s = (Inr h, s1)"
    and r: "r = client E (tick s) (SubmitProposals opts alias h)"
    and fail: "returncode r \<noteq> 0"
    and f: "classify_proposal_failure (stderr r) = UnclassifiedProposalFailure"
  shows "\<exists>s'. process_proposal_period E s = (Inl (ClientError (stderr r)), s') \<and>
           last (events s') = ClientFailure \<and>
           exit_status (fst (process_proposal_period E s)) = 1"
  using fail f by (simp add: process_proposal_period_eq [OF keys ch] r Let_def frame_simps exit_status_def)

subsection \<open>What the proposal loop submits\<close>

lemma choose_proposal_hash_valid:
  assumes valid: "hashes_valid s" and ch: "choose_proposal_hash E s = (Inr h, s')"
  shows "is_protocol_hash h \<and> hashes_valid s'"
proof -
  from ch obtain hashes s1 v s2 chosen s3 where
    s1: "get_list ''proposal_hashes'' s = (Inr hashes, s1)" and
    q: "query_step E (get_proposal_period_hash hashes) s1 = (Inr v, s2)" and
    s3: "get_str ''chosen_hash'' s2 = (Inr chosen, s3)" and
    rest: "(if chosen = new_hash_option
            then then_w (query_step E new_proposal_query s3) (\<lambda>_ s4. get_str ''new_proposal_hash'' s4)
            else (Inr chosen, s3)) = (Inr h, s')"
    by (auto simp: choose_proposal_hash_def then_w_Inr_iff)
  from s1 s3 have ss: "s1 = s" "s3 = s2" by (auto dest: get_list_state get_str_state)
  from s1 valid have hv: "list_all is_protocol_hash hashes"
    by (auto simp: get_list_def hashes_valid_def split: option.splits cval.splits)
  from q ss have "config s2 ''chosen_hash'' = Some (CStr v)"
    using query_step_state (1) [OF q] by (simp add: get_proposal_period_hash_def)
  with s3 ss have cv: "chosen = v" by simp
  have mem: "v \<in> set (hashes @ [new_hash_option])"
    using q by (rule enum_step_answer) (simp add: get_proposal_period_hash_def)
  have "is_protocol_hash h"
  proof (cases "chosen = new_hash_option")
    case True
    with rest obtain w s4 where q2: "query_step E new_proposal_query s3 = (Inr w, s4)"
      and g: "get_str ''new_proposal_hash'' s4 = (Inr h, s')"
      by (auto simp: then_w_Inr_iff)
    from query_step_state (1) [OF q2] g have "h = w" by (simp add: new_proposal_query_def)
    with new_proposal_answer [OF q2] show ?thesis by simp
  next
    case False
    with rest cv mem hv show ?thesis by (auto simp: list_all_iff)
  qed
  moreover have "hashes_valid s'"
    using choose_proposal_hash_state [OF ch] valid by (simp add: hashes_valid_def)
  ultimately show ?thesis ..
qed

lemma hashes_valid_config: "config t = config s \<Longrightarrow> hashes_valid t = hashes_valid s"
  by (simp add: hashes_valid_def)

lemma log_event_hashes_valid [simp]: "hashes_valid (log_event ev s) = hashes_valid s"
  by (simp add: hashes_valid_def frame_simps)

text \<open>C13: started from a status output whose hash list is well formed, every
  \<open>submit proposals\<close> command the proposal loop issues carries a protocol hash: one
  the status output listed or one the new-hash step validated.\<close>

theorem submitted_proposals_well_formed:
  assumes "hashes_valid s" "list_all proposal_ok (calls s)"
  shows "list_all proposal_ok (calls (snd (process_proposal_period E s)))"
proof -
  have "list_all proposal_ok (calls s) \<longrightarrow> list_all proposal_ok (calls (snd (process_proposal_period E s)))"
  proof (rule process_proposal_period_preserves [where P = hashes_valid, OF _ _ _ _ _ assms(1)])
    fix s h s1 r s2
    assume v: "hashes_valid s" and ch: "choose_proposal_hash E s = (Inr h, s1)"
      and sb: "submit_proposal E h s1 = (r, s2)"
    from choose_proposal_hash_valid [OF v ch] have "is_protocol_hash h" "hashes_valid s1" by simp_all
    with proposal_round_effect [OF ch sb] hashes_valid_config [of s2 s1]
    show "(list_all proposal_ok (calls s) \<longrightarrow> list_all proposal_ok (calls s2)) \<and> hashes_valid s2"
      by auto
  qed (auto simp: frame_simps dest: choose_proposal_hash_calls)
  with assms(2) show ?thesis by blast
qed

text \<open>C14: every retry of the proposal loop consumes input, so the number of
  \<open>submit proposals\<close> commands it issues is at most the number of input lines.\<close>

theorem proposal_submissions_bounded:
  "length (filter is_proposal_submission (calls (snd (process_proposal_period E s))))
     \<le> length (filter is_proposal_submission (calls s)) + length (stdin s)"
proof -
  let ?n = "\<lambda>t. length (filter is_proposal_submission (calls t)) + length (stdin t)"
  have "?n (snd (process_proposal_period E s)) \<le> ?n s"
  proof (rule process_proposal_period_preserves [where P = "\<lambda>_. True" and R = "\<lambda>s t. ?n t \<le> ?n s"])
    fix s h s1 r s2
    assume "choose_proposal_hash E s = (Inr h, s1)" "submit_proposal E h s1 = (r, s2)"
    from proposal_round_effect [OF this] show "?n s2 \<le> ?n s \<and> True"
      by auto
  qed (auto simp: frame_simps dest!: choose_proposal_hash_effect)
  then show ?thesis by simp
qed

subsection \<open>The ballot\<close>

text \<open>
  With the client options, the alias and the hash list in the store, the ballot run is:
  ask the outcome, submit it for the first hash, and handle a failure.
\<close>

lemma process_voting_period_eq:
  assumes keys: "config s ''tezos_client_options'' = Some (CStr opts)"
    "config s ''baker_alias'' = Some (CStr alias)"
    "config s ''proposal_hashes'' = Some (CList (h # hs))"
    and q: "query_step E ballot_outcome_query (log_event (CurrentProposal h) s) = (Inr v, s2)"
  shows "process_voting_period E s =
     (let s3 = (if uses_ledger E (config s2) then log_event LedgerPrompt s2 else s2);
          r = client E (tick s) (SubmitBallot opts alias h v);
          s8 = snd (run_cmd E (SubmitBallot opts alias h v) s3)
      in if returncode r \<noteq> 0 then ballot_failure (stderr r) s8 else (Inr (), s8))"
proof -
  have cfg: "config s2 = (config s)(''ballot_outcome'' \<mapsto> CStr v)" and tk: "tick s2 = tick s"
    using query_step_state [OF q] by (simp_all add: ballot_outcome_query_def frame_simps)
  let ?s3 = "if uses_ledger E (config s2) then log_event LedgerPrompt s2 else s2"
  have c3: "config ?s3 = (config s)(''ballot_outcome'' \<mapsto> CStr v)" "tick ?s3 = tick s"
    using cfg tk by (simp_all add: frame_simps)
  show ?thesis
    using keys q c3 by (simp add: process_voting_period_def Let_def run_cmd_def split: prod.splits)
qed

lemma ballot_failure_unauthorized_only:
  "ballot_unauthorized err \<Longrightarrow> \<not> ballot_wrong_period err \<Longrightarrow>
   ballot_failure err s =
     (Inl (ClientError err), log_event ClientFailure (log_event CheckBakerData (log_event BallotUnauthorized s)))"
  by (simp add: ballot_failure_def)

text \<open>C1: when \<open>submit ballot\<close> fails with \<open>Unauthorized ballot\<close> and without the
  period message, the controller reports the unauthorized ballot and asks the operator to
  check the baker data, and then still reports an unclassified failure and aborts the run
  with the client's raw error output.\<close>

theorem unauthorized_ballot_aborts:
  assumes keys: "config s ''tezos_client_options'' = Some (CStr opts)"
    "config s ''baker_alias'' = Some (CStr alias)"
    "config s ''proposal_hashes'' = Some (CList (h # hs))"
    and q: "query_step E ballot_outcome_query (log_event (CurrentProposal h) s) = (Inr v, s2)"
    and r: "r = client E (tick s) (SubmitBallot opts alias h v)"
    and fail: "returncode r \<noteq> 0" "ballot_unauthorized (stderr r)" "\<not> ballot_wrong_period (stderr r)"
  shows "\<exists>s'. process_voting_period E s = (Inl (ClientError (stderr r)), s') \<and>
           events s' = events s2 @ (if uses_ledger E (config s2) then [LedgerPrompt] else []) @
                       [BallotUnauthorized, CheckBakerData, ClientFailure]"
  using fail by (simp add: process_voting_period_eq [OF keys q] r ballot_failure_unauthorized_only
      Let_def frame_simps)

text \<open>C4: in a ballot period, the controller submits exactly one ballot, for the first
  listed hash and with the outcome the operator chose (one of yay, nay and pass), and on
  success it reports nothing more.\<close>

theorem ballot_submits_choice:
  assumes keys: "config s ''tezos_client_options'' = Some (CStr opts)"
    "config s ''baker_alias'' = Some (CStr alias)"
    "config s ''proposal_hashes'' = Some (CList (h # hs))"
    and q: "query_step E ballot_outcome_query (log_event (CurrentProposal h) s) = (Inr v, s2)"
    and ok: "returncode (client E (tick s) (SubmitBallot opts alias h v)) = 0"
  shows "\<exists>s'. process_voting_period E s = (Inr (), s') \<and>
           calls s' = calls s @ [SubmitBallot opts alias h v] \<and> v \<in> set (map fst ballot_outcomes) \<and>
           events s' = events s2 @ (if uses_ledger E (config s2) then [LedgerPrompt] else [])"
proof -
  have "calls s2 = calls s" using query_step_state [OF q] by (simp add: frame_simps)
  then show ?thesis
    using ok ballot_outcome_answer [OF q]
    by (simp add: process_voting_period_eq [OF keys q] Let_def frame_simps)
qed

subsection \<open>Waiting for the ledger\<close>

text \<open>
  One round of \<open>wait_ledger_loop\<close> takes two clock ticks, the listing and the sleep.
  Termination when the marker appears is proved by induction on the round; the converse,
  that the loop does not return when it never appears, by the fixpoint induction of the
  \<open>partial_function\<close> (\<open>raw_induct\<close>), which shows every returned value was
  preceded by a listing with the marker or a failed sleep.
\<close>

lemma wait_ledger_loop_round:
  assumes "\<not> ledger_app_found app out"
    and "returncode (client E (Suc (tick s)) Sleep1) = 0"
  shows "wait_ledger_loop E app dir out s =
     wait_ledger_loop E app dir (stdout (client E (tick s) (ListConnectedLedgers dir)))
       (s\<lparr>tick := Suc (Suc (tick s)), calls := calls s @ [ListConnectedLedgers dir, Sleep1]\<rparr>)"
  using assms by (subst wait_ledger_loop.simps) (simp add: run_cmd_def proc_call_def)

text \<open>C15: the ledger wait returns as soon as a listing shows the app: when the
  listing of round \<open>n\<close> (at clock \<open>tick s + 2 n\<close>) contains the marker and every sleep up
  to then succeeds, the loop returns normally, with the configuration, the input and the
  reports unchanged.\<close>

theorem wait_ledger_loop_returns:
  assumes "\<forall>i \<le> n. returncode (client E (tick s + 2 * i + 1) Sleep1) = 0"
    and "ledger_app_found app (stdout (client E (tick s + 2 * n) (ListConnectedLedgers dir)))"
  shows "\<exists>s'. wait_ledger_loop E app dir out s = Some (Inr (), s') \<and>
           config s' = config s \<and> stdin s' = stdin s \<and> events s' = events s"
  using assms
proof (induction n arbitrary: out s)
  case 0
  show ?case
  proof (cases "ledger_app_found app out")
    case True
    then show ?thesis by (simp add: wait_ledger_loop.simps)
  next
    case False
    with "0.prems" show ?thesis
      by (simp add: wait_ledger_loop_round wait_ledger_loop.simps [of _ _ _ "stdout _"])
  qed
next
  case (Suc n)
  show ?case
  proof (cases "ledger_app_found app out")
    case True
    then show ?thesis by (simp add: wait_ledger_loop.simps)
  next
    case False
    let ?s = "s\<lparr>tick := Suc (Suc (tick s)), calls := calls s @ [ListConnectedLedgers dir, Sleep1]\<rparr>"
    have "\<forall>i \<le> n. returncode (client E (tick ?s + 2 * i + 1) Sleep1) = 0"
      using Suc.prems(1) by (auto dest: spec [of _ "Suc _"])
    moreover have "ledger_app_found app (stdout (client E (tick ?s + 2 * n) (ListConnectedLedgers dir)))"
      using Suc.prems(2) by simp
    ultimately have "\<exists>s'. wait_ledger_loop E app dir (stdout (client E (tick s) (ListConnectedLedgers dir))) ?s
                       = Some (Inr (), s') \<and> config s' = config s \<and> stdin s' = stdin s \<and> events s' = events s"
      using Suc.IH by fastforce
    moreover have "returncode (client E (Suc (tick s)) Sleep1) = 0"
      using Suc.prems(1) by (auto dest: spec [of _ 0])
    ultimately show ?thesis using False by (simp add: wait_ledger_loop_round)
  qed
qed

lemma wait_ledger_loop_Some:
  "wait_ledger_loop E app dir out s = Some y \<Longrightarrow>
     ledger_app_found app out \<or>
     (\<exists>i. ledger_app_found app (stdout (client E (tick s + 2 * i) (ListConnectedLedgers dir))) \<or>
          returncode (client E (tick s + 2 * i + 1) Sleep1) \<noteq> 0)"
proof (induction rule: wait_ledger_loop.raw_induct [rotated, consumes 1])
  case (1 loop E app dir out s y)
  show ?case
  proof (cases "ledger_app_found app out")
    case False
    let ?out = "stdout (client E (tick s) (ListConnectedLedgers dir))"
    show ?thesis
    proof (cases "returncode (client E (Suc (tick s)) Sleep1) = 0")
      case True
      with False "1"(2) have "loop E app dir ?out
          (s\<lparr>tick := Suc (Suc (tick s)), calls := calls s @ [ListConnectedLedgers dir, Sleep1]\<rparr>) = Some y"
        by (simp add: run_cmd_def proc_call_def)
      from "1"(1) [OF this] obtain i where
        "ledger_app_found app ?out \<or>
         ledger_app_found app (stdout (client E (tick s + 2 * Suc i) (ListConnectedLedgers dir))) \<or>
         returncode (client E (tick s + 2 * Suc i + 1) Sleep1) \<noteq> 0"
        by auto
      then show ?thesis by (metis add_0_right mult_0_right)
    next
      case False
      then show ?thesis by (metis One_nat_def add.right_neutral add_Suc_right mult_0_right)
    qed
  qed simp
qed

text \<open>C16: the wait has no time-out: when the marker is not in the initial output and no
  listing ever shows it while every sleep succeeds, the loop does not return.\<close>

theorem wait_ledger_loop_diverges:
  assumes "\<not> ledger_app_found app out"
    and "\<forall>i. \<not> ledger_app_found app (stdout (client E (tick s + 2 * i) (ListConnectedLedgers dir))) \<and>
             returncode (client E (tick s + 2 * i + 1) Sleep1) = 0"
  shows "wait_ledger_loop E app dir out s = None"
  using assms wait_ledger_loop_Some [of E app dir out s] by (cases "wait_ledger_loop E app dir out s") auto

end
