(* ===== verification/Baking_Setup.thy ===== *)
theory Baking_Setup
  imports Voting_Controller
begin

text \<open>
  The Baking Environment Setup of the voting wizard
  (\<open>src/baking/src/tezos_baking/tezos_voting_wizard.py\<close>, lines 189--292):
  \<open>Setup.check_data_correctness\<close>, \<open>Setup.search_client_config\<close>,
  \<open>Setup.collect_baking_info\<close> with its confirmation loop, and
  \<open>Setup.get_baker_key\<close>. The helpers they call from \<open>wizard_structure\<close>,
  \<open>util\<close> and \<open>steps\<close>, which are not under \<open>src/\<close>, form the interface
  record \<open>benv\<close>: the lemmas about the setup are stated for every implementation of
  it, under the contracts the spec (sections 4.3 and 6) gives them, and a concrete
  implementation in the root theory discharges those contracts.
\<close>

subsection \<open>The interface of the setup's helpers\<close>

text \<open>
  \<^item> \<open>fill_baking_config\<close>: reads the running service's configuration into the store;
  \<^item> \<open>key_address opts alias\<close>: \<open>util.get_key_address\<close>, the address of the key
    of that alias, \<open>None\<close> when the client knows no such key;
  \<^item> \<open>is_file\<close> and \<open>json_field path field\<close>: \<open>os.path.isfile\<close> and the field of
    the JSON file that \<open>search_json_with_default\<close> reads;
  \<^item> \<open>yes_or_no prompt default\<close>: reads an answer from the operator;
  \<^item> \<open>check_baker_account\<close>: asks whether to replace the voter key;
  \<^item> \<open>import_key query app\<close>: drives the key-import steps;
  \<^item> \<open>key_import_modes\<close>: the keys of the dictionary \<open>steps.key_import_modes\<close>.
\<close>

record benv =
  fill_baking_config :: "wstate \<Rightarrow> unit outcome"
  key_address :: "string \<Rightarrow> string \<Rightarrow> string option"
  is_file :: "string \<Rightarrow> bool"
  json_field :: "string \<Rightarrow> string \<Rightarrow> string option"
  yes_or_no :: "string \<Rightarrow> string \<Rightarrow> wstate \<Rightarrow> bool outcome"
  check_baker_account :: "wstate \<Rightarrow> bool outcome"
  import_key :: "step \<Rightarrow> string \<Rightarrow> wstate \<Rightarrow> unit outcome"
  key_import_modes :: "string list"

subsection \<open>Reading back the collected data (lines 204--220)\<close>

text \<open>The three f-strings index the store, so a missing key raises \<open>KeyError\<close>.\<close>

definition check_data_correctness :: "benv \<Rightarrow> wstate \<Rightarrow> bool outcome" where
  "check_data_correctness B s =
     then_w (get_str ''client_data_dir'' s) (\<lambda>_ s1.
     then_w (get_str ''node_rpc_endpoint'' s1) (\<lambda>_ s2.
     then_w (get_str ''baker_key_value'' s2) (\<lambda>_ s3.
       yes_or_no B ''Does this look correct? (Y/n) '' ''yes'' s3)))"

definition search_client_config :: "benv \<Rightarrow> string \<Rightarrow> string option \<Rightarrow> wstate \<Rightarrow> string option outcome" where
  "search_client_config B field dflt s =
     then_w (get_str ''client_data_dir'' s) (\<lambda>dir s1.
       (let path = dir @ ''/config'' in
        if \<not> is_file B path then (Inr dflt, s1)
        else (Inr (case json_field B path field of Some v \<Rightarrow> Some v | None \<Rightarrow> dflt), s1)))"

text \<open>Storing \<open>None\<close> under a key is modelled by removing the key: the store holds
  strings, booleans and lists, and every later read of the key either overwrites it or
  tests it for \<open>None\<close>.\<close>

definition store_opt :: "string \<Rightarrow> string option \<Rightarrow> wstate \<Rightarrow> wstate" where
  "store_opt k v s = s\<lparr>config := (config s)(k := map_option CStr v)\<rparr>"

subsection \<open>The voter key (lines 276--292)\<close>

definition get_baker_key :: "wenv \<Rightarrow> benv \<Rightarrow> string list \<Rightarrow> wstate \<Rightarrow> unit outcome" where
  "get_baker_key E B modes s =
     (let s1 = (if config s ''baker_alias'' = None then set_config ''baker_alias'' (CStr ''baker'') s else s);
          s2 = set_config ''tezos_client_options'' (CStr (client_options E (config s1))) s1 in
      then_w (get_str ''tezos_client_options'' s2) (\<lambda>opts s3.
      then_w (get_str ''baker_alias'' s3) (\<lambda>alias s4.
        (case key_address B opts alias of
           Some v \<Rightarrow> (Inr (), set_config ''baker_key_value'' (CStr v) s4)
         | None \<Rightarrow> import_key B (get_key_mode_query modes) ''Wallet'' s4))))"

subsection \<open>Collecting the baking data (lines 222--274)\<close>

text \<open>
  With the service running (lines 226--235): the service's configuration, the client
  options, and the key of the alias, unpacked as a pair: when the client knows no key
  of that alias \<open>get_key_address\<close> returns \<open>None\<close> and the unpacking raises
  \<open>TypeError\<close>.
\<close>

definition collect_active :: "wenv \<Rightarrow> benv \<Rightarrow> wstate \<Rightarrow> bool outcome" where
  "collect_active E B s =
     then_w (fill_baking_config B s) (\<lambda>_ s1.
       (let s2 = set_config ''tezos_client_options'' (CStr (client_options E (config s1))) s1 in
        then_w (get_str ''tezos_client_options'' s2) (\<lambda>opts s3.
        then_w (get_str ''baker_alias'' s3) (\<lambda>alias s4.
          (case key_address B opts alias of
             None \<Rightarrow> (Inl (UnpackNone ''get_key_address''), s4)
           | Some v \<Rightarrow> check_data_correctness B (set_config ''baker_key_value'' (CStr v) s4))))))"

text \<open>
  Without it (lines 236--260): the default data directory of the network, created
  first; the endpoint from the client's own configuration file, or else asked for; the
  voter key, with the \<open>json\<close> import mode removed.
\<close>

definition default_data_dir :: "string \<Rightarrow> string" where
  "default_data_dir net = ''/var/lib/tezos/client-'' @ net"

definition collect_inactive :: "wenv \<Rightarrow> benv \<Rightarrow> string list \<Rightarrow> wstate \<Rightarrow> bool outcome" where
  "collect_inactive E B modes s =
     then_w (get_str ''network'' s) (\<lambda>net s1.
       (let dir = default_data_dir net in
        then_w (proc_call E (MkdirNetworkDir dir) s1) (\<lambda>_ s2.
          (let s3 = set_config ''client_data_dir'' (CStr dir) (log_event (DefaultDataDir dir) s2) in
           then_w (search_client_config B ''endpoint'' None s3) (\<lambda>ep s4.
             (let s5 = store_opt ''node_rpc_endpoint'' ep s4 in
              then_w (if ep = None
                      then then_w (query_step E (get_node_rpc_endpoint_query E net None) s5) (\<lambda>_ s6. (Inr (), s6))
                      else (Inr (), s5)) (\<lambda>_ s7.
              then_w (get_baker_key E B modes s7) (\<lambda>_ s8.
                check_data_correctness B s8))))))))"

text \<open>
  The \<open>while not collected\<close> loop (lines 262--274): each round
  (\<open>confirm_round\<close>, the loop's body) asks for the endpoint again, with the current one
  as default, offers a new key, and asks for the confirmation again. The loop ends only
  when the operator confirms, so it is a \<open>partial_function\<close>.
\<close>

definition confirm_round :: "wenv \<Rightarrow> benv \<Rightarrow> string list \<Rightarrow> wstate \<Rightarrow> bool outcome" where
  "confirm_round E B modes s =
     then_w (get_str ''network'' s) (\<lambda>net s1.
     then_w (get_str ''node_rpc_endpoint'' s1) (\<lambda>ep s2.
     then_w (query_step E (get_node_rpc_endpoint_query E net (Some ep)) s2) (\<lambda>_ s3.
     then_w (check_baker_account B s3) (\<lambda>replace s4.
     then_w (if replace then import_key B (get_key_mode_query modes) ''Wallet'' s4 else (Inr (), s4)) (\<lambda>_ s5.
       check_data_correctness B s5)))))"

partial_function (option) confirm_loop ::
  "wenv \<Rightarrow> benv \<Rightarrow> string list \<Rightarrow> bool \<Rightarrow> wstate \<Rightarrow> unit outcome option"
where
  "confirm_loop E B modes collected s =
     (if collected then Some (Inr (), s)
      else (case confirm_round E B modes s of
              (Inl e, s') \<Rightarrow> Some (Inl e, s')
            | (Inr c, s') \<Rightarrow> confirm_loop E B modes c s'))"

text \<open>\<open>key_import_modes.pop("json", None)\<close> mutates the module's dictionary, so the
  loop offers the \<open>json\<close> mode only when the service was running.\<close>

definition collect_baking_info :: "wenv \<Rightarrow> benv \<Rightarrow> wstate \<Rightarrow> unit outcome option" where
  "collect_baking_info E B s =
     (case check_baking_service E s of
        (Inl e, s1) \<Rightarrow> Some (Inl e, s1)
      | (Inr _, s1) \<Rightarrow>
          (let active = get_flag ''is_local_baking_setup'' s1;
               modes = (if active then key_import_modes B else removeAll ''json'' (key_import_modes B)) in
           (case (if active then collect_active E B s1 else collect_inactive E B modes s1) of
              (Inl e, s2) \<Rightarrow> Some (Inl e, s2)
            | (Inr c, s2) \<Rightarrow> confirm_loop E B modes c s2)))"


subsection \<open>The whole run (lines 456--504)\<close>

text \<open>\<open>Setup.run_voting\<close>: the network from the command line, the baking data, and then
  the voting steps from line 464 on (\<open>vote\<close>). \<open>None\<close> is a run that never ends,
  in a ledger wait or in the confirmation loop.\<close>

definition run_voting :: "wenv \<Rightarrow> benv \<Rightarrow> string \<Rightarrow> wstate \<Rightarrow> unit outcome option" where
  "run_voting E B network_arg s =
     then_o (collect_baking_info E B (get_network E network_arg s)) (\<lambda>_ s1. vote E s1)"

text \<open>\<open>main\<close> (lines 507--537): the exit status of a run that ends.\<close>

definition main_status :: "wenv \<Rightarrow> benv \<Rightarrow> string \<Rightarrow> wstate \<Rightarrow> int option" where
  "main_status E B network_arg s = map_option (exit_status \<circ> fst) (run_voting E B network_arg s)"

subsection \<open>Termination of the confirmation loop\<close>

lemma confirm_loop_step:
  "confirm_loop E B modes False s =
     (case confirm_round E B modes s of
        (Inl e, s') \<Rightarrow> Some (Inl e, s')
      | (Inr c, s') \<Rightarrow> confirm_loop E B modes c s')"
  by (subst confirm_loop.simps) simp

text \<open>Under the contract that each confirmation reads a line and that neither the account
  check nor the key import adds input, a round that does not raise consumes input.\<close>

lemma confirm_round_stdin:
  assumes yes: "\<And>p d t b t'. yes_or_no B p d t = (Inr b, t') \<Longrightarrow> length (stdin t') < length (stdin t)"
    and acct: "\<And>t r t'. check_baker_account B t = (r, t') \<Longrightarrow> length (stdin t') \<le> length (stdin t)"
    and imp: "\<And>q a t r t'. import_key B q a t = (r, t') \<Longrightarrow> length (stdin t') \<le> length (stdin t)"
    and r: "confirm_round E B modes s = (Inr c, s')"
  shows "length (stdin s') < length (stdin s)"
proof -
  have d: "length (stdin t') < length (stdin t)" if "check_data_correctness B t = (Inr c, t')" for t t'
    using that by (auto simp: check_data_correctness_def then_w_get_str split: option.splits cval.splits dest!: yes)
  show ?thesis
    using r
    by (auto simp: confirm_round_def get_str_def then_w_def split: option.splits cval.splits sum.splits prod.splits if_splits
        dest!: query_step_stdin_le acct imp d)
qed

lemma confirm_loop_result:
  assumes yes: "\<And>p d t b t'. yes_or_no B p d t = (Inr b, t') \<Longrightarrow> length (stdin t') < length (stdin t)"
    and acct: "\<And>t r t'. check_baker_account B t = (r, t') \<Longrightarrow> length (stdin t') \<le> length (stdin t)"
    and imp: "\<And>q a t r t'. import_key B q a t = (r, t') \<Longrightarrow> length (stdin t') \<le> length (stdin t)"
  shows "\<exists>r s'. confirm_loop E B modes c s = Some (r, s') \<and>
           (r = Inr () \<longrightarrow> (c \<and> s' = s) \<or> (\<exists>t. confirm_round E B modes t = (Inr True, s')))"
proof (induction "length (stdin s)" arbitrary: c s rule: less_induct)
  case less
  show ?case
  proof (cases c)
    case True
    then show ?thesis by (simp add: confirm_loop.simps)
  next
    case False
    obtain r1 s1 where q: "confirm_round E B modes s = (r1, s1)" by fastforce
    show ?thesis
    proof (cases r1)
      case (Inl e)
      with q False show ?thesis by (simp add: confirm_loop_step)
    next
      case (Inr c')
      with q have lt: "length (stdin s1) < length (stdin s)"
        by (simp add: confirm_round_stdin [OF yes acct imp])
      from less [OF lt, of c'] obtain r s' where l: "confirm_loop E B modes c' s1 = Some (r, s')"
        and ok: "r = Inr () \<longrightarrow> (c' \<and> s' = s1) \<or> (\<exists>t. confirm_round E B modes t = (Inr True, s'))"
        by blast
      have "\<exists>t. confirm_round E B modes t = (Inr True, s')" if "r = Inr ()"
      proof (cases "c' \<and> s' = s1")
        case True
        with q Inr show ?thesis by auto
      next
        case False
        with ok that show ?thesis by blast
      qed
      with l q Inr False show ?thesis by (auto simp: confirm_loop_step)
    qed
  qed
qed

text \<open>C17: the \<open>while not collected\<close> loop ends (under the input contract above), it
  ends normally only with the state left by a round whose confirmation said yes, and a
  round whose confirmation says yes ends it.\<close>

theorem confirm_loop_exits:
  assumes yes: "\<And>p d t b t'. yes_or_no B p d t = (Inr b, t') \<Longrightarrow> length (stdin t') < length (stdin t)"
    and acct: "\<And>t r t'. check_baker_account B t = (r, t') \<Longrightarrow> length (stdin t') \<le> length (stdin t)"
    and imp: "\<And>q a t r t'. import_key B q a t = (r, t') \<Longrightarrow> length (stdin t') \<le> length (stdin t)"
  shows "(\<exists>r. confirm_loop E B modes False s = Some r) \<and>
         (confirm_loop E B modes False s = Some (Inr (), s') \<longrightarrow> (\<exists>t. confirm_round E B modes t = (Inr True, s'))) \<and>
         (confirm_round E B modes s = (Inr True, s') \<longrightarrow> confirm_loop E B modes False s = Some (Inr (), s'))"
proof -
  have "\<exists>r s'. confirm_loop E B modes False s = Some (r, s') \<and>
           (r = Inr () \<longrightarrow> (False \<and> s' = s) \<or> (\<exists>t. confirm_round E B modes t = (Inr True, s')))"
    by (rule confirm_loop_result; (erule yes | erule acct | erule imp))
  then show ?thesis by (auto simp: confirm_loop_step confirm_loop.simps)
qed

subsection \<open>The two paths of the setup\<close>

lemma check_baking_service_active:
  assumes "config s ''network'' = Some (CStr net)" "returncode (client E (tick s) (SystemctlIsActive net)) = 0"
  shows "check_baking_service E s =
           (Inr (), set_config ''is_local_baking_setup'' (CBool True) (snd (run_cmd E (SystemctlIsActive net) s)))"
  using assms by (simp add: check_baking_service_def proc_call_def run_cmd_def)

lemma check_baking_service_inactive:
  assumes "config s ''network'' = Some (CStr net)" "returncode (client E (tick s) (SystemctlIsActive net)) \<noteq> 0"
  shows "check_baking_service E s =
           (Inr (), set_config ''is_local_baking_setup'' (CBool False)
                      (log_event (NoLocalBakingService net) (snd (run_cmd E (SystemctlIsActive net) s))))"
  using assms by (simp add: check_baking_service_def proc_call_def run_cmd_def)

text \<open>C18: with the baking service running, when the client knows no key of the
  configured alias the setup aborts with \<open>TypeError\<close>: \<open>get_key_address\<close>
  returns \<open>None\<close> and line 230 unpacks it as a pair.\<close>

theorem collect_baking_info_active_no_key:
  assumes "config s ''network'' = Some (CStr net)"
    and "returncode (client E (tick s) (SystemctlIsActive net)) = 0"
    and "fill_baking_config B (set_config ''is_local_baking_setup'' (CBool True)
           (snd (run_cmd E (SystemctlIsActive net) s))) = (Inr (), s1)"
    and "config s1 ''baker_alias'' = Some (CStr alias)"
    and "key_address B (client_options E (config s1)) alias = None"
  shows "collect_baking_info E B s =
           Some (Inl (UnpackNone ''get_key_address''),
                 set_config ''tezos_client_options'' (CStr (client_options E (config s1))) s1)"
  using assms
  by (simp add: collect_baking_info_def check_baking_service_active get_flag_def frame_simps
      collect_active_def Let_def)

text \<open>C19: with no baking service running, the setup creates the default data directory
  \<open>/var/lib/tezos/client-<network>\<close> right after the service probe, takes the endpoint
  from the client's configuration file without asking for it, and continues with the voter
  key and the confirmation loop without the \<open>json\<close> import mode.\<close>

theorem collect_baking_info_inactive_endpoint:
  assumes "config s ''network'' = Some (CStr net)"
    and "returncode (client E (tick s) (SystemctlIsActive net)) \<noteq> 0"
    and "returncode (client E (Suc (tick s)) (MkdirNetworkDir (default_data_dir net))) = 0"
    and "is_file B (default_data_dir net @ ''/config'')"
    and "json_field B (default_data_dir net @ ''/config'') ''endpoint'' = Some ep"
  shows "collect_baking_info E B s =
     (let modes = removeAll ''json'' (key_import_modes B);
          s' = s\<lparr>tick := Suc (Suc (tick s)),
                 calls := calls s @ [SystemctlIsActive net, MkdirNetworkDir (default_data_dir net)],
                 events := events s @ [NoLocalBakingService net, DefaultDataDir (default_data_dir net)],
                 config := (config s)(''is_local_baking_setup'' \<mapsto> CBool False,
                   ''client_data_dir'' \<mapsto> CStr (default_data_dir net), ''node_rpc_endpoint'' \<mapsto> CStr ep)\<rparr>
      in case then_w (get_baker_key E B modes s') (\<lambda>_. check_data_correctness B) of
           (Inl e, s2) \<Rightarrow> Some (Inl e, s2)
         | (Inr c, s2) \<Rightarrow> confirm_loop E B modes c s2)"
  using assms
  by (simp add: collect_baking_info_def check_baking_service_inactive get_flag_def frame_simps
      collect_inactive_def search_client_config_def store_opt_def proc_call_def run_cmd_def
      set_config_def log_event_def Let_def)

text \<open>C20: with no alias configured, the voter key is looked up under the alias
  \<open>baker\<close>; when the client knows it, its address is stored and no import is started.\<close>

theorem get_baker_key_default_alias:
  assumes "config s ''baker_alias'' = None"
    and "key_address B (client_options E ((config s)(''baker_alias'' \<mapsto> CStr ''baker''))) ''baker'' = Some v"
  shows "get_baker_key E B modes s =
           (Inr (), s\<lparr>config := (config s)(''baker_alias'' \<mapsto> CStr ''baker'',
              ''tezos_client_options'' \<mapsto> CStr (client_options E ((config s)(''baker_alias'' \<mapsto> CStr ''baker''))),
              ''baker_key_value'' \<mapsto> CStr v)\<rparr>)"
  using assms by (simp add: get_baker_key_def set_config_def)

end
