(* ===== verification/Command_Lines.thy ===== *)
theory Command_Lines
  imports Arg_Parse Baking_Setup
begin

text \<open>
  The command lines of the scripts: each \<open>parser.add_argument\<close> sequence of the sources
  as a table of \<open>arg_spec\<close> values (theory \<open>Arg_Parse\<close>), the \<open>fill_args\<close>
  functions that read the namespace, and each script's entry point as the composition of
  \<open>parse_args\<close> with the script's \<open>main\<close> (theory \<open>Packaging\<close>, theory
  \<open>Baking_Setup\<close>). The working directory \<open>cwd\<close> is a parameter: the defaults
  \<open>os.path.join(os.getcwd(), '.')\<close> and the type \<open>os.path.abspath\<close> read it.
\<close>

subsection \<open>\<open>sign.py\<close>, lines 12--33 and 51--54\<close>

definition sign_parser :: "string \<Rightarrow> arg_spec list" where
  "sign_parser cwd =
     [(add_argument [''--directory'', ''-d''])\<lparr>arg_default := NsStr (path_join cwd ''.''), arg_conv := ConvAbspath\<rparr>,
      (add_argument [''--artifacts'', ''-p''])\<lparr>arg_nargs := NargsPlus, arg_default := NsList [], arg_required := False\<rparr>,
      add_argument [''--identity'', ''-i'']]"

text \<open>\<open>fill_args(parser.parse_args())\<close>, line 54.\<close>

definition sign_parse_args :: "string \<Rightarrow> string list \<Rightarrow> pkg_error + sign_args" where
  "sign_parse_args cwd argv =
     (case parse_args cwd (sign_parser cwd) argv of Inl e \<Rightarrow> Inl e | Inr ns \<Rightarrow> sign_fill_args ns)"

text \<open>\<open>main()\<close> called with no arguments (line 77): the command line is parsed and
  filled in, then the files are signed.\<close>

definition sign_script ::
  "string \<Rightarrow> (string \<Rightarrow> string list) \<Rightarrow> string option \<Rightarrow> string list \<Rightarrow> (pkg_error + unit) \<times> pkg_cmd list"
where
  "sign_script cwd ld gpg argv =
     (case sign_parse_args cwd argv of Inl e \<Rightarrow> (Inl e, []) | Inr a \<Rightarrow> (Inr (), sign_main ld gpg a))"

subsection \<open>\<open>upload.py\<close>, lines 16--59\<close>

definition upload_parser :: "string \<Rightarrow> arg_spec list" where
  "upload_parser cwd =
     [(add_argument [''--directory'', ''-d''])\<lparr>arg_default := NsStr (path_join cwd ''.''), arg_conv := ConvAbspath\<rparr>,
      (add_argument [''--artifacts'', ''-p''])\<lparr>arg_nargs := NargsPlus, arg_default := NsList [], arg_required := False\<rparr>,
      (add_argument [''--upload''])\<lparr>arg_default := NsNone, arg_const := NsStr ''regular'', arg_nargs := NargsOpt\<rparr>]"

text \<open>\<open>fill_args\<close> (lines 47--52) reads \<open>args.directory\<close>, \<open>args.artifacts\<close> and
  \<open>args.upload\<close>; a missing attribute raises \<open>AttributeError\<close>.\<close>

definition upload_fill_args :: "namespace \<Rightarrow> pkg_error + upload_args" where
  "upload_fill_args ns =
     (case ns_attr ns ''directory'' of Inl e \<Rightarrow> Inl e | Inr (NsStr d) \<Rightarrow>
        (case ns_attr ns ''artifacts'' of Inl e \<Rightarrow> Inl e | Inr (NsList arts) \<Rightarrow>
           (case ns_attr ns ''upload'' of Inl e \<Rightarrow> Inl e
            | Inr (NsStr u) \<Rightarrow> Inr \<lparr>upload_directory = d, upload_artifacts = arts, upload_destination = Some u\<rparr>
            | Inr NsNone \<Rightarrow> Inr \<lparr>upload_directory = d, upload_artifacts = arts, upload_destination = None\<rparr>
            | Inr _ \<Rightarrow> Inl (TypeError ''upload''))
         | Inr _ \<Rightarrow> Inl (TypeError ''artifacts''))
      | Inr _ \<Rightarrow> Inl (TypeError ''directory''))"

text \<open>\<open>fill_args(parser.parse_args())\<close>, line 59.\<close>

definition upload_parse_args :: "string \<Rightarrow> string list \<Rightarrow> pkg_error + upload_args" where
  "upload_parse_args cwd argv =
     (case parse_args cwd (upload_parser cwd) argv of Inl e \<Rightarrow> Inl e | Inr ns \<Rightarrow> upload_fill_args ns)"

definition upload_script ::
  "string \<Rightarrow> (string \<Rightarrow> string list) \<Rightarrow> string list \<Rightarrow> string option \<Rightarrow> string list \<Rightarrow>
     (pkg_error + unit) \<times> pkg_cmd list"
where
  "upload_script cwd ld fvs ov argv =
     (case upload_parse_args cwd argv of Inl e \<Rightarrow> (Inl e, []) | Inr a \<Rightarrow> upload_main ld fvs ov a)"

text \<open>The command line that gives an \<open>upload_args\<close> value back.\<close>

definition upload_argv :: "upload_args \<Rightarrow> string list" where
  "upload_argv a =
     [''--directory'', upload_directory a, ''--artifacts''] @ upload_artifacts a @
     (case upload_destination a of None \<Rightarrow> [] | Some u \<Rightarrow> [''--upload'', u])"

subsection \<open>\<open>package_generator.py\<close>, lines 16--48, 110--141 and 234--235\<close>

definition pg_parser :: "arg_spec list" where
  "pg_parser =
     [(add_argument [''--os''])\<lparr>arg_required := True, arg_choices := Some [''ubuntu'', ''fedora'']\<rparr>,
      (add_argument [''-t'', ''--type''])\<lparr>arg_required := True, arg_choices := Some [''source'', ''binary'']\<rparr>,
      (add_argument [''-p'', ''--packages''])\<lparr>arg_nargs := NargsPlus\<rparr>,
      (add_argument [''-d'', ''--distributions''])\<lparr>arg_nargs := NargsPlus\<rparr>,
      (add_argument [''--binaries-dir''])\<lparr>arg_conv := ConvAbspath\<rparr>,
      (add_argument [''--sources-dir''])\<lparr>arg_conv := ConvAbspath\<rparr>,
      (store_true (add_argument [''--launchpad-sources'']))\<lparr>arg_default := NsBool False\<rparr>]"

text \<open>\<open>main\<close> reads the namespace at lines 112--141: \<open>args.os\<close> and
  \<open>args.type\<close> are only compared with \<open>==\<close> (a \<open>None\<close> compares like the string
  \<open>'None'\<close>), \<open>args.sources_dir\<close> and \<open>args.launchpad_sources\<close> are tested for truth,
  \<open>list(args.distributions)\<close> and \<open>for package_name in args.packages\<close> need lists.
  The attributes are read here in the order of the source; a missing one raises
  \<open>AttributeError\<close>.\<close>

definition ns_str :: "ns_val \<Rightarrow> string option" where
  "ns_str v = (case v of NsStr s \<Rightarrow> Some s | _ \<Rightarrow> None)"

definition ns_list :: "ns_val \<Rightarrow> string list option" where
  "ns_list v = (case v of NsList l \<Rightarrow> Some l | _ \<Rightarrow> None)"

definition ns_truthy :: "ns_val \<Rightarrow> bool" where
  "ns_truthy v = (case v of NsStr s \<Rightarrow> s \<noteq> [] | NsList l \<Rightarrow> l \<noteq> [] | NsNone \<Rightarrow> False | NsBool b \<Rightarrow> b)"

definition pg_fill_args :: "namespace \<Rightarrow> pkg_error + pg_args" where
  "pg_fill_args ns =
     (case ns_attr ns ''os'' of Inl e \<Rightarrow> Inl e | Inr os \<Rightarrow>
      case ns_attr ns ''type'' of Inl e \<Rightarrow> Inl e | Inr ty \<Rightarrow>
      case ns_attr ns ''sources_dir'' of Inl e \<Rightarrow> Inl e | Inr sd \<Rightarrow>
      case ns_attr ns ''launchpad_sources'' of Inl e \<Rightarrow> Inl e | Inr lp \<Rightarrow>
      case ns_attr ns ''binaries_dir'' of Inl e \<Rightarrow> Inl e | Inr bd \<Rightarrow>
      case ns_attr ns ''distributions'' of Inl e \<Rightarrow> Inl e | Inr ds \<Rightarrow>
      case ns_attr ns ''packages'' of Inl e \<Rightarrow> Inl e | Inr ps \<Rightarrow>
        Inr \<lparr>pg_os = py_str (ns_str os), pg_type = py_str (ns_str ty), pg_packages = ns_list ps,
             pg_distributions = ns_list ds, pg_binaries_dir = ns_str bd, pg_sources_dir = ns_str sd,
             pg_launchpad_sources = ns_truthy lp\<rparr>)"

text \<open>\<open>if __name__ == "__main__": main()\<close> (lines 234--235), with
  \<open>parser.parse_args()\<close> at line 112.\<close>

definition pg_script :: "pg_env \<Rightarrow> string list \<Rightarrow> (pkg_error + unit) \<times> pg_action list" where
  "pg_script env argv =
     (case parse_args (pg_cwd env) pg_parser argv of
        Inl e \<Rightarrow> (Inl e, [])
      | Inr ns \<Rightarrow> (case pg_fill_args ns of Inl e \<Rightarrow> (Inl e, []) | Inr a \<Rightarrow> pg_main a env))"

subsection \<open>\<open>docker-tezos-packages.py\<close>, lines 18--46\<close>

text \<open>The driver adds two options to the parser of \<open>package.util.build\<close> (not under
  \<open>src/\<close>), whose declarations are a parameter.\<close>

definition driver_parser :: "arg_spec list \<Rightarrow> arg_spec list" where
  "driver_parser build_opts =
     build_opts @
     [add_argument [''--gpg-sign'', ''-s''],
      (add_argument [''--upload''])\<lparr>arg_default := NsNone, arg_const := NsStr ''regular'', arg_nargs := NargsOpt\<rparr>]"

definition ns_opt_str :: "namespace \<Rightarrow> string \<Rightarrow> string option" where
  "ns_opt_str ns k = (case ns k of Some (NsStr v) \<Rightarrow> Some v | _ \<Rightarrow> None)"

text \<open>Lines 35--46: parse, build (the artifacts \<open>build.main\<close> returns are a parameter),
  then sign and upload.\<close>

definition driver_script ::
  "pkg_env \<Rightarrow> string \<Rightarrow> arg_spec list \<Rightarrow> (namespace \<Rightarrow> string list) \<Rightarrow> string list \<Rightarrow>
     (pkg_error + unit) \<times> pkg_cmd list"
where
  "driver_script env cwd build_opts build_main argv =
     (case parse_args cwd (driver_parser build_opts) argv of
        Inl e \<Rightarrow> (Inl e, [])
      | Inr ns \<Rightarrow>
          (case ns_opt_str ns ''output_dir'' of
             None \<Rightarrow> (Inl (AttributeError ''output_dir''), [])
           | Some out \<Rightarrow> driver_main env out (build_main ns) (ns_opt_str ns ''gpg_sign'') (ns_opt_str ns ''upload'')))"

subsection \<open>\<open>tezos_voting_wizard.py\<close>, lines 39--50\<close>

text \<open>The wizard's parser comes from \<open>wizard_structure.py\<close> (not under \<open>src/\<close>) as a
  plain \<open>ArgumentParser()\<close>; the wizard adds \<open>--network\<close>.\<close>

definition network_parser :: "arg_spec list" where
  "network_parser = [(add_argument [''--network''])\<lparr>arg_required := False, arg_default := NsStr ''mainnet''\<rparr>]"

text \<open>The exit status of \<open>tezos-vote\<close>: \<open>parser.parse_args()\<close> runs when the module is
  loaded (line 50), before \<open>main\<close>, so a rejected command line exits with the status
  of \<open>SystemExit\<close>; otherwise the status of \<open>main\<close> for the network given.\<close>

definition wizard_exit :: "wenv \<Rightarrow> benv \<Rightarrow> string \<Rightarrow> string list \<Rightarrow> wstate \<Rightarrow> int option" where
  "wizard_exit E B cwd argv s =
     (case parse_args cwd network_parser argv of
        Inl (SystemExit n) \<Rightarrow> Some n
      | Inl e \<Rightarrow> Some 1
      | Inr ns \<Rightarrow> (case ns_opt_str ns ''network'' of
                   Some n \<Rightarrow> main_status E B n s
                 | None \<Rightarrow> Some 1))"

subsection \<open>Properties of the command line of \<open>sign.py\<close>\<close>

text \<open>C32: \<open>sign.py\<close> run as a script never signs anything: for every command line,
  \<open>parse_args\<close> exits or \<open>fill_args\<close> raises (the parser defines no attribute
  \<open>packages\<close>), before any command is issued.\<close>

lemma sign_script_fails: "\<exists>e. sign_script cwd ld gpg argv = (Inl e, [])"
proof (cases "parse_args cwd (sign_parser cwd) argv")
  case (Inr ns)
  have "''packages'' \<notin> dests (help_action # sign_parser cwd)"
    by (simp add: sign_parser_def help_action_def add_argument_def arg_dest_def underscores_def)
  with parse_args_dom [OF Inr] have "ns ''packages'' = None" by blast
  then have "\<exists>e. sign_fill_args ns = Inl e"
    by (auto simp: sign_fill_args_def ns_attr_def split: ns_val.splits option.splits)
  with Inr show ?thesis by (auto simp: sign_script_def sign_parse_args_def)
qed (simp add: sign_script_def sign_parse_args_def)

subsection \<open>Properties of the command line of \<open>package_generator.py\<close>\<close>

text \<open>What \<open>main\<close> can rely on after \<open>parser.parse_args()\<close>: every attribute is set,
  \<open>os\<close> is one of its choices and \<open>distributions\<close> is \<open>None\<close> or a non-empty list.\<close>

lemma ns_attr_dom: "k \<in> dom ns \<Longrightarrow> ns_attr ns k = Inr (the (ns k))"
  by (auto simp: ns_attr_def)

lemmas pg_eval = pg_parser_def help_action_def add_argument_def store_true_def arg_dest_def underscores_def

lemma pg_parser_distinct: "distinct (map arg_dest (help_action # pg_parser))"
  by (simp add: pg_eval)

lemma pg_parser_attrs:
  assumes p: "parse_args cwd pg_parser argv = Inr ns" and a: "a \<in> set pg_parser"
  shows "arg_dest a \<in> dom ns"
proof -
  from a obtain k where k: "k < length pg_parser" "a = pg_parser ! k" by (auto simp: in_set_conv_nth)
  have "arg_act (pg_parser ! k) \<noteq> ActHelp"
    using k(1) by (auto simp: pg_parser_def add_argument_def store_true_def less_Suc_eq nth_Cons')
  from parse_args_value [OF p pg_parser_distinct k(1) this, of "\<lambda>_. True"] k(2) show ?thesis by auto
qed

lemma pg_parser_dists:
  assumes p: "parse_args cwd pg_parser argv = Inr ns"
  shows "ns ''distributions'' = Some NsNone \<or> (\<exists>l. ns ''distributions'' = Some (NsList l) \<and> l \<noteq> [])"
proof -
  have d: "arg_dest (pg_parser ! 3) = ''distributions''" by (simp add: pg_eval)
  have "\<exists>v. ns (arg_dest (pg_parser ! 3)) = Some v \<and> (v = NsNone \<or> (\<exists>l. v = NsList l \<and> l \<noteq> []))"
  proof (rule parse_args_value [OF p pg_parser_distinct])
    fix vs v assume "vs = [] \<Longrightarrow> arg_nargs (pg_parser ! 3) \<in> {NargsOpt, NargsZero}"
      "arg_values cwd (pg_parser ! 3) vs = Inr v"
    then show "v = NsNone \<or> (\<exists>l. v = NsList l \<and> l \<noteq> [])"
      by (cases vs) (auto simp: pg_parser_def add_argument_def arg_values_def check_choice_def Let_def split: if_splits)
  qed (simp_all add: pg_parser_def add_argument_def)
  with d show ?thesis by auto
qed

lemma pg_parser_os:
  assumes "parse_args cwd pg_parser argv = Inr ns"
  shows "\<exists>v\<in>{''ubuntu'', ''fedora''}. ns ''os'' = Some (NsStr v)"
proof -
  have "\<exists>v\<in>set [''ubuntu'', ''fedora'']. ns (arg_dest (pg_parser ! 0)) = Some (NsStr v)"
    by (rule parse_args_choice [OF assms pg_parser_distinct]) (simp_all add: pg_parser_def add_argument_def)
  then show ?thesis by (simp add: pg_eval)
qed

lemma pg_main_failure:
  assumes "pg_main a env = (Inl e, acts)" "pg_os a \<in> {''ubuntu'', ''fedora''}" "pg_distributions a \<noteq> Some []"
  shows "e = SystemExit 1 \<or> e = TypeError ''distributions'' \<or> e = TypeError ''packages'' \<or> (\<exists>k. e = KeyError k)"
  using assms
  by (auto simp: pg_main_def pg_sources_def lookup_packages_def Let_def
      split: option.splits sum.splits prod.splits if_splits)

text \<open>C33: every command line the package generator's parser accepts sets \<open>os\<close> to
  \<open>ubuntu\<close> or \<open>fedora\<close> and \<open>type\<close> to \<open>source\<close> or \<open>binary\<close>: the
  \<open>if\<close>/\<open>elif\<close> on \<open>target_os\<close> in \<open>main\<close> always binds \<open>run_deps\<close>.\<close>

lemma pg_parser_required_choices:
  assumes "parse_args cwd pg_parser argv = Inr ns"
  shows "(\<exists>v\<in>{''ubuntu'', ''fedora''}. ns ''os'' = Some (NsStr v)) \<and>
         (\<exists>v\<in>{''source'', ''binary''}. ns ''type'' = Some (NsStr v))"
proof -
  have "\<exists>v\<in>set [''source'', ''binary'']. ns (arg_dest (pg_parser ! 1)) = Some (NsStr v)"
    by (rule parse_args_choice [OF assms pg_parser_distinct]) (simp_all add: pg_parser_def add_argument_def)
  with pg_parser_os [OF assms] show ?thesis by (simp add: pg_eval)
qed

lemma pg_script_fill:
  assumes p: "parse_args (pg_cwd env) pg_parser argv = Inr ns"
  shows "\<exists>a. pg_script env argv = pg_main a env \<and> pg_os a \<in> {''ubuntu'', ''fedora''} \<and>
           pg_distributions a \<noteq> Some [] \<and> (ns ''distributions'' = Some NsNone \<longrightarrow> pg_distributions a = None)"
proof -
  have "arg_dest ` set pg_parser \<subseteq> dom ns" using pg_parser_attrs [OF p] by blast
  then have attrs: "{''os'', ''type'', ''packages'', ''distributions'', ''binaries_dir'', ''sources_dir'',
      ''launchpad_sources''} \<subseteq> dom ns" by (simp add: pg_eval)
  from pg_parser_os [OF p] obtain os where os: "os \<in> {''ubuntu'', ''fedora''}" "ns ''os'' = Some (NsStr os)"
    by blast
  let ?v = "\<lambda>k. the (ns k)"
  let ?a = "\<lparr>pg_os = os, pg_type = py_str (ns_str (?v ''type'')), pg_packages = ns_list (?v ''packages''),
             pg_distributions = ns_list (?v ''distributions''), pg_binaries_dir = ns_str (?v ''binaries_dir''),
             pg_sources_dir = ns_str (?v ''sources_dir''), pg_launchpad_sources = ns_truthy (?v ''launchpad_sources'')\<rparr>"
  have "pg_fill_args ns = Inr ?a"
    using os attrs by (simp add: pg_fill_args_def ns_attr_dom ns_str_def py_str_def)
  with p have "pg_script env argv = pg_main ?a env" by (simp add: pg_script_def)
  moreover have "ns_list (?v ''distributions'') \<noteq> Some []"
    "ns ''distributions'' = Some NsNone \<longrightarrow> ns_list (?v ''distributions'') = None"
    using pg_parser_dists [OF p] by (auto simp: ns_list_def)
  ultimately show ?thesis using os(1) by auto
qed

text \<open>C36: on every command line its parser accepts, \<open>package_generator.py\<close> never
  fails with the \<open>UnboundLocalError\<close> of \<open>run_deps\<close> (line 131: the parser's choices
  make the \<open>if\<close>/\<open>elif\<close> on \<open>target_os\<close> exhaustive) nor with the
  \<open>IndexError\<close> of \<open>distributions[0]\<close> (line 170: \<open>nargs='+'\<close> makes the list
  non-empty when it is given).\<close>

theorem pg_script_guarded_errors:
  assumes p: "parse_args (pg_cwd env) pg_parser argv = Inr ns"
  shows "fst (pg_script env argv) \<noteq> Inl (UnboundLocalError ''run_deps'') \<and>
         fst (pg_script env argv) \<noteq> Inl (IndexError ''distributions'')"
proof -
  from pg_script_fill [OF p] obtain a where a: "pg_script env argv = pg_main a env"
    "pg_os a \<in> {''ubuntu'', ''fedora''}" "pg_distributions a \<noteq> Some []" by blast
  have "e \<noteq> UnboundLocalError ''run_deps'' \<and> e \<noteq> IndexError ''distributions''"
    if "fst (pg_script env argv) = Inl e" for e
  proof -
    from that a(1) obtain acts where "pg_main a env = (Inl e, acts)" by (cases "pg_main a env") auto
    from pg_main_failure [OF this a(2,3)] show ?thesis by auto
  qed
  then show ?thesis by blast
qed

text \<open>C37: \<open>-d\<close>/\<open>--distributions\<close> is optional for the parser (no default, not
  required) but not for \<open>main\<close>: a command line without it is accepted, \<open>out\<close> is
  created, and \<open>list(None)\<close> raises \<open>TypeError\<close> before any package is looked up.\<close>

theorem pg_script_no_distributions:
  assumes p: "parse_args (pg_cwd env) pg_parser argv = Inr ns"
    and d: "ns ''distributions'' = Some NsNone" and h: "pg_home env \<noteq> None"
  shows "pg_script env argv = (Inl (TypeError ''distributions''), [MakeDirs output_dir])"
proof -
  from pg_script_fill [OF p] d obtain a where a: "pg_script env argv = pg_main a env"
    "pg_os a \<in> {''ubuntu'', ''fedora''}" "pg_distributions a = None" by blast
  with h show ?thesis by (auto simp: pg_main_def Let_def)
qed

subsection \<open>Properties of the command line of \<open>upload.py\<close>\<close>

lemma upload_flags:
  "flag_index (help_action # upload_parser cwd) ''--directory'' = Some 1"
  "flag_index (help_action # upload_parser cwd) ''--artifacts'' = Some 2"
  "flag_index (help_action # upload_parser cwd) ''--upload'' = Some 3"
  by (simp_all add: flag_index_def option_strings_def upload_parser_def help_action_def add_argument_def)

lemma upload_tokens:
  assumes "plain_arg d" "list_all plain_arg arts" "list_all plain_arg (case dest of None \<Rightarrow> [] | Some u \<Rightarrow> [u])"
  shows "tokenise (help_action # upload_parser cwd)
      (upload_argv \<lparr>upload_directory = d, upload_artifacts = arts, upload_destination = dest\<rparr>) =
    Inr ([TOpt 1 ''--directory'' False None, TArg d, TOpt 2 ''--artifacts'' False None] @ map TArg arts @
         (case dest of None \<Rightarrow> [] | Some u \<Rightarrow> [TOpt 3 ''--upload'' False None, TArg u]))"
proof -
  have nd: "''--'' \<notin> set arts" using assms(2) by (auto simp: list_all_iff plain_arg_def)
  show ?thesis
    using assms nd plain_not_sep [OF assms(1)]
    by (cases dest)
      (auto simp: upload_argv_def tokenise_append tokenise_plain classify_flag upload_flags classify_plain
        plain_not_sep)
qed

lemmas upload_eval = check_choice_None Let_def upload_parser_def add_argument_def help_action_def arg_dest_def underscores_def
  take_action_def arg_values_def checked_str_def conv_value_def check_choice_def nargs_take_def

text \<open>C31: \<open>upload.py\<close>'s command line encodes its arguments faithfully: an absolute,
  normalised directory, a non-empty list of artifacts and an optional destination, none
  starting with a dash, written as \<open>--directory d --artifacts a ... [--upload u]\<close> and read
  back by the script's parser and \<open>fill_args\<close>, give the same arguments.\<close>

theorem upload_cli_roundtrip:
  assumes d: "take 1 (upload_directory a) = ''/''" "normpath (upload_directory a) = upload_directory a"
    and arts: "upload_artifacts a \<noteq> []" "list_all plain_arg (upload_artifacts a)"
    and u: "list_all plain_arg (case upload_destination a of None \<Rightarrow> [] | Some u \<Rightarrow> [u])"
  shows "upload_parse_args cwd (upload_argv a) = Inr a"
proof -
  obtain d arts dest where a: "a = \<lparr>upload_directory = d, upload_artifacts = arts, upload_destination = dest\<rparr>"
    by (cases a) simp
  let ?specs = "help_action # upload_parser cwd"
  let ?st0 = "\<lparr>ps_ns = initial_ns ?specs, ps_seen = [], ps_extras = []\<rparr>"
  let ?R = "case dest of None \<Rightarrow> [] | Some u \<Rightarrow> [TOpt 3 ''--upload'' False None, TArg u]"
  have pd: "plain_arg d" using d(1) a by (simp add: plain_arg_def)
  have tok: "tokenise ?specs (upload_argv a) =
      Inr (TOpt 1 ''--directory'' False None # map TArg [d] @ TOpt 2 ''--artifacts'' False None # map TArg arts @ ?R)"
    using upload_tokens [OF pd, of arts dest cwd] arts u a by simp
  have abs: "abspath cwd d = d" using d a by (simp add: abspath_def)
  let ?st1 = "?st0\<lparr>ps_ns := (ps_ns ?st0)(''directory'' \<mapsto> NsStr d), ps_seen := [1]\<rparr>"
  let ?st2 = "?st1\<lparr>ps_ns := (ps_ns ?st1)(''artifacts'' \<mapsto> NsList arts), ps_seen := [1, 2]\<rparr>"
  have c1: "consume cwd ?specs (TOpt 1 ''--directory'' False None # map TArg [d] @ TOpt 2 ''--artifacts'' False None # map TArg arts @ ?R) ?st0 =
      consume cwd ?specs (TOpt 2 ''--artifacts'' False None # map TArg arts @ ?R) ?st1"
    by (subst consume_opt_args) (simp_all add: upload_eval abs)
  have c2: "consume cwd ?specs (TOpt 2 ''--artifacts'' False None # map TArg arts @ ?R) ?st1 = consume cwd ?specs ?R ?st2"
    using arts a by (subst consume_opt_args) (auto simp: upload_eval split: option.splits)
  show ?thesis
  proof (cases dest)
    case None
    have "consume cwd ?specs ?R ?st2 = Inr ?st2" by (simp add: None)
    with tok c1 c2 None a show ?thesis
      by (simp add: upload_parse_args_def parse_args_def missing_required_def finish_defaults_def
          initial_ns_def upload_eval upload_fill_args_def ns_attr_def)
  next
    case (Some u)
    have "consume cwd ?specs ?R ?st2 = Inr (?st2\<lparr>ps_ns := (ps_ns ?st2)(''upload'' \<mapsto> NsStr u), ps_seen := [1, 2, 3]\<rparr>)"
      using consume_opt_args [of "[]" ?specs 3 "[u]"] by (simp add: Some upload_eval)
    with tok c1 c2 Some a show ?thesis
      by (simp add: upload_parse_args_def parse_args_def missing_required_def finish_defaults_def
          initial_ns_def upload_eval upload_fill_args_def ns_attr_def)
  qed
qed

lemma upload_fill_args_Inr:
  "upload_fill_args ns = Inr a \<Longrightarrow> ns ''directory'' = Some (NsStr (upload_directory a))"
  by (auto simp: upload_fill_args_def ns_attr_def split: option.splits ns_val.splits)

lemma upload_parse_args_abs:
  assumes cwd: "take 1 cwd = ''/''" and p: "upload_parse_args cwd argv = Inr a"
  shows "take 1 (upload_directory a) = ''/''"
proof -
  from p obtain ns where ns: "parse_args cwd (upload_parser cwd) argv = Inr ns" and f: "upload_fill_args ns = Inr a"
    by (auto simp: upload_parse_args_def split: sum.splits)
  have dist: "distinct (map arg_dest (help_action # upload_parser cwd))"
    by (simp add: upload_eval)
  have "\<exists>v. ns (arg_dest (upload_parser cwd ! 0)) = Some v \<and> (\<exists>q. v = NsStr q \<and> take 1 q = ''/'')"
  proof (rule parse_args_value [OF ns dist])
    fix vs v assume "vs = [] \<Longrightarrow> arg_nargs (upload_parser cwd ! 0) \<in> {NargsOpt, NargsZero}"
      "arg_values cwd (upload_parser cwd ! 0) vs = Inr v"
    then show "\<exists>q. v = NsStr q \<and> take 1 q = ''/''"
      using abspath_abs [OF cwd] by (cases vs) (auto simp: upload_eval)
  qed (use abspath_abs [OF cwd] in \<open>simp_all add: upload_eval\<close>)
  with upload_fill_args_Inr [OF f] show ?thesis by (simp add: upload_eval)
qed

text \<open>C34: with an absolute working directory, every file \<open>upload.py\<close> passes to
  \<open>dput\<close> is an absolute path, whatever the command line: \<open>--directory\<close> and its
  default go through \<open>os.path.abspath\<close>.\<close>

theorem upload_script_absolute_paths:
  assumes "take 1 cwd = ''/''" "Dput ppa f \<in> set (snd (upload_script cwd ld fvs ov argv))"
  shows "take 1 f = ''/''"
proof (cases "upload_parse_args cwd argv")
  case (Inr a)
  with assms(2) have "Dput ppa f \<in> set (snd (upload_main ld fvs ov a))" by (simp add: upload_script_def)
  then obtain g where "f = path_join (upload_directory a) g"
    by (auto simp: upload_main_def Let_def split: option.splits)
  with path_join_abs_left [OF upload_parse_args_abs [OF assms(1) Inr]] show ?thesis by simp
qed (use assms(2) in \<open>simp add: upload_script_def\<close>)

lemma upload_finish:
  "finish_defaults cwd (help_action # upload_parser cwd) st =
     (if 1 \<in> set (ps_seen st) then ps_ns st
      else (ps_ns st)(''directory'' \<mapsto> NsStr (abspath cwd (path_join cwd ''.''))))"
  by (simp add: finish_defaults_def upload_eval)

lemma upload_not_missing: "\<not> missing_required (help_action # upload_parser cwd) st"
  by (simp add: missing_required_def upload_eval)

text \<open>C38: \<open>--upload\<close> given without a value selects the regular repositories, as
  the comment of \<open>docker-tezos-packages.py\<close> (lines 25--26) says of the same option:
  appending it to any command line \<open>upload.py\<close> accepts (with no \<open>--\<close> in it) sets the
  destination to \<open>regular\<close> and leaves the directory and the artifacts as they were.\<close>

theorem upload_bare_flag:
  assumes p: "upload_parse_args cwd argv = Inr a" and s: "''--'' \<notin> set argv"
  shows "upload_parse_args cwd (argv @ [''--upload'']) = Inr (a\<lparr>upload_destination := Some ''regular''\<rparr>)"
proof -
  let ?specs = "help_action # upload_parser cwd"
  let ?st0 = "\<lparr>ps_ns = initial_ns ?specs, ps_seen = [], ps_extras = []\<rparr>"
  let ?t = "TOpt 3 ''--upload'' False None"
  from p obtain ts st where t: "tokenise ?specs argv = Inr ts" and c: "consume cwd ?specs ts ?st0 = Inr st"
    and e: "ps_extras st = []" and f: "upload_fill_args (finish_defaults cwd ?specs st) = Inr a"
    by (auto simp: upload_parse_args_def parse_args_def Let_def upload_not_missing split: sum.splits if_splits)
  have t': "tokenise ?specs (argv @ [''--upload'']) = Inr (ts @ [?t])"
    using t s by (simp add: tokenise_append classify_flag upload_flags)
  let ?st' = "st\<lparr>ps_ns := (ps_ns st)(''upload'' \<mapsto> NsStr ''regular''), ps_seen := ps_seen st @ [3]\<rparr>"
  have c': "consume cwd ?specs (ts @ [?t]) ?st0 = Inr ?st'"
    using consume_append [OF tokenise_not_sep [OF s t], of "[?t]" cwd ?specs ?st0] c
    by (simp add: opt_consume_def upload_eval)
  have fd: "finish_defaults cwd ?specs ?st' = (finish_defaults cwd ?specs st)(''upload'' \<mapsto> NsStr ''regular'')"
    by (simp add: upload_finish fun_upd_twist)
  have "upload_fill_args ((finish_defaults cwd ?specs st)(''upload'' \<mapsto> NsStr ''regular'')) =
      Inr (a\<lparr>upload_destination := Some ''regular''\<rparr>)"
    using f by (auto simp: upload_fill_args_def ns_attr_def split: option.splits ns_val.splits sum.splits)
  then show ?thesis using t' c' e fd by (simp add: upload_parse_args_def parse_args_def Let_def upload_not_missing)
qed

subsection \<open>Properties of the command line of \<open>tezos_voting_wizard.py\<close>\<close>

lemmas network_eval = network_parser_def add_argument_def help_action_def arg_dest_def underscores_def
  take_action_def arg_values_def checked_str_def conv_value_def check_choice_def nargs_take_def

text \<open>C35: \<open>tezos-vote\<close> without arguments votes on \<open>mainnet\<close>; with
  \<open>--network n\<close> (\<open>n\<close> not starting with a dash) it votes on \<open>n\<close>; given positional
  arguments it exits with status 2 before the wizard starts.\<close>

theorem wizard_command_line:
  assumes "plain_arg n" "list_all plain_arg extra" "extra \<noteq> []"
  shows "wizard_exit E B cwd [] s = main_status E B ''mainnet'' s \<and>
         wizard_exit E B cwd [''--network'', n] s = main_status E B n s \<and>
         wizard_exit E B cwd extra s = Some 2"
proof (intro conjI)
  let ?specs = "help_action # network_parser"
  let ?st0 = "\<lparr>ps_ns = initial_ns ?specs, ps_seen = [], ps_extras = []\<rparr>"
  show "wizard_exit E B cwd [] s = main_status E B ''mainnet'' s"
    by (simp add: wizard_exit_def parse_args_def missing_required_def finish_defaults_def initial_ns_def
        ns_opt_str_def network_eval)
  have fl: "flag_index ?specs ''--network'' = Some 1"
    by (simp add: flag_index_def option_strings_def network_eval)
  have tok: "tokenise ?specs [''--network'', n] = Inr (TOpt 1 ''--network'' False None # map TArg [n] @ [])"
    using assms(1) by (simp add: classify_flag [OF fl] classify_plain plain_not_sep)
  have "consume cwd ?specs (TOpt 1 ''--network'' False None # map TArg [n] @ []) ?st0 =
      Inr (?st0\<lparr>ps_ns := (ps_ns ?st0)(''network'' \<mapsto> NsStr n), ps_seen := [1]\<rparr>)"
    by (subst consume_opt_args) (simp_all add: network_eval)
  with tok show "wizard_exit E B cwd [''--network'', n] s = main_status E B n s"
    by (simp add: wizard_exit_def parse_args_def missing_required_def finish_defaults_def initial_ns_def
        ns_opt_str_def network_eval)
  show "wizard_exit E B cwd extra s = Some 2"
    using assms(3) by (simp add: wizard_exit_def parse_args_def tokenise_plain [OF assms(2)] consume_args
        missing_required_def network_eval)
qed

end
