(* ===== verification/Period_Refinement.thy ===== *)
theory Period_Refinement
  imports Voting_Controller
begin

text \<open>
  The abstract voting-period state machine of the spec (section 4.4) and the refinement
  of it by the controller's dispatch (\<open>Setup.run_voting\<close>, lines 473--492 of
  \<open>src/baking/src/tezos_baking/tezos_voting_wizard.py\<close>). The abstract level has
  the four periods and two actions, a proposal for a hash and a ballot for a hash with an
  outcome; \<open>abs_cmd\<close> reads a client command as an action, and
  \<open>period_spec\<close> says which sequences of actions a period allows. The refinement
  theorem shows that the commands \<open>dispatch_period\<close> adds to the log always form an
  allowed sequence for the period named in the store.
\<close>

subsection \<open>The abstract periods and actions\<close>

datatype vperiod = Proposal | Exploration | Promotion | Other

definition period_of :: "string \<Rightarrow> vperiod" where
  "period_of ph =
     (if ph = ''proposal'' then Proposal
      else if ph = ''exploration'' then Exploration
      else if ph = ''promotion'' then Promotion
      else Other)"

text \<open>The actions of the abstract machine, and the client commands that perform them.\<close>

datatype vote_action = Propose string | CastBallot string string

fun abs_cmd :: "cmd \<Rightarrow> vote_action option" where
  "abs_cmd (SubmitProposals opts alias h) = Some (Propose h)"
| "abs_cmd (SubmitBallot opts alias h v) = Some (CastBallot h v)"
| "abs_cmd c = None"

fun allowed :: "vperiod \<Rightarrow> vote_action \<Rightarrow> bool" where
  "allowed Proposal (Propose h) = True"
| "allowed Exploration (CastBallot h v) = (v \<in> set [''yay'', ''nay'', ''pass''])"
| "allowed Promotion (CastBallot h v) = (v \<in> set [''yay'', ''nay'', ''pass''])"
| "allowed p a = False"

definition period_spec :: "vperiod \<Rightarrow> vote_action list \<Rightarrow> bool" where
  "period_spec p acts \<longleftrightarrow>
     list_all (allowed p) acts \<and>
     (case p of Exploration \<Rightarrow> length acts \<le> 1 | Promotion \<Rightarrow> length acts \<le> 1 | _ \<Rightarrow> True)"

subsection \<open>The commands of the two sub-workflows\<close>

lemma first_hash_state: "first_hash s = (r, s') \<Longrightarrow> s' = s"
  by (auto simp: first_hash_def then_w_def get_list_def split: option.splits cval.splits list.splits)

lemma ballot_failure_calls: "ballot_failure err s = (r, s') \<Longrightarrow> calls s' = calls s"
  by (auto simp: ballot_failure_def Let_def then_w_def frame_simps split: if_splits prod.splits sum.splits
      dest: get_str_state)

lemma submit_ballot_calls:
  assumes "config s2 ''ballot_outcome'' = Some (CStr v)"
    and "(let s3 = (if uses_ledger E (config s2) then log_event LedgerPrompt s2 else s2) in
        then_w (get_str ''tezos_client_options'' s3) (\<lambda>opts s4.
        then_w (get_str ''baker_alias'' s4) (\<lambda>alias s5.
        then_w (first_hash s5) (\<lambda>h' s6.
        then_w (get_str ''ballot_outcome'' s6) (\<lambda>outcome s7.
          (case run_cmd E (SubmitBallot opts alias h' outcome) s7 of
             (r, s8) \<Rightarrow> if returncode r \<noteq> 0 then ballot_failure (stderr r) s8 else (Inr (), s8))))))) = (r, s')"
  shows "calls s' = calls s2 \<or> (\<exists>c a h. calls s' = calls s2 @ [SubmitBallot c a h v])"
  using assms
  by (auto simp: Let_def get_str_def first_hash_def then_w_def get_list_def run_cmd_def frame_simps
      split: option.splits cval.splits list.splits if_splits prod.splits sum.splits dest!: ballot_failure_calls)

lemma process_voting_period_calls:
  assumes run: "process_voting_period E s = (r, s')"
  shows "calls s' = calls s \<or>
         (\<exists>c a h v. calls s' = calls s @ [SubmitBallot c a h v] \<and> v \<in> set (map fst ballot_outcomes))"
proof -
  obtain x1 t1 where fh: "first_hash s = (x1, t1)" by fastforce
  with first_hash_state have t1: "t1 = s" by blast
  show ?thesis
  proof (cases x1)
    case Inl
    with run fh t1 show ?thesis by (simp add: process_voting_period_def)
  next
    case (Inr h)
    obtain x2 s2 where q: "query_step E ballot_outcome_query (log_event (CurrentProposal h) s) = (x2, s2)"
      by fastforce
    from query_step_frame_eq [OF q] have c2: "calls s2 = calls s" by (simp add: frame_simps)
    show ?thesis
    proof (cases x2)
      case Inl
      with run fh t1 Inr q c2 show ?thesis by (simp add: process_voting_period_def)
    next
      case (Inr v)
      note Inr' = this
      have cfg: "config s2 ''ballot_outcome'' = Some (CStr v)"
        using query_step_state (1) [OF q [unfolded Inr']] by (simp add: ballot_outcome_query_def)
      have mem: "v \<in> set (map fst ballot_outcomes)"
        using ballot_outcome_answer [OF q [unfolded Inr']] .
      from run fh t1 \<open>x1 = Inr h\<close> q Inr' have "(let s3 = (if uses_ledger E (config s2) then log_event LedgerPrompt s2 else s2) in
        then_w (get_str ''tezos_client_options'' s3) (\<lambda>opts s4.
        then_w (get_str ''baker_alias'' s4) (\<lambda>alias s5.
        then_w (first_hash s5) (\<lambda>h' s6.
        then_w (get_str ''ballot_outcome'' s6) (\<lambda>outcome s7.
          (case run_cmd E (SubmitBallot opts alias h' outcome) s7 of
             (r, s8) \<Rightarrow> if returncode r \<noteq> 0 then ballot_failure (stderr r) s8 else (Inr (), s8))))))) = (r, s')"
        by (simp add: process_voting_period_def)
      then have "calls s' = calls s2 \<or> (\<exists>c a h. calls s' = calls s2 @ [SubmitBallot c a h v])"
        by (rule submit_ballot_calls [OF cfg])
      with c2 mem show ?thesis by metis
    qed
  qed
qed


lemma process_proposal_period_submissions:
  "\<exists>cs. calls (snd (process_proposal_period E s)) = calls s @ cs \<and> list_all is_proposal_submission cs"
proof (rule process_proposal_period_preserves [where P = "\<lambda>_. True"])
  fix s h s1 r s2
  assume "choose_proposal_hash E s = (Inr h, s1)" "submit_proposal E h s1 = (r, s2)"
  from proposal_round_effect [OF this]
  show "(\<exists>cs. calls s2 = calls s @ cs \<and> list_all is_proposal_submission cs) \<and> True"
    by auto
next
  fix s r s1
  assume "choose_proposal_hash E s = (r, s1)"
  from choose_proposal_hash_effect [OF this]
  show "\<exists>cs. calls s1 = calls s @ cs \<and> list_all is_proposal_submission cs" by simp
qed (auto simp: frame_simps)

lemma submissions_allowed:
  "list_all is_proposal_submission cs \<Longrightarrow> list_all (allowed Proposal) (List.map_filter abs_cmd cs)"
proof (induction cs)
  case Nil
  then show ?case by (simp add:)
next
  case (Cons c cs)
  then show ?case by (cases c) (simp_all add:)
qed

lemma ballot_allowed:
  assumes "p \<in> {Exploration, Promotion}"
    and "cs = [] \<or> (\<exists>c a h v. cs = [SubmitBallot c a h v] \<and> v \<in> set (map fst ballot_outcomes))"
  shows "period_spec p (List.map_filter abs_cmd cs)"
  using assms by (auto simp: period_spec_def ballot_outcomes_def)

text \<open>C25: \<open>dispatch_period\<close> refines the abstract period state machine of the spec: the
  commands it issues, read as abstract voting actions, are proposals only in the proposal
  period, at most one ballot with outcome \<open>yay\<close>, \<open>nay\<close> or \<open>pass\<close> in the
  exploration and promotion periods, and nothing in any other period.\<close>

theorem dispatch_period_refines:
  assumes ph: "config s ''amendment_phase'' = Some (CStr ph)"
  shows "\<exists>cs. calls (snd (dispatch_period E s)) = calls s @ cs \<and>
              period_spec (period_of ph) (List.map_filter abs_cmd cs)"
proof -
  let ?s2 = "log_event (PeriodAnnounced ph) s"
  have d: "dispatch_period E s =
             (if ph = ''proposal'' then process_proposal_period E ?s2
              else if ph \<in> {''exploration'', ''promotion''} then process_voting_period E ?s2
              else (Inr (), log_event VotingImpossible ?s2))"
    using ph by (simp add: dispatch_period_def Let_def)
  consider "ph = ''proposal''" | "ph \<in> {''exploration'', ''promotion''}" | "ph \<noteq> ''proposal''" "ph \<notin> {''exploration'', ''promotion''}"
    by blast
  then show ?thesis
  proof cases
    case 1
    with process_proposal_period_submissions [of E ?s2] obtain cs where
      "calls (snd (process_proposal_period E ?s2)) = calls s @ cs" "list_all is_proposal_submission cs"
      by (auto simp: frame_simps)
    with 1 d show ?thesis
      by (auto simp: period_spec_def period_of_def dest: submissions_allowed)
  next
    case 2
    obtain r s' where run: "process_voting_period E ?s2 = (r, s')" by fastforce
    from process_voting_period_calls [OF run]
    have "calls s' = calls s @ [] \<or> (\<exists>c a h v. calls s' = calls s @ [SubmitBallot c a h v] \<and> v \<in> set (map fst ballot_outcomes))"
      by (simp add: frame_simps)
    then obtain cs where cs: "calls s' = calls s @ cs"
      "cs = [] \<or> (\<exists>c a h v. cs = [SubmitBallot c a h v] \<and> v \<in> set (map fst ballot_outcomes))"
      by blast
    have p: "period_of ph \<in> {Exploration, Promotion}" using 2 by (auto simp: period_of_def)
    from 2 d run cs ballot_allowed [OF p cs(2)] show ?thesis by auto
  next
    case 3
    with d show ?thesis by (auto simp: frame_simps period_spec_def period_of_def)
  qed
qed

end
