(* ===== verification/Vote_Run.thy ===== *)
theory Vote_Run
  imports Period_Refinement
begin

text \<open>
  Properties of a whole run of the voting sequence \<open>vote\<close> (\<open>Setup.run_voting\<close> from
  line 464 of \<open>src/baking/src/tezos_baking/tezos_voting_wizard.py\<close>), composed from
  the ledger wait, the period query, the dispatch and the restart of the local baker: the
  commands each part adds to the log and what each part keeps of the store. The ledger
  waits are partial functions, so their lemmas are proved by fixpoint induction and hold of
  every run that returns.
\<close>

subsection \<open>The commands a run issues\<close>

text \<open>The ledger waits issue no action; the period query precedes the dispatch.\<close>

lemma then_o_SomeD:
  "then_o m f = Some (r, s') \<Longrightarrow>
     (\<exists>e. m = Some (Inl e, s') \<and> r = Inl e) \<or> (\<exists>a t. m = Some (Inr a, t) \<and> f a t = Some (r, s'))"
  by (auto simp: then_o_def split: option.splits sum.splits prod.splits)

lemma wait_ledger_loop_calls:
  "wait_ledger_loop E app dir out s = Some y \<Longrightarrow>
     \<exists>cs. calls (snd y) = calls s @ cs \<and> list_all (\<lambda>c. abs_cmd c = None) cs \<and> config (snd y) = config s"
proof (induction rule: wait_ledger_loop.raw_induct [rotated, consumes 1])
  case (1 loop E app dir out s y)
  show ?case
  proof (cases "ledger_app_found app out")
    case True
    with "1"(2) show ?thesis by auto
  next
    case False
    show ?thesis
    proof (cases "returncode (client E (Suc (tick s)) Sleep1) = 0")
      case True
      with False "1"(2) have "loop E app dir (stdout (client E (tick s) (ListConnectedLedgers dir)))
          (s\<lparr>tick := Suc (Suc (tick s)), calls := calls s @ [ListConnectedLedgers dir, Sleep1]\<rparr>) = Some y"
        by (simp add: run_cmd_def proc_call_def)
      from "1"(1) [OF this] obtain cs where
        "calls (snd y) = (calls s @ [ListConnectedLedgers dir, Sleep1]) @ cs" "list_all (\<lambda>c. abs_cmd c = None) cs"
        "config (snd y) = config s"
        by auto
      then show ?thesis by (intro exI [of _ "[ListConnectedLedgers dir, Sleep1] @ cs"]) simp
    next
      case False
      with \<open>\<not> ledger_app_found app out\<close> "1"(2) show ?thesis
        by (auto simp: run_cmd_def proc_call_def)
    qed
  qed
qed

lemma wait_for_ledger_app_calls:
  "wait_for_ledger_app E app dir s = Some (r, s') \<Longrightarrow>
     \<exists>cs. calls s' = calls s @ cs \<and> list_all (\<lambda>c. abs_cmd c = None) cs \<and> config s' = config s"
  unfolding wait_for_ledger_app_def by (drule wait_ledger_loop_calls) (simp add: frame_simps)

lemma ledger_wallet_wait_calls:
  "ledger_wallet_wait E s = Some (r, s') \<Longrightarrow>
     \<exists>cs. calls s' = calls s @ cs \<and> list_all (\<lambda>c. abs_cmd c = None) cs \<and> config s' = config s"
  by (auto simp: ledger_wallet_wait_def split: if_splits prod.splits sum.splits
      dest!: get_str_state wait_for_ledger_app_calls)

lemma restart_local_baker_calls:
  "restart_local_baker E s = Some (r, s') \<Longrightarrow> \<exists>cs. calls s' = calls s @ cs \<and> config s' = config s"
  by (auto simp: restart_local_baker_def then_o_def then_w_def proc_call_def run_cmd_def frame_simps
      split: if_splits prod.splits sum.splits option.splits dest!: get_str_state wait_for_ledger_app_calls)

lemma dispatch_period_calls: "dispatch_period E s = (r, s') \<Longrightarrow> \<exists>cs. calls s' = calls s @ cs"
proof (cases "get_str ''amendment_phase'' s")
  case (Pair a s1)
  assume run: "dispatch_period E s = (r, s')"
  show ?thesis
  proof (cases a)
    case (Inl e)
    with Pair run show ?thesis by (auto simp: dispatch_period_def then_w_def dest!: get_str_state)
  next
    case (Inr phase)
    let ?s2 = "log_event (PeriodAnnounced phase) s1"
    have c1: "calls ?s2 = calls s" using Pair by (auto dest!: get_str_state simp: frame_simps)
    have d: "(if phase = ''proposal'' then process_proposal_period E ?s2
        else if phase \<in> {''exploration'', ''promotion''} then process_voting_period E ?s2
        else (Inr (), log_event VotingImpossible ?s2)) = (r, s')"
      using run Pair Inr by (simp add: dispatch_period_def then_w_def Let_def)
    show ?thesis
    proof (cases "phase = ''proposal''")
      case True
      with d c1 process_proposal_period_submissions [of E ?s2] show ?thesis by auto
    next
      case False
      with d c1 show ?thesis
        by (auto simp: frame_simps split: if_splits dest!: process_voting_period_calls)
    qed
  qed
qed

lemma fill_voting_period_info_calls:
  "fill_voting_period_info E s = (r, s') \<Longrightarrow>
     (calls s' = calls s \<and> isl r) \<or> (\<exists>c. calls s' = calls s @ [ShowVotingPeriod c])"
  by (auto simp: fill_voting_period_info_def then_w_def run_cmd_def proc_call_def frame_simps
      split: prod.splits sum.splits option.splits if_splits dest!: get_str_state)

lemma fill_dispatch_calls:
  assumes "then_w (fill_voting_period_info E s) (\<lambda>_ s3. dispatch_period E s3) = (r, t)"
  shows "(calls t = calls s \<and> isl r) \<or> (\<exists>c m. calls t = calls s @ ShowVotingPeriod c # m)"
proof (cases "fill_voting_period_info E s")
  case (Pair a s3)
  show ?thesis
  proof (cases a)
    case (Inl e)
    with Pair assms fill_voting_period_info_calls [OF Pair] show ?thesis by (auto simp: then_w_def)
  next
    case (Inr u)
    with Pair assms have "dispatch_period E s3 = (r, t)" by (simp add: then_w_def)
    from dispatch_period_calls [OF this] fill_voting_period_info_calls [OF Pair] Inr show ?thesis by auto
  qed
qed

lemma vote_calls:
  assumes "vote E s = Some (r, s')"
  shows "\<exists>w rest. calls s' = calls s @ w @ rest \<and> list_all (\<lambda>c. abs_cmd c = None) w \<and>
           (rest = [] \<or> (\<exists>c m. rest = ShowVotingPeriod c # m))"
proof -
  let ?s1 = "set_config ''tezos_client_options'' (CStr (client_options E (config s))) s"
  from assms have "then_o (ledger_wallet_wait E ?s1) (\<lambda>_ s2.
      then_o (Some (then_w (fill_voting_period_info E s2) (\<lambda>_ s3. dispatch_period E s3))) (\<lambda>_ s4.
      then_o (restart_local_baker E s4) (\<lambda>_ s5. Some (Inr (), log_event ThankYou s5)))) = Some (r, s')"
    by (simp add: vote_def)
  from then_o_SomeD [OF this] show ?thesis
  proof (elim disjE exE conjE)
    fix e assume "ledger_wallet_wait E ?s1 = Some (Inl e, s')"
    from ledger_wallet_wait_calls [OF this] obtain cs where
      "calls s' = calls s @ cs" "list_all (\<lambda>c. abs_cmd c = None) cs" by (auto simp: frame_simps)
    then show ?thesis by (intro exI [of _ cs] exI [of _ "[]"]) simp
  next
    fix a s2
    assume w: "ledger_wallet_wait E ?s1 = Some (Inr a, s2)"
      and rest: "then_o (Some (then_w (fill_voting_period_info E s2) (\<lambda>_ s3. dispatch_period E s3))) (\<lambda>_ s4.
      then_o (restart_local_baker E s4) (\<lambda>_ s5. Some (Inr (), log_event ThankYou s5))) = Some (r, s')"
    from ledger_wallet_wait_calls [OF w] obtain w where
      cw: "calls s2 = calls s @ w" "list_all (\<lambda>c. abs_cmd c = None) w" by (auto simp: frame_simps)
    obtain r4 s4 where fd: "then_w (fill_voting_period_info E s2) (\<lambda>_ s3. dispatch_period E s3) = (r4, s4)"
      by fastforce
    have tail: "\<exists>cs. calls s' = calls s4 @ cs \<or> (calls s' = calls s4 \<and> isl r4)"
      using rest fd
      by (auto simp: then_o_def frame_simps split: sum.splits option.splits prod.splits
          dest!: restart_local_baker_calls)
    from fill_dispatch_calls [OF fd] show ?thesis
    proof (elim disjE exE conjE)
      assume "calls s4 = calls s2" "isl r4"
      with rest fd have "calls s' = calls s2" by (auto simp: then_o_def split: sum.splits)
      with cw show ?thesis by (intro exI [of _ w] exI [of _ "[]"]) simp
    next
      fix c m assume s4: "calls s4 = calls s2 @ ShowVotingPeriod c # m"
      from tail obtain cs where "calls s' = calls s4 @ cs" by (metis append_Nil2)
      with s4 cw(1) have "calls s' = calls s @ w @ (ShowVotingPeriod c # m @ cs)" by simp
      with cw(2) show ?thesis by blast
    qed
  qed
qed

lemma action_after_marker:
  assumes "xs @ c # ys = w @ m # rest" "list_all (\<lambda>c. abs_cmd c = None) w" "abs_cmd m = None"
    "abs_cmd c \<noteq> None"
  shows "m \<in> set xs"
  using assms(1) unfolding append_eq_append_conv2
proof (elim exE disjE conjE)
  fix us assume "xs = w @ us" "us @ c # ys = m # rest"
  with assms(3,4) show ?thesis by (cases us) auto
next
  fix us assume "xs @ us = w" "c # ys = us @ m # rest"
  with assms(2-4) show ?thesis by (cases us) (auto simp: list_all_iff)
qed

text \<open>C29: in every run of \<open>vote\<close> that returns, each proposal or ballot command the
  wizard issues comes after a \<open>show voting period\<close> query: the period is always read from
  the node before the baker acts on it (lines 464--500).\<close>

theorem vote_period_before_actions:
  "vote E s = Some (r, s') \<Longrightarrow>
     \<exists>cs. calls s' = calls s @ cs \<and>
       (\<forall>xs c ys. cs = xs @ c # ys \<longrightarrow> abs_cmd c \<noteq> None \<longrightarrow> (\<exists>opts. ShowVotingPeriod opts \<in> set xs))"
proof -
  assume "vote E s = Some (r, s')"
  from vote_calls [OF this] obtain w rest where
    c: "calls s' = calls s @ w @ rest" and w: "list_all (\<lambda>c. abs_cmd c = None) w"
    and rest: "rest = [] \<or> (\<exists>c m. rest = ShowVotingPeriod c # m)" by blast
  show ?thesis
  proof (rule exI [of _ "w @ rest"], intro conjI allI impI)
    show "calls s' = calls s @ (w @ rest)" by (rule c)
  next
    fix xs c ys assume split: "w @ rest = xs @ c # ys" and act: "abs_cmd c \<noteq> None"
    from rest show "\<exists>opts. ShowVotingPeriod opts \<in> set xs"
    proof (elim disjE exE)
      assume "rest = []"
      with split w act show ?thesis by (auto simp: list_all_iff)
    next
      fix o' m assume "rest = ShowVotingPeriod o' # m"
      with split w act have "ShowVotingPeriod o' \<in> set xs"
        by (intro action_after_marker [where ys = ys and c = c and rest = m]) auto
      then show ?thesis ..
    qed
  qed
qed

subsection \<open>The store a run leaves\<close>

text \<open>Only \<open>fill_voting_period_info\<close> writes \<open>proposal_hashes\<close>; the steps write their own
  fields, and the client calls and events leave the store alone.\<close>

lemma query_step_config_other:
  "query_step E st s = (r, s') \<Longrightarrow> k \<noteq> step_id st \<Longrightarrow> config s' k = config s k"
  by (cases r) (auto dest: query_step_Inl_config query_step_state(1))

lemma query_step_ids:
  "step_id (get_proposal_period_hash hs) = ''chosen_hash''" "step_id new_proposal_query = ''new_proposal_hash''"
  "step_id ballot_outcome_query = ''ballot_outcome''"
  by (simp_all add: get_proposal_period_hash_def new_proposal_query_def ballot_outcome_query_def)

lemma choose_proposal_hash_keeps:
  assumes "choose_proposal_hash E s = (r, s')"
  shows "config s' ''proposal_hashes'' = config s ''proposal_hashes''"
proof -
  obtain x1 s1 where g: "get_list ''proposal_hashes'' s = (x1, s1)" by fastforce
  then have s1: "s1 = s" by (rule get_list_state)
  show ?thesis
  proof (cases x1)
    case Inl with assms g s1 show ?thesis by (simp add: choose_proposal_hash_def then_w_def)
  next
    case (Inr hashes)
    obtain x2 s2 where q: "query_step E (get_proposal_period_hash hashes) s1 = (x2, s2)" by fastforce
    have c2: "config s2 ''proposal_hashes'' = config s ''proposal_hashes''"
      using query_step_config_other [OF q] s1 by (simp add: query_step_ids)
    show ?thesis
    proof (cases x2)
      case Inl with assms g s1 Inr q c2 show ?thesis by (simp add: choose_proposal_hash_def then_w_def)
    next
      case (Inr u)
      obtain x3 s3 where g3: "get_str ''chosen_hash'' s2 = (x3, s3)" by fastforce
      then have s3: "s3 = s2" by (rule get_str_state)
      have rest: "then_w (get_str ''chosen_hash'' s2) (\<lambda>chosen s3.
          if chosen = new_hash_option
          then then_w (query_step E new_proposal_query s3) (\<lambda>_ s4. get_str ''new_proposal_hash'' s4)
          else (Inr chosen, s3)) = (r, s')"
        using assms g s1 \<open>x1 = Inr hashes\<close> q Inr by (simp add: choose_proposal_hash_def then_w_def)
      obtain x4 s4 where q4: "query_step E new_proposal_query s3 = (x4, s4)" by fastforce
      have c4: "config s4 ''proposal_hashes'' = config s ''proposal_hashes''"
        using query_step_config_other [OF q4] s3 c2 by (simp add: query_step_ids)
      from rest g3 s3 q4 c2 c4 show ?thesis
        by (auto simp: then_w_def split: sum.splits if_splits prod.splits dest!: get_str_state)
    qed
  qed
qed

lemma submit_proposal_config: "submit_proposal E h s = (r, s') \<Longrightarrow> config s' = config s"
  by (auto simp: submit_proposal_def Let_def then_w_def run_cmd_def frame_simps split: prod.splits sum.splits
      dest!: get_str_state)

lemma process_proposal_period_keeps:
  "config (snd (process_proposal_period E s)) ''proposal_hashes'' = config s ''proposal_hashes''"
  by (rule process_proposal_period_preserves [where P = "\<lambda>_. True"])
    (auto simp: frame_simps dest!: choose_proposal_hash_keeps submit_proposal_config)

lemma ballot_failure_config: "ballot_failure err s = (r, s') \<Longrightarrow> config s' = config s"
  by (auto simp: ballot_failure_def Let_def then_w_def frame_simps split: if_splits prod.splits sum.splits
      dest: get_str_state)

lemma process_voting_period_keeps:
  "process_voting_period E s = (r, s') \<Longrightarrow> config s' ''proposal_hashes'' = config s ''proposal_hashes''"
  by (auto simp: process_voting_period_def Let_def then_w_def run_cmd_def frame_simps ballot_outcome_query_def
      split: prod.splits sum.splits if_splits dest!: get_str_state first_hash_state ballot_failure_config
      dest: query_step_config_other [where k = "''proposal_hashes''"])

lemma dispatch_period_keeps:
  assumes run: "dispatch_period E s = (r, s')"
  shows "config s' ''proposal_hashes'' = config s ''proposal_hashes''"
proof (cases "get_str ''amendment_phase'' s")
  case (Pair a s1)
  then have s1: "s1 = s" by (rule get_str_state)
  show ?thesis
  proof (cases a)
    case Inl
    with Pair s1 run show ?thesis by (simp add: dispatch_period_def then_w_def)
  next
    case (Inr phase)
    let ?s2 = "log_event (PeriodAnnounced phase) s1"
    have d: "(if phase = ''proposal'' then process_proposal_period E ?s2
        else if phase \<in> {''exploration'', ''promotion''} then process_voting_period E ?s2
        else (Inr (), log_event VotingImpossible ?s2)) = (r, s')"
      using run Pair Inr by (simp add: dispatch_period_def then_w_def Let_def)
    then show ?thesis
      using process_proposal_period_keeps [of E ?s2] s1
      by (auto simp: frame_simps split: if_splits dest!: process_voting_period_keeps)
  qed
qed

lemma fill_voting_period_info_valid:
  "fill_voting_period_info E s = (Inr u, s') \<Longrightarrow> hashes_valid s'"
  by (auto simp: fill_voting_period_info_def then_w_def run_cmd_def frame_simps hashes_valid_def
      findall_hashes_well_formed split: prod.splits sum.splits option.splits if_splits dest!: get_str_state)

text \<open>C30: a run of \<open>vote\<close> that ends normally leaves a store whose
  \<open>proposal_hashes\<close> entry is a list of protocol hashes, whatever the store held
  before: it is the scan of the last status output, and neither sub-workflow nor the
  restart changes it.\<close>

theorem vote_hashes_valid:
  assumes "vote E s = Some (Inr (), s')"
  shows "hashes_valid s'"
proof -
  let ?s1 = "set_config ''tezos_client_options'' (CStr (client_options E (config s))) s"
  from assms have "then_o (ledger_wallet_wait E ?s1) (\<lambda>_ s2.
      then_o (Some (then_w (fill_voting_period_info E s2) (\<lambda>_ s3. dispatch_period E s3))) (\<lambda>_ s4.
      then_o (restart_local_baker E s4) (\<lambda>_ s5. Some (Inr (), log_event ThankYou s5)))) = Some (Inr (), s')"
    by (simp add: vote_def)
  then obtain s2 s4 s5 where fd: "then_w (fill_voting_period_info E s2) (\<lambda>_ s3. dispatch_period E s3) = (Inr (), s4)"
    and rs: "restart_local_baker E s4 = Some (Inr (), s5)" and s': "s' = log_event ThankYou s5"
    by (auto dest!: then_o_SomeD)
  obtain x3 s3 where f: "fill_voting_period_info E s2 = (x3, s3)" by fastforce
  with fd obtain u where x3: "x3 = Inr u" and d: "dispatch_period E s3 = (Inr (), s4)"
    by (cases x3) (auto simp: then_w_def)
  from fill_voting_period_info_valid [OF f [unfolded x3]] dispatch_period_keeps [OF d]
  have v4: "hashes_valid s4" by (simp add: hashes_valid_def)
  with rs s' show ?thesis by (auto simp: hashes_valid_def frame_simps dest!: restart_local_baker_calls)
qed

end
