(* ===== verification/Flake_Update.thy ===== *)
theory Flake_Update
  imports Packaging
begin

text \<open>
  The flake input updater (\<open>src/scripts/update-input.py\<close>): for the input named on the
  command line, every line of \<open>flake.nix\<close> has its URL
  \<open><name>.url = "<type>:<owner>/<repo>..."\<close> replaced by the locked type, owner and
  repository of \<open>flake.lock\<close> and the new revision, then \<open>nix flake lock\<close> runs.
  The file is opened for writing (which empties it) before the loop reads the lock entry.
  The pattern is built by interpolating the name and the locked fields into a regular
  expression; the model reads them as literals, which is what they are for the names and
  repositories made of letters, digits, \<open>-\<close> and \<open>_\<close> that flakes use.
\<close>

subsection \<open>The substitution on one line (lines 24--31)\<close>

text \<open>\<open>[ ]*\<close>: the run of spaces at the start of a string is skipped.\<close>

definition skip_spaces :: "string \<Rightarrow> string" where
  "skip_spaces s = dropWhile (\<lambda>c. c = CHR '' '') s"

text \<open>
  The pattern \<open>name\.url[ ]*=[ ]*"type:owner\/repo.*$\<close> at the start of a string:
  on a match, the text after it. \<open>.*\<close> takes every character but a newline and
  \<open>$\<close> matches at the end or before a final newline, so what is left is the empty
  string or that final newline.
\<close>

definition match_url :: "string \<Rightarrow> string \<Rightarrow> string \<Rightarrow> string \<Rightarrow> string \<Rightarrow> string option" where
  "match_url name ty owner repo s =
     (let key = name @ ''.url''; src = CHR 0x22 # ty @ '':'' @ owner @ ''/'' @ repo in
      if \<not> prefix key s then None
      else (let s1 = skip_spaces (drop (length key) s) in
            if take 1 s1 \<noteq> ''='' then None
            else (let s2 = skip_spaces (drop 1 s1) in
                  if \<not> prefix src s2 then None
                  else (let rest = drop (length src) s2; body = takeWhile (\<lambda>c. c \<noteq> newline ! 0) rest;
                            trail = drop (length body) rest
                        in if trail = [] \<or> trail = newline then Some trail else None))))"

definition url_line :: "string \<Rightarrow> string \<Rightarrow> string \<Rightarrow> string \<Rightarrow> string \<Rightarrow> string" where
  "url_line name ty owner repo revision = name @ ''.url = '' @ [CHR 0x22] @ ty @ '':'' @ owner @ ''/'' @ repo @ ''/'' @ revision @ [CHR 0x22, CHR '';'']"

text \<open>\<open>re.sub\<close>: the leftmost match is replaced; what follows it, a newline at most, cannot
  match again.\<close>

fun sub_line :: "string \<Rightarrow> string \<Rightarrow> string \<Rightarrow> string \<Rightarrow> string \<Rightarrow> string \<Rightarrow> string" where
  "sub_line name ty owner repo revision [] = []"
| "sub_line name ty owner repo revision (c # cs) =
     (case match_url name ty owner repo (c # cs) of
        Some trail \<Rightarrow> url_line name ty owner repo revision @ trail
      | None \<Rightarrow> c # sub_line name ty owner repo revision cs)"

subsection \<open>The script (lines 10--33)\<close>

text \<open>\<open>lock[name]["locked"]\<close>: the locked fields of a node of \<open>flake.lock\<close>.\<close>

type_synonym flake_lock = "string \<Rightarrow> (string \<Rightarrow> string option) option"

datatype flake_effect = TruncateFlake | WriteLine string | NixLockUpdate string

text \<open>Each iteration reads \<open>meta["type"]\<close>, \<open>meta["owner"]\<close> and \<open>meta["repo"]\<close>
  before writing its line; the first missing key raises \<open>KeyError\<close>.\<close>

definition locked_fields :: "flake_lock \<Rightarrow> string \<Rightarrow> pkg_error + (string \<times> string \<times> string)" where
  "locked_fields lock name =
     (case lock name of None \<Rightarrow> Inl (KeyError name)
      | Some meta \<Rightarrow>
          (case meta ''type'' of None \<Rightarrow> Inl (KeyError ''type'') | Some ty \<Rightarrow>
           (case meta ''owner'' of None \<Rightarrow> Inl (KeyError ''owner'') | Some owner \<Rightarrow>
            (case meta ''repo'' of None \<Rightarrow> Inl (KeyError ''repo'') | Some repo \<Rightarrow> Inr (ty, owner, repo)))))"

definition update_input :: "flake_lock \<Rightarrow> string \<Rightarrow> string \<Rightarrow> string list \<Rightarrow> (pkg_error + unit) \<times> flake_effect list" where
  "update_input lock name revision lines =
     (if lines = [] then (Inr (), [TruncateFlake, NixLockUpdate name])
      else (case locked_fields lock name of
              Inl e \<Rightarrow> (Inl e, [TruncateFlake])
            | Inr (ty, owner, repo) \<Rightarrow>
                (Inr (), TruncateFlake # map (\<lambda>l. WriteLine (sub_line name ty owner repo revision l)) lines @
                         [NixLockUpdate name])))"

text \<open>The content of \<open>flake.nix\<close> after the effects, from its content \<open>f\<close>
  before them: opening it for writing empties it and each write appends a line.\<close>

fun flake_after :: "string \<Rightarrow> flake_effect list \<Rightarrow> string" where
  "flake_after f [] = f"
| "flake_after f (TruncateFlake # es) = flake_after [] es"
| "flake_after f (WriteLine l # es) = flake_after (f @ l) es"
| "flake_after f (NixLockUpdate n # es) = flake_after f es"

subsection \<open>Lemmas\<close>

lemma match_url_url_line:
  assumes "CHR 0x0A \<notin> set tail"
  shows "match_url name ty owner repo (name @ ''.url = '' @ [CHR 0x22] @ ty @ '':'' @ owner @ ''/'' @ repo @ tail @ newline)
           = Some newline"
proof -
  have sp: "skip_spaces ('' = '' @ xs) = ''= '' @ xs" "skip_spaces ('' '' @ CHR 0x22 # ys) = CHR 0x22 # ys" for xs ys
    by (simp_all add: skip_spaces_def)
  have tw: "takeWhile (\<lambda>c. c \<noteq> CHR 0x0A) (tail @ [CHR 0x0A]) = tail"
    using assms by (induction tail) auto
  show ?thesis
    using sp tw by (simp add: match_url_def Let_def newline_def)
qed

lemma match_url_prefix: "match_url name ty owner repo s = Some t \<Longrightarrow> prefix (name @ ''.url'') s"
  by (simp add: match_url_def Let_def split: if_splits)

lemma sub_line_spaces:
  assumes "set ind \<subseteq> {CHR '' ''}" "name \<noteq> []" "hd name \<noteq> CHR '' ''"
  shows "sub_line name ty owner repo revision (ind @ l) = ind @ sub_line name ty owner repo revision l"
  using assms(1)
proof (induction ind)
  case Nil
  then show ?case by simp
next
  case (Cons c ind)
  then have c: "c = CHR '' ''" by simp
  have "match_url name ty owner repo (c # ind @ l) = None"
  proof (rule ccontr)
    assume "match_url name ty owner repo (c # ind @ l) \<noteq> None"
    then obtain t where "match_url name ty owner repo (c # ind @ l) = Some t" by blast
    from match_url_prefix [OF this] assms(2,3) c show False by (cases name) auto
  qed
  with Cons show ?case by simp
qed

lemma sub_line_no_key:
  "\<not> contains (name @ ''.url'') l \<Longrightarrow> sub_line name ty owner repo revision l = l"
proof (induction l)
  case Nil
  then show ?case by simp
next
  case (Cons c cs)
  have "match_url name ty owner repo (c # cs) = None"
  proof (rule ccontr)
    assume "match_url name ty owner repo (c # cs) \<noteq> None"
    then obtain t where "match_url name ty owner repo (c # cs) = Some t" by blast
    from match_url_prefix [OF this] have "sublist (name @ ''.url'') (c # cs)" by (rule prefix_imp_sublist)
    with Cons.prems show False by (simp add: contains_sublist)
  qed
  moreover have "\<not> contains (name @ ''.url'') cs"
    using Cons.prems by (auto simp: contains_sublist sublist_Cons_right)
  ultimately show ?case using Cons.IH by simp
qed

lemma flake_after_writes:
  "flake_after g (map (\<lambda>l. WriteLine (f l)) ls @ [NixLockUpdate n]) = g @ concat (map f ls)"
  by (induction ls arbitrary: g) simp_all

text \<open>C26: a URL line of the input, indented by spaces, with any tail up to the end of the
  line, is rewritten to the locked type, owner and repository with the new revision, the
  indentation and the final newline kept.\<close>
theorem sub_line_updates_url:
  assumes "set ind \<subseteq> {CHR '' ''}" "name \<noteq> []" "hd name \<noteq> CHR '' ''" "CHR 0x0A \<notin> set tail"
  shows "sub_line name ty owner repo revision
           (ind @ name @ ''.url = '' @ [CHR 0x22] @ ty @ '':'' @ owner @ ''/'' @ repo @ tail @ newline)
         = ind @ url_line name ty owner repo revision @ newline"
proof -
  obtain c cs where "name @ ''.url = '' @ [CHR 0x22] @ ty @ '':'' @ owner @ ''/'' @ repo @ tail @ newline = c # cs"
    using assms(2) by (cases name) auto
  then show ?thesis
    using sub_line_spaces [OF assms(1-3)] match_url_url_line [OF assms(4), of name ty owner repo]
    by (metis sub_line.simps(2) option.simps(5))
qed

text \<open>C27: when the input has no locked type, owner or repository in \<open>flake.lock\<close>
  (or no node at all), the script fails with \<open>KeyError\<close> after \<open>flake.nix\<close> was
  opened for writing and before any line was written back: whatever \<open>flake.nix\<close> held
  (its lines \<open>lines\<close>), it is left empty, and the lock is not updated.\<close>
theorem update_input_missing_truncates:
  assumes "isl (locked_fields lock name)" "lines \<noteq> []"
  shows "fst (update_input lock name revision lines) = Inl (projl (locked_fields lock name)) \<and>
         flake_after (concat lines) (snd (update_input lock name revision lines)) = [] \<and>
         NixLockUpdate name \<notin> set (snd (update_input lock name revision lines))"
  using assms by (cases "locked_fields lock name") (auto simp: update_input_def)

text \<open>C28: on success \<open>flake.nix\<close> holds the substituted lines in order, and every
  line that does not mention \<open><name>.url\<close> is written back unchanged.\<close>
theorem update_input_keeps_other_lines:
  assumes "update_input lock name revision lines = (Inr (), effs)"
    and "locked_fields lock name = Inr (ty, owner, repo)"
  shows "flake_after (concat lines) effs = concat (map (sub_line name ty owner repo revision) lines) \<and>
         (\<forall>l \<in> set lines. \<not> contains (name @ ''.url'') l \<longrightarrow> sub_line name ty owner repo revision l = l)"
  using assms
  by (auto simp: update_input_def sub_line_no_key flake_after_writes split: if_splits)

end
