(* ===== verification/Spec2Isabelle.thy ===== *)
theory Spec2Isabelle
  imports Command_Lines Vote_Run Flake_Update
begin
text \<open>
  \<^bold>\<open>A verification library for the Tezos voting wizard and its packaging scripts.\<close>

  The main program is \<open>src/baking/src/tezos_baking/tezos_voting_wizard.py\<close>, an
  interactive wizard that helps a baker vote on a protocol amendment: it finds or sets up
  the baker's client environment, reads the current voting period from
  \<open>octez-client show voting period\<close>, and submits a proposal (proposal period) or a
  ballot (exploration and promotion periods) through \<open>octez-client\<close>, classifying a
  failed submission from the client's error output. It is built on an engine that is not
  under \<open>src/\<close> (\<open>wizard_structure.py\<close>, \<open>validators.py\<close>, \<open>util.py\<close>,
  \<open>steps.py\<close>); the parts of it the wizard relies on are modelled from the spec, or
  are parameters with contracts, and are marked so in the manifest. The other sources
  are the packaging scripts: \<open>docker/package/package_generator.py\<close> builds source or
  binary packages, \<open>docker/package/util/sign.py\<close> signs them,
  \<open>docker/package/util/upload.py\<close> uploads them to Launchpad and Copr,
  \<open>docker/docker-tezos-packages.py\<close> chains build, signing and upload, and
  \<open>scripts/update-input.py\<close> moves a flake input to a new revision.

  \<^bold>\<open>Theories, in import order.\<close>
  \<^item> \<open>Wizard_Prelude\<close>: the configuration store's value type (\<open>cval\<close>,
    \<open>config\<close>), literal substring search \<open>contains\<close> (how every \<open>re.search\<close>
    of a literal is read) and its equivalence with \<open>sublist\<close>, ASCII lower-casing,
    character classes, decimal rendering, and the collections \<open>frame_simps\<close> and
    \<open>classify_simps\<close>.
  \<^item> \<open>Validators\<close> (spec section 4.2): the checks as the datatype \<open>vcheck\<close> run by
    \<open>run_check\<close>, and the chain \<open>run_validator\<close>, which stops at the first
    rejection; the contracts of \<open>enum_range\<close>, \<open>protocol_hash\<close> and \<open>any_of\<close>.
  \<^item> \<open>Client_Adapter\<close> (spec section 6): the commands as the datatype \<open>cmd\<close>, the
    \<open>CompletedProcess\<close> record, the period parser \<open>search_period\<close> (line 317), the
    hash scanner \<open>findall_hashes\<close> (line 320), and the failure classifiers of lines
    348--389 and 421--454.
  \<^item> \<open>Wizard_Engine\<close> (spec sections 3, 4.1, 7): the run's state \<open>wstate\<close>
    (store, unread input lines, a clock counting external calls, the commands issued, the
    reports shown), the environment \<open>wenv\<close> (the client as a function of clock and
    command, the URL probe, the networks, \<open>get_tezos_client_options\<close> and
    \<open>check_ledger_use\<close>), results \<open>'a outcome\<close> (exception or value, with the
    state reached) sequenced by \<open>then_w\<close>, processes (\<open>run_cmd\<close>,
    \<open>proc_call\<close>), and \<open>query_step\<close>, the prompt loop of a \<open>step\<close>.
  \<^item> \<open>Voting_Controller\<close>: the definitions of the wizard in its order: option tables
    (lines 24--36), \<open>wait_for_ledger_app\<close> (lines 70--85), the steps (lines 90--186),
    \<open>check_baking_service\<close>, \<open>get_network\<close>, \<open>fill_voting_period_info\<close>,
    \<open>process_proposal_period\<close> (split at the source's seams into
    \<open>choose_proposal_hash\<close>, \<open>submit_proposal\<close> and the classification),
    \<open>process_voting_period\<close> with \<open>ballot_failure\<close>, \<open>run_voting\<close> from line 464
    as \<open>vote\<close>, and \<open>main\<close>'s exit status; the generic rule
    \<open>process_proposal_period_preserves\<close> carries a relation through the proposal
    recursion.
  \<^item> \<open>Baking_Setup\<close> (lines 189--292, spec section 4.3): \<open>check_data_correctness\<close>,
    \<open>search_client_config\<close>, \<open>collect_baking_info\<close> with both branches and its
    confirmation loop, \<open>get_baker_key\<close>, and the whole run \<open>run_voting\<close>
    (\<open>get_network\<close>, \<open>collect_baking_info\<close>, \<open>vote\<close>) with \<open>main_status\<close>.
    The helpers it calls from outside \<open>src/\<close> are the interface record \<open>benv\<close>;
    its lemmas hold for every implementation that meets the stated contracts, and the
    fixture \<open>demo_benv\<close> below meets them.
  \<^item> \<open>Period_Refinement\<close> (spec section 4.4): the abstract machine of the four periods
    and two actions (\<open>period_spec\<close>), the reading of client commands as actions
    (\<open>abs_cmd\<close>), and the refinement of it by \<open>dispatch_period\<close>.
  \<^item> \<open>Vote_Run\<close>: a whole run of \<open>vote\<close> (ledger wait, period query, dispatch, restart)
    composed from the components' frame lemmas: the commands each part adds to the log
    and the store keys each part writes.
  \<^item> \<open>Packaging\<close>: \<open>package_generator.py\<close> (\<open>pg_main\<close> with the dependency lists,
    the source archives and the artifact copy), \<open>sign.py\<close> (\<open>sign_fill_args\<close>,
    \<open>sign_main\<close>), \<open>upload.py\<close> (\<open>upload_main\<close>) and the driver
    \<open>driver_main\<close>, each a function from arguments and environment to the list of
    actions performed and the exit, with \<open>os.path.join\<close> and \<open>str.endswith\<close>.
  \<^item> \<open>Flake_Update\<close>: \<open>update-input.py\<close> as the per-line substitution
    \<open>sub_line\<close> and the sequence of file effects of \<open>update_input\<close>.
  \<^item> \<open>Arg_Parse\<close>: the part of Python 3.11's \<open>argparse\<close> and \<open>posixpath\<close> the
    scripts' command lines go through, as library semantics (not code of the repository):
    \<open>normpath\<close> and \<open>abspath\<close>; argument declarations \<open>arg_spec\<close> built by
    \<open>add_argument\<close>; the reading of one string (\<open>classify_arg\<close>, after
    \<open>_parse_optional\<close>: exact flags, \<open>--flag=value\<close>, unique prefixes, negative
    numbers), the flag clusters \<open>-xyz\<close> (\<open>opt_chain\<close>), \<open>nargs\<close> matching
    (\<open>nargs_take\<close>), values with \<open>type\<close>, \<open>choices\<close> and \<open>const\<close>
    (\<open>arg_values\<close>), the main loop \<open>consume\<close>, defaults, required arguments, and
    \<open>parse_args\<close>, whose errors are \<open>SystemExit 2\<close> (and \<open>SystemExit 0\<close> for
    \<open>--help\<close>). The automatic help action is argument 0, so declared argument
    \<open>k\<close> has index \<open>Suc k\<close>. The model was compared with CPython 3.11.10 on
    generated command lines for these parsers. Its lemmas: every token and action names a
    declared argument; generic preservation rules for the main loop
    (\<open>consume_preserves\<close>) from which the namespace's keys and each attribute's value
    (\<open>parse_args_value\<close>: a value its action stores or its converted default) follow;
    \<open>nargs='+'\<close> never stores an empty list; and reading appended options.
  \<^item> \<open>Command_Lines\<close>: every \<open>add_argument\<close> sequence of the sources as a list of
    \<open>arg_spec\<close> (\<open>sign_parser\<close>, \<open>upload_parser\<close>, \<open>pg_parser\<close>,
    \<open>driver_parser\<close> over the parameter \<open>build.parser\<close>, \<open>network_parser\<close>),
    the \<open>fill_args\<close> steps from the namespace to the scripts' arguments, and each
    entry point as the composition of \<open>parse_args\<close> with \<open>main\<close>
    (\<open>sign_script\<close>, \<open>upload_script\<close>, \<open>pg_script\<close>,
    \<open>driver_script\<close>, and \<open>wizard_exit\<close>, the exit status of \<open>tezos-vote\<close>
    whose parser runs at module load, line 50). The wizard's parser itself comes from
    \<open>wizard_structure.py\<close> and is taken to be a plain \<open>ArgumentParser()\<close>.
  \<^item> This theory: fixtures (an environment whose client answers every command with one
    result, a store with the client options, the alias and one proposal hash, helper
    implementations, packaging inputs, a flake lock) and the witnesses of the claims.

  \<^bold>\<open>Loops, fuel and termination.\<close> A loop that waits for the operator reads input
  each round, so it is recursion on the unread lines: \<open>answer_loop\<close> is structural,
  and \<open>process_proposal_period\<close> is a \<^theory_text>\<open>function\<close> whose measure is the number
  of unread lines. The argument reader's main loop \<open>consume\<close> terminates on the number
  of tokens left and the flag-cluster reader \<open>opt_chain\<close> on the length of the cluster. The confirmation loop of the setup calls helpers outside \<open>src/\<close>,
  so it is a \<^theory_text>\<open>partial_function\<close> (option) over its body \<open>confirm_round\<close>;
  that it ends, and that it ends normally exactly after a round whose confirmation says
  yes, is a theorem under the contract that each confirmation reads a line. The ledger poll waits for the world
  and has no time-out; it is a \<^theory_text>\<open>partial_function\<close> (option), proved to return
  when the app shows up and proved not to return (\<open>None\<close>) when it never does. No fuel
  or bound is chosen. The packaging loops are maps over finite lists.

  \<^bold>\<open>What is proved.\<close> In the wizard: the ballot-failure handling (an unauthorized
  ballot is reported and still aborts, the \<open>else\<close> of line 432 binding to the second
  \<open>if\<close>), the proposal-failure classes, the sentinel path, the steps' validators, the
  period and hash parsers (round trips), what \<open>fill_voting_period_info\<close> stores and
  when it cancels, that every submitted proposal carries a protocol hash and that the
  number of submissions is bounded by the input, the ledger wait's liveness and
  divergence, the setup's confirmation loop (it ends, and normally only on a confirmation), its two branches (with the unchecked
  \<open>None\<close> of line 230) and the default alias, the refinement of the spec's period
  machine, and, of a whole run, that every proposal or ballot follows a query of the
  current period and that a normal end leaves a well-formed hash list in the store. In the packaging scripts: the driver signs every file
  before uploading it, the generator's missing-archive exit and its once-per-file
  artifact copy, the upload's unbound \<open>chroots\<close>, and the flake updater's line
  rewrite, its truncation of \<open>flake.nix\<close> on a missing lock entry (the file's contents
  are followed through the effects: opening for writing empties it, each write appends),
  and the lines it keeps. Of the command lines: \<open>upload.py\<close>'s arguments survive being written as a
  command line and read back, a bare \<open>--upload\<close> selects \<open>regular\<close>, and every
  file it passes to \<open>dput\<close> is absolute; \<open>sign.py\<close> as a script never issues a
  command; the generator's parser fixes \<open>os\<close> and \<open>type\<close> to their choices, so
  that on an accepted command line the generator never raises the \<open>UnboundLocalError\<close>
  of \<open>run_deps\<close> nor the \<open>IndexError\<close> of \<open>distributions[0]\<close>, and without
  \<open>-d\<close> it fails with
  \<open>TypeError\<close> after creating \<open>out\<close>; \<open>tezos-vote\<close> votes on
  \<open>mainnet\<close> by default, on the network given, and exits with status 2 on a
  positional argument.

  \<^bold>\<open>Not modelled.\<close> Logging, colours and the exact printed text (reports are
  \<open>event\<close> values); the internals of the engine outside \<open>src/\<close> beyond their
  contracts (key import, \<open>fill_baking_config\<close>, \<open>yes_or_no\<close>), and
  \<open>query_and_update_config\<close> (lines 252 and 263), read as \<open>query_step\<close> without its
  refresh of the client options; the failure of \<open>os.listdir\<close> on a missing directory
  (\<open>package_generator.py\<close> lines 118 and 228, \<open>sign.py\<close> line 60), whose listings
  are total functions of the environment; the package builds
  (\<open>package.ubuntu\<close>, \<open>package.fedora\<close>, \<open>package.util.build\<close>, not under
  \<open>src/\<close>) and the text of \<open>dput.cfg\<close>; regular-expression metacharacters in the
  flake input's name and locked fields, which the model reads literally. Of the engine
  outside \<open>src/\<close>, how \<open>query_step\<close> displays a step (prompt, default and the
  numbered options): the spec fixes no format and the code is not in the repository, so
  \<open>Wizard_Engine\<close> keeps the prompt loop and leaves the display out; the options of
  \<open>build.parser\<close> (\<open>package/util/build.py\<close>, not in the repository) are a
  parameter. Of \<open>argparse\<close>, what these parsers do not use: positional arguments,
  sub-commands, \<open>append\<close> and \<open>count\<close> actions, abbreviations turned off, and the
  usage and help text printed.
\<close>

subsection \<open>Fixtures\<close>

definition demo_hash :: string where
  "demo_hash = CHR ''P'' # replicate 50 (CHR ''1'')"

definition demo_new_hash :: string where
  "demo_new_hash = CHR ''P'' # replicate 50 (CHR ''z'')"

definition demo_env :: "proc_result \<Rightarrow> wenv" where
  "demo_env res = \<lparr>client = (\<lambda>t c. res), probe = (\<lambda>_ _. False), networks = [''mainnet'', ''ghostnet''],
     client_options = (\<lambda>_. ''--endpoint http://localhost:8732''), uses_ledger = (\<lambda>_. False)\<rparr>"

definition demo_state :: "string list \<Rightarrow> wstate" where
  "demo_state input = \<lparr>config = [''tezos_client_options'' \<mapsto> CStr ''--endpoint http://localhost:8732'',
       ''baker_alias'' \<mapsto> CStr ''baker'', ''proposal_hashes'' \<mapsto> CList [demo_hash]],
     stdin = input, tick = 0, calls = [], events = []\<rparr>"

definition probe_env :: wenv where
  "probe_env = (demo_env \<lparr>returncode = 0, stdout = [], stderr = []\<rparr>)
     \<lparr>probe := (\<lambda>url path. url = ''https://rpc.tzbeta.net'')\<rparr>"

definition failed_with :: "string \<Rightarrow> proc_result" where
  "failed_with err = \<lparr>returncode = 1, stdout = [], stderr = err\<rparr>"

definition status_output :: proc_result where
  "status_output = \<lparr>returncode = 0,
     stdout = period_marker @ ''proposal'' @ quote_char # newline @ ''Current proposals:'' @ newline @ demo_hash,
     stderr = []\<rparr>"

definition adoption_output :: proc_result where
  "adoption_output = \<lparr>returncode = 0, stdout = period_marker @ ''adoption'' @ quote_char # newline, stderr = []\<rparr>"

definition ledger_env :: wenv where
  "ledger_env = demo_env \<lparr>returncode = 0, stdout = [], stderr = []\<rparr>
     \<lparr>client := \<lambda>t c. \<lparr>returncode = 0,
        stdout = (if 2 \<le> t then ''Found a Tezos Wallet app'' else ''No device found''), stderr = []\<rparr>\<rparr>"

definition ok_result :: proc_result where
  "ok_result = \<lparr>returncode = 0, stdout = [], stderr = []\<rparr>"

definition demo_yes_or_no :: "string \<Rightarrow> string \<Rightarrow> wstate \<Rightarrow> bool outcome" where
  "demo_yes_or_no prompt dflt s = (case stdin s of
      [] \<Rightarrow> (Inl EndOfInput, s)
    | a # rest \<Rightarrow> (Inr (a \<noteq> ''n''), s\<lparr>stdin := rest\<rparr>))"

definition demo_benv :: benv where
  "demo_benv = \<lparr>fill_baking_config = (\<lambda>s. (Inr (), set_config ''baker_alias'' (CStr ''baker'') s)),
     key_address = (\<lambda>opts alias. None), is_file = (\<lambda>p. True),
     json_field = (\<lambda>p f. Some ''http://localhost:8732''), yes_or_no = demo_yes_or_no,
     check_baker_account = (\<lambda>s. (Inr False, s)), import_key = (\<lambda>q app s. (Inr (), s)),
     key_import_modes = [''ledger'', ''secret-key'', ''json'']\<rparr>"

definition keyed_benv :: benv where
  "keyed_benv = demo_benv\<lparr>key_address := \<lambda>opts alias. Some ''tz1demo''\<rparr>"

definition setup_env :: wenv where
  "setup_env = demo_env ok_result
     \<lparr>client := \<lambda>t c. (case c of SystemctlIsActive net \<Rightarrow> failed_with ''inactive'' | _ \<Rightarrow> ok_result)\<rparr>"

definition mainnet_state :: wstate where
  "mainnet_state = set_config ''network'' (CStr ''mainnet'') (demo_state [])"

definition confirm_state :: wstate where
  "confirm_state = (set_config ''node_rpc_endpoint'' (CStr ''https://rpc.tzbeta.net'')
     (set_config ''client_data_dir'' (CStr ''/var/lib/tezos/client-mainnet'')
       (set_config ''baker_key_value'' (CStr ''tz1demo'') mainnet_state)))\<lparr>stdin := ['''', ''y'']\<rparr>"

definition demo_pkg_env :: pkg_env where
  "demo_pkg_env = \<lparr>listdir = (\<lambda>d. []), gpg_path = Some ''/usr/bin/gpg'', fedora_versions = [''39''],
     octez_version = Some ''v17.0-rc1''\<rparr>"

definition demo_package :: package where
  "demo_package = \<lparr>pkg_name = ''octez-node'', pkg_version = ''17.0'', pkg_release = ''1'', letter_version = None\<rparr>"

definition demo_pg_args :: pg_args where
  "demo_pg_args = \<lparr>pg_os = ''ubuntu'', pg_type = ''source'', pg_packages = Some [''octez-node''],
     pg_distributions = Some [''jammy''], pg_binaries_dir = None, pg_sources_dir = Some ''/src'',
     pg_launchpad_sources = False\<rparr>"

definition demo_pg_env :: pg_env where
  "demo_pg_env = \<lparr>pg_home = Some ''/root'', pg_all_packages = [''octez-node'' \<mapsto> demo_package],
     pg_listdir = (\<lambda>d. [''octez-client_17.0.orig.tar.gz'']), pg_download_ok = (\<lambda>u. False), pg_cwd = ''/build''\<rparr>"

definition demo_lock :: flake_lock where
  "demo_lock = [''tezos'' \<mapsto> [''type'' \<mapsto> ''github'', ''owner'' \<mapsto> ''serokell'', ''repo'' \<mapsto> ''tezos'']]"

lemmas demo_eval = demo_state_def query_step_def lower_def lower_char_def upper_letters_def lower_letters_def
  required_field_def enum_range_def protocol_hash_def is_protocol_hash_def is_space_def log_event_def
  dec_string.simps digit_chars_def is_b58_char_def b58_alphabet_def demo_hash_def demo_new_hash_def
  list_all_iff set_replicate_conv_if

lemma demo_keys:
  "config (demo_state input) ''tezos_client_options'' = Some (CStr ''--endpoint http://localhost:8732'')"
  "config (demo_state input) ''baker_alias'' = Some (CStr ''baker'')"
  "config (demo_state input) ''proposal_hashes'' = Some (CList [demo_hash])"
  by (simp_all add: demo_state_def)

lemma demo_client: "client (demo_env res) t c = res" "uses_ledger (demo_env res) cfg = False"
  by (simp_all add: demo_env_def)

subsection \<open>Witnesses\<close>

theorem known_proposal_failure_reported_witness:
  "\<exists>s'. process_proposal_period (demo_env (failed_with ''Error: Too many proposals'')) (demo_state [''1'']) = (Inr (), s') \<and>
     calls s' = [SubmitProposals ''--endpoint http://localhost:8732'' ''baker'' demo_hash]"
proof -
  let ?E = "demo_env (failed_with ''Error: Too many proposals'')" and ?s = "demo_state [''1'']"
  have "fst (choose_proposal_hash ?E ?s) = Inr demo_hash"
    by (simp add: choose_proposal_hash_def get_proposal_period_hash_def new_hash_option_def demo_eval)
  then have ch: "choose_proposal_hash ?E ?s = (Inr demo_hash, snd (choose_proposal_hash ?E ?s))"
    by (metis prod.collapse)
  have f: "returncode (failed_with ''Error: Too many proposals'') \<noteq> 0"
    "classify_proposal_failure (stderr (failed_with ''Error: Too many proposals'')) \<in>
       {UnauthorizedProposal, NotInProposalPeriod, TooManyProposals}"
    by (simp_all add: failed_with_def classify_proposal_failure_def)
  from known_proposal_failure_reported [OF demo_keys(1,2) ch demo_client(1) [symmetric] f]
  show ?thesis by (auto simp: demo_state_def)
qed

theorem new_hash_submitted_witness:
  "\<exists>cs. calls (snd (process_proposal_period (demo_env (failed_with [])) (demo_state [''2'', demo_new_hash]))) =
     SubmitProposals ''--endpoint http://localhost:8732'' ''baker'' demo_new_hash # cs"
proof -
  let ?E = "demo_env (failed_with [])" and ?s = "demo_state [''2'', demo_new_hash]"
  let ?q1 = "query_step ?E (get_proposal_period_hash [demo_hash]) ?s"
  have "fst ?q1 = Inr new_hash_option"
    by (simp add: get_proposal_period_hash_def new_hash_option_def demo_eval)
  then have q1: "?q1 = (Inr new_hash_option, snd ?q1)" by (metis prod.collapse)
  let ?q2 = "query_step ?E new_proposal_query (snd ?q1)"
  have "fst ?q2 = Inr demo_new_hash"
    by (simp add: get_proposal_period_hash_def new_hash_option_def new_proposal_query_def demo_eval)
  then have q2: "?q2 = (Inr demo_new_hash, snd ?q2)" by (metis prod.collapse)
  from new_hash_submitted [OF demo_keys q1 q2] show ?thesis by (simp add: demo_state_def)
qed

theorem submitted_proposals_well_formed_witness:
  "hashes_valid (demo_state [''2'', demo_new_hash]) \<and> list_all proposal_ok (calls (demo_state [''2'', demo_new_hash])) \<and>
   list_all proposal_ok (calls (snd (process_proposal_period (demo_env (failed_with [])) (demo_state [''2'', demo_new_hash]))))"
proof -
  have v: "hashes_valid (demo_state [''2'', demo_new_hash])"
    by (simp add: hashes_valid_def demo_eval)
  have c: "list_all proposal_ok (calls (demo_state [''2'', demo_new_hash]))"
    by (simp add: demo_state_def)
  from v c submitted_proposals_well_formed [OF v c] show ?thesis by blast
qed

theorem wait_ledger_loop_returns_witness:
  "\<exists>s'. wait_ledger_loop ledger_env ''Wallet'' ''/var/lib/tezos/.tezos-client'' [] (demo_state []) = Some (Inr (), s') \<and>
      config s' = config (demo_state []) \<and> stdin s' = stdin (demo_state []) \<and> events s' = events (demo_state [])"
proof -
  have a: "\<forall>i \<le> 1. returncode (client ledger_env (tick (demo_state []) + 2 * i + 1) Sleep1) = 0"
    by (simp add: ledger_env_def demo_env_def)
  have b: "ledger_app_found ''Wallet'' (stdout (client ledger_env (tick (demo_state []) + 2 * 1) (ListConnectedLedgers ''/var/lib/tezos/.tezos-client'')))"
    by (simp add: ledger_env_def demo_env_def demo_state_def ledger_app_found_def)
  from wait_ledger_loop_returns [OF a b] show ?thesis .
qed

theorem wait_ledger_loop_diverges_witness:
  "\<not> ledger_app_found ''Wallet'' [] \<and>
   (\<forall>i. \<not> ledger_app_found ''Wallet'' (stdout (client (demo_env \<lparr>returncode = 0, stdout = [], stderr = []\<rparr>) (tick (demo_state []) + 2 * i) (ListConnectedLedgers ''/var/lib/tezos/.tezos-client''))) \<and>
        returncode (client (demo_env \<lparr>returncode = 0, stdout = [], stderr = []\<rparr>) (tick (demo_state []) + 2 * i + 1) Sleep1) = 0) \<and>
   wait_ledger_loop (demo_env \<lparr>returncode = 0, stdout = [], stderr = []\<rparr>) ''Wallet'' ''/var/lib/tezos/.tezos-client'' [] (demo_state []) = None"
proof -
  have a: "\<not> ledger_app_found ''Wallet'' []"
    by (simp add: ledger_app_found_def)
  have b: "\<forall>i. \<not> ledger_app_found ''Wallet'' (stdout (client (demo_env \<lparr>returncode = 0, stdout = [], stderr = []\<rparr>) (tick (demo_state []) + 2 * i) (ListConnectedLedgers ''/var/lib/tezos/.tezos-client''))) \<and>
        returncode (client (demo_env \<lparr>returncode = 0, stdout = [], stderr = []\<rparr>) (tick (demo_state []) + 2 * i + 1) Sleep1) = 0"
    by (simp add: demo_client ledger_app_found_def)
  from a b wait_ledger_loop_diverges [OF a b] show ?thesis by blast
qed

theorem confirm_loop_exits_witness:
  "\<exists>s'. confirm_round probe_env demo_benv [] confirm_state = (Inr True, s') \<and>
     confirm_loop probe_env demo_benv [] False confirm_state = Some (Inr (), s') \<and>
     (\<exists>r. confirm_loop probe_env demo_benv [] False confirm_state = Some r) \<and>
     (\<exists>t. confirm_round probe_env demo_benv [] t = (Inr True, s'))"
proof -
  have yes: "length (stdin t') < length (stdin t)" if "yes_or_no demo_benv p d t = (Inr b, t')" for p d t b t'
    using that by (auto simp: demo_benv_def demo_yes_or_no_def split: list.splits)
  have acct: "length (stdin t') \<le> length (stdin t)" if "check_baker_account demo_benv t = (r, t')" for t r t'
    using that by (simp add: demo_benv_def)
  have imp: "length (stdin t') \<le> length (stdin t)" if "import_key demo_benv q a t = (r, t')" for q a t r t'
    using that by (simp add: demo_benv_def)
  have "fst (confirm_round probe_env demo_benv [] confirm_state) = Inr True"
    by code_simp
  then obtain s' where r: "confirm_round probe_env demo_benv [] confirm_state = (Inr True, s')"
    by (cases "confirm_round probe_env demo_benv [] confirm_state") auto
  have c: "(\<exists>r. confirm_loop probe_env demo_benv [] False confirm_state = Some r) \<and>
         (confirm_loop probe_env demo_benv [] False confirm_state = Some (Inr (), s') \<longrightarrow>
            (\<exists>t. confirm_round probe_env demo_benv [] t = (Inr True, s'))) \<and>
         (confirm_round probe_env demo_benv [] confirm_state = (Inr True, s') \<longrightarrow>
            confirm_loop probe_env demo_benv [] False confirm_state = Some (Inr (), s'))"
    by (rule confirm_loop_exits; (erule yes | erule acct | erule imp))
  from c r show ?thesis by blast
qed
theorem collect_baking_info_active_no_key_witness:
  "collect_baking_info (demo_env ok_result) demo_benv mainnet_state =
     Some (Inl (UnpackNone ''get_key_address''),
       set_config ''tezos_client_options'' (CStr ''--endpoint http://localhost:8732'')
         (set_config ''baker_alias'' (CStr ''baker'') (set_config ''is_local_baking_setup'' (CBool True)
           (snd (run_cmd (demo_env ok_result) (SystemctlIsActive ''mainnet'') mainnet_state)))))"
proof -
  let ?s1 = "set_config ''baker_alias'' (CStr ''baker'') (set_config ''is_local_baking_setup'' (CBool True)
           (snd (run_cmd (demo_env ok_result) (SystemctlIsActive ''mainnet'') mainnet_state)))"
  have n: "config mainnet_state ''network'' = Some (CStr ''mainnet'')"
    by (simp add: mainnet_state_def frame_simps)
  have rc: "returncode (client (demo_env ok_result) (tick mainnet_state) (SystemctlIsActive ''mainnet'')) = 0"
    by (simp add: demo_client ok_result_def)
  have f: "fill_baking_config demo_benv (set_config ''is_local_baking_setup'' (CBool True)
           (snd (run_cmd (demo_env ok_result) (SystemctlIsActive ''mainnet'') mainnet_state))) = (Inr (), ?s1)"
    by (simp add: demo_benv_def)
  have a: "config ?s1 ''baker_alias'' = Some (CStr ''baker'')"
    by (simp add: frame_simps)
  have k: "key_address demo_benv (client_options (demo_env ok_result) (config ?s1)) ''baker'' = None"
    by (simp add: demo_benv_def)
  from collect_baking_info_active_no_key [OF n rc f a k] show ?thesis
    by (simp add: demo_env_def)
qed

theorem collect_baking_info_inactive_endpoint_witness:
  "\<exists>s'. collect_baking_info setup_env keyed_benv (mainnet_state\<lparr>stdin := [''y'']\<rparr>) = Some (Inr (), s') \<and>
     calls s' = [SystemctlIsActive ''mainnet'', MkdirNetworkDir ''/var/lib/tezos/client-mainnet''] \<and>
     config s' ''node_rpc_endpoint'' = Some (CStr ''http://localhost:8732'') \<and> stdin s' = []"
proof -
  let ?s = "mainnet_state\<lparr>stdin := [''y'']\<rparr>"
  have n: "config ?s ''network'' = Some (CStr ''mainnet'')"
    by (simp add: mainnet_state_def frame_simps)
  have rc: "returncode (client setup_env (tick ?s) (SystemctlIsActive ''mainnet'')) \<noteq> 0"
    by (simp add: setup_env_def demo_env_def failed_with_def)
  have mk: "returncode (client setup_env (Suc (tick ?s)) (MkdirNetworkDir (default_data_dir ''mainnet''))) = 0"
    by (simp add: setup_env_def demo_env_def ok_result_def)
  have f: "is_file keyed_benv (default_data_dir ''mainnet'' @ ''/config'')"
    by (simp add: keyed_benv_def demo_benv_def)
  have j: "json_field keyed_benv (default_data_dir ''mainnet'' @ ''/config'') ''endpoint'' = Some ''http://localhost:8732''"
    by (simp add: keyed_benv_def demo_benv_def)
  show ?thesis
    unfolding collect_baking_info_inactive_endpoint [OF n rc mk f j]
    by (simp add: keyed_benv_def demo_benv_def get_baker_key_def check_data_correctness_def
        demo_yes_or_no_def setup_env_def demo_env_def mainnet_state_def demo_state_def
        default_data_dir_def confirm_loop.simps set_config_def)
qed

theorem get_baker_key_default_alias_witness:
  "get_baker_key (demo_env ok_result) keyed_benv []
     (mainnet_state\<lparr>config := (config mainnet_state)(''baker_alias'' := None)\<rparr>) =
   (Inr (), mainnet_state\<lparr>config := (config mainnet_state)(''baker_alias'' \<mapsto> CStr ''baker'',
      ''tezos_client_options'' \<mapsto> CStr ''--endpoint http://localhost:8732'', ''baker_key_value'' \<mapsto> CStr ''tz1demo'')\<rparr>)"
proof -
  let ?s = "mainnet_state\<lparr>config := (config mainnet_state)(''baker_alias'' := None)\<rparr>"
  have a: "config ?s ''baker_alias'' = None" by simp
  have k: "key_address keyed_benv
      (client_options (demo_env ok_result) ((config ?s)(''baker_alias'' \<mapsto> CStr ''baker''))) ''baker'' = Some ''tz1demo''"
    by (simp add: keyed_benv_def)
  from get_baker_key_default_alias [OF a k] show ?thesis
    by (simp add: demo_env_def)
qed

theorem driver_signs_before_upload_witness:
  "\<exists>xs ys. snd (driver_main demo_pkg_env ''/out'' [''/out/a.changes'', ''/out/b.src.rpm''] (Some ''me'') (Some ''regular''))
      = xs @ Dput ''tezos-rc-serokell'' ''/out/a.changes'' # ys \<and> Debsign ''/out/a.changes'' \<in> set xs"
proof -
  let ?run = "driver_main demo_pkg_env ''/out'' [''/out/a.changes'', ''/out/b.src.rpm''] (Some ''me'') (Some ''regular'')"
  let ?xs = "[SedChangedBy ''me'' ''/out/a.changes'', Debsign ''/out/a.changes'',
              Rpmsign ''me'' ''/usr/bin/gpg'' ''/out/b.src.rpm'', WriteDputCfg]"
  let ?ys = "[CoprBuild ''-r fedora-39-x86_64 -r fedora-39-aarch64'' ''@Serokell/Tezos-rc'' ''/out/b.src.rpm'']"
  have c: "snd ?run = ?xs @ Dput ''tezos-rc-serokell'' ''/out/a.changes'' # ?ys"
    by (simp add: driver_main_def demo_pkg_env_def py_truthy_def sign_main_def sign_artifact_list_def
        sign_file_def ends_with_def py_str_def upload_main_def upload_packages_def launchpad_ppa_def
        copr_project_def upload_chroots_def chroot_flags_def path_join_def)
  have abs: "take 1 ''/out'' = ''/''" "list_all (\<lambda>a. take 1 a = ''/'') [''/out/a.changes'', ''/out/b.src.rpm'']"
    by simp_all
  from driver_signs_before_upload [OF prod.collapse [symmetric] abs] c
  have "Debsign ''/out/a.changes'' \<in> set ?xs" by blast
  with c show ?thesis by blast
qed

theorem pg_main_missing_archive_witness:
  "pg_main demo_pg_args demo_pg_env =
     (Inl (SystemExit 1), [MakeDirs output_dir,
        PrintErrors [''ERROR: supplied source dir does not contain source archive for octez-node'']])"
proof -
  have look: "lookup_packages demo_pg_env [''octez-node''] = Inr [demo_package]"
    by (simp add: lookup_packages_def demo_pg_env_def)
  have miss: "archive_name demo_package \<notin> set (pg_listdir demo_pg_env ''/src'')"
    by (simp add: archive_name_def demo_package_def demo_pg_env_def lower_def lower_char_def
        upper_letters_def)
  have mem: "demo_package \<in> set [demo_package]" and lv: "letter_version demo_package = None"
    and nm: "pkg_name demo_package = ''octez-node''"
    by (simp_all add: demo_package_def)
  have os: "pg_os demo_pg_args \<in> {''ubuntu'', ''fedora''}" and home: "pg_home demo_pg_env = Some ''/root''"
    and ds: "pg_distributions demo_pg_args = Some [''jammy'']" and ns: "pg_packages demo_pg_args = Some [''octez-node'']"
    and src: "pg_type demo_pg_args = ''source''" and dir: "pg_sources_dir demo_pg_args = Some ''/src''"
    and ne: "pg_listdir demo_pg_env ''/src'' \<noteq> []"
    by (simp_all add: demo_pg_args_def demo_pg_env_def)
  show ?thesis
    unfolding pg_main_missing_archive [OF os home ds ns look src dir ne mem lv miss]
    using miss lv nm by simp
qed

theorem upload_unsupported_destination_witness:
  "upload_main (\<lambda>d. []) [''39''] (Some ''v17.0'')
     \<lparr>upload_directory = ''/out'', upload_artifacts = [''/out/a.changes'', ''/out/b.src.rpm''],
      upload_destination = Some ''copr''\<rparr> =
   (Inl (UnboundLocalError ''chroots''), [WriteDputCfg, Dput ''tezos-serokell'' ''/out/a.changes''])"
proof -
  have "upload_destination \<lparr>upload_directory = ''/out'', upload_artifacts = [''/out/a.changes'', ''/out/b.src.rpm''],
      upload_destination = Some ''copr''\<rparr> \<notin> {Some ''epel'', Some ''regular''}"
    by simp
  from upload_unsupported_destination [OF this, of "\<lambda>d. []" "[''39'']" "''v17.0''"] show ?thesis
    by (simp add: upload_packages_def ends_with_def launchpad_ppa_def path_join_def)
qed

theorem dispatch_period_refines_witness:
  "\<exists>cs. calls (snd (dispatch_period (demo_env ok_result) (set_config ''amendment_phase'' (CStr ''exploration'')
        (demo_state [''yay''])))) = calls (demo_state [''yay'']) @ cs \<and>
      period_spec Exploration (List.map_filter abs_cmd cs)"
proof -
  have ph: "config (set_config ''amendment_phase'' (CStr ''exploration'') (demo_state [''yay''])) ''amendment_phase''
              = Some (CStr ''exploration'')"
    by (simp add: frame_simps)
  from dispatch_period_refines [OF ph, of "demo_env ok_result"] show ?thesis
    by (simp add: period_of_def frame_simps)
qed

theorem sub_line_updates_url_witness:
  "sub_line ''tezos'' ''github'' ''serokell'' ''tezos-packaging'' ''v2''
     (''  '' @ ''tezos'' @ ''.url = '' @ [CHR 0x22] @ ''github'' @ '':'' @ ''serokell'' @ ''/'' @ ''tezos-packaging''
        @ (''/v1'' @ [CHR 0x22, CHR '';'']) @ newline)
   = ''  '' @ url_line ''tezos'' ''github'' ''serokell'' ''tezos-packaging'' ''v2'' @ newline"
proof -
  have "set ''  '' \<subseteq> {CHR '' ''}" "''tezos'' \<noteq> []" "hd ''tezos'' \<noteq> CHR '' ''"
    "CHR 0x0A \<notin> set (''/v1'' @ [CHR 0x22, CHR '';''])"
    by simp_all
  then show ?thesis by (rule sub_line_updates_url)
qed

theorem update_input_missing_truncates_witness:
  "fst (update_input (\<lambda>n. None) ''tezos'' ''v2'' [''{'', ''}'']) = Inl (KeyError ''tezos'') \<and>
   flake_after (concat [''{'', ''}'']) (snd (update_input (\<lambda>n. None) ''tezos'' ''v2'' [''{'', ''}''])) = [] \<and>
   NixLockUpdate ''tezos'' \<notin> set (snd (update_input (\<lambda>n. None) ''tezos'' ''v2'' [''{'', ''}'']))"
proof -
  have "isl (locked_fields (\<lambda>n. None) ''tezos'')" "[''{'', ''}''] \<noteq> []"
    by (simp_all add: locked_fields_def)
  from update_input_missing_truncates [OF this] show ?thesis
    by (simp add: locked_fields_def)
qed

theorem update_input_keeps_other_lines_witness:
  "flake_after (concat [''{'', ''}'']) (snd (update_input demo_lock ''tezos'' ''v2'' [''{'', ''}''])) = ''{}''"
proof -
  have lf: "locked_fields demo_lock ''tezos'' = Inr (''github'', ''serokell'', ''tezos'')"
    by (simp add: locked_fields_def demo_lock_def)
  have "fst (update_input demo_lock ''tezos'' ''v2'' [''{'', ''}'']) = Inr ()"
    by (simp add: update_input_def lf)
  then have run: "update_input demo_lock ''tezos'' ''v2'' [''{'', ''}''] =
      (Inr (), snd (update_input demo_lock ''tezos'' ''v2'' [''{'', ''}'']))"
    by (metis prod.collapse)
  have nk: "\<not> contains (''tezos'' @ ''.url'') ''{''" "\<not> contains (''tezos'' @ ''.url'') ''}''"
    by simp_all
  from update_input_keeps_other_lines [OF run lf] nk show ?thesis by simp
qed

theorem vote_period_before_actions_witness:
  "\<exists>s' cs. vote (demo_env (failed_with ''Error: node unreachable'')) (demo_state []) = Some (Inl Cancelled, s') \<and>
      calls s' = calls (demo_state []) @ cs \<and> list_all (\<lambda>c. abs_cmd c = None) cs"
proof -
  let ?E = "demo_env (failed_with ''Error: node unreachable'')"
  have "\<exists>s'. vote ?E (demo_state []) = Some (Inl Cancelled, s')"
    by (simp add: vote_def ledger_wallet_wait_def then_o_def fill_voting_period_info_def then_w_def
        get_str_def run_cmd_def proc_call_def demo_env_def failed_with_def set_config_def)
  then obtain s' where run: "vote ?E (demo_state []) = Some (Inl Cancelled, s')" ..
  from vote_period_before_actions [OF run] obtain cs where
    c: "calls s' = calls (demo_state []) @ cs" and
    o: "\<forall>xs c ys. cs = xs @ c # ys \<longrightarrow> abs_cmd c \<noteq> None \<longrightarrow> (\<exists>opts. ShowVotingPeriod opts \<in> set xs)"
    by blast
  have cs: "cs = [ShowVotingPeriod ''--endpoint http://localhost:8732'']"
    using run c
    by (auto simp: vote_def ledger_wallet_wait_def then_o_def fill_voting_period_info_def then_w_def
        get_str_def run_cmd_def proc_call_def demo_env_def failed_with_def set_config_def demo_state_def
        log_event_def)
  from o [rule_format, of "[]" "ShowVotingPeriod ''--endpoint http://localhost:8732''" "[]"] cs
  have "list_all (\<lambda>c. abs_cmd c = None) cs" by auto
  with run c show ?thesis by blast
qed

theorem vote_hashes_valid_witness:
  "\<exists>s'. vote (demo_env adoption_output) (demo_state []) = Some (Inr (), s') \<and> hashes_valid s'"
proof -
  have p: "search_period (stdout adoption_output) = Some ''adoption''" by code_simp
  have ok: "returncode adoption_output = 0" by (simp add: adoption_output_def)
  have "\<exists>s'. vote (demo_env adoption_output) (demo_state []) = Some (Inr (), s')"
    by (simp add: vote_def ledger_wallet_wait_def then_o_def fill_voting_period_info_def then_w_def
        run_cmd_def demo_client p ok dispatch_period_def restart_local_baker_def get_flag_def
        set_config_def demo_state_def log_event_def)
  then obtain s' where run: "vote (demo_env adoption_output) (demo_state []) = Some (Inr (), s')" ..
  from run vote_hashes_valid [OF run] show ?thesis by blast
qed

theorem unclassified_proposal_failure_aborts_witness:
  "exit_status (fst (process_proposal_period (demo_env (failed_with ''Error: unexpected_proposal'')) (demo_state [''1'']))) = 1"
proof -
  let ?E = "demo_env (failed_with ''Error: unexpected_proposal'')" and ?s = "demo_state [''1'']"
  have "fst (choose_proposal_hash ?E ?s) = Inr demo_hash"
    by (simp add: choose_proposal_hash_def get_proposal_period_hash_def new_hash_option_def demo_eval)
  then have ch: "choose_proposal_hash ?E ?s = (Inr demo_hash, snd (choose_proposal_hash ?E ?s))"
    by (metis prod.collapse)
  have f: "returncode (failed_with ''Error: unexpected_proposal'') \<noteq> 0"
    "classify_proposal_failure (stderr (failed_with ''Error: unexpected_proposal'')) = UnclassifiedProposalFailure"
    by (simp_all add: failed_with_def classify_proposal_failure_def)
  from unclassified_proposal_failure_aborts [OF demo_keys(1,2) ch demo_client(1) [symmetric] f]
  show ?thesis by blast
qed
theorem proposal_step_accepts_witness:
  "run_validator (\<lambda>_ _. False) (step_validator (get_proposal_period_hash [demo_hash])) ''2'' = Inr new_hash_option"
proof -
  have "\<exists>k < Suc (length [demo_hash]). ''2'' = dec_string (Suc k) \<and>
          new_hash_option = ([demo_hash] @ [new_hash_option]) ! k"
    by (rule exI [of _ 1]) (simp add: dec_string.simps digit_chars_def)
  then show ?thesis
    by (simp add: proposal_step_accepts is_space_def new_hash_option_def demo_hash_def)
qed

theorem new_proposal_step_rejects_witness:
  "isl (run_validator (\<lambda>_ _. False) (step_validator new_proposal_query) (CHR ''P'' # replicate 49 (CHR ''1'') @ ''0''))"
  by (simp add: new_proposal_step_rejects is_b58_char_def b58_alphabet_def)

theorem endpoint_step_reachable_witness:
  "probe probe_env ''https://rpc.tzbeta.net'' node_rpc_url_path"
proof -
  have "run_validator (probe probe_env) (step_validator (get_node_rpc_endpoint_query probe_env ''mainnet'' None)) ''1''
        = Inr ''https://rpc.tzbeta.net''"
    by (simp add: get_node_rpc_endpoint_query_def relevant_nodes_def public_nodes_def probe_env_def demo_env_def
        required_field_def enum_range_def is_space_def dec_string.simps digit_chars_def)
  then show ?thesis by (rule endpoint_step_reachable)
qed

theorem search_period_roundtrip_witness:
  "search_period (period_marker @ ''exploration'' @ quote_char # newline @ ''Blocks remaining: 12'') =
     Some ''exploration''"
  by (rule search_period_roundtrip)
    (simp_all add: is_word_char_def upper_letters_def lower_letters_def digit_chars_def)

theorem findall_hashes_roundtrip_witness:
  "findall_hashes (concat (map (\<lambda>h. h @ newline) [demo_hash, demo_new_hash])) = [demo_hash, demo_new_hash]"
  by (rule findall_hashes_roundtrip)
    (simp_all add: demo_hash_def demo_new_hash_def is_protocol_hash_def list_all_iff set_replicate_conv_if
      is_b58_char_def b58_alphabet_def newline_def)

theorem fill_voting_period_info_stores_witness:
  "\<exists>s'. fill_voting_period_info (demo_env status_output) (demo_state []) = (Inr (), s') \<and>
        config s' ''amendment_phase'' = Some (CStr ''proposal'') \<and>
        config s' ''proposal_hashes'' = Some (CList [demo_hash])"
proof -
  have p: "search_period (stdout status_output) = Some ''proposal''"
    by code_simp
  have h: "findall_hashes (stdout status_output) = [demo_hash]"
    by code_simp
  have ok: "returncode status_output = 0" by (simp add: status_output_def)
  from fill_voting_period_info_stores [OF demo_keys(1) [of "[]"] demo_client(1) [symmetric] ok p]
  show ?thesis by (auto simp: h)
qed

theorem fill_voting_period_info_cancels_witness:
  "\<exists>s'. fill_voting_period_info (demo_env (failed_with ''Error: node unreachable'')) (demo_state []) =
          (Inl Cancelled, s') \<and> events s' = [VotingInfoUnavailable]"
proof -
  have "returncode (client (demo_env (failed_with ''Error: node unreachable'')) (tick (demo_state []))
          (ShowVotingPeriod ''--endpoint http://localhost:8732'')) \<noteq> 0"
    by (simp add: demo_client failed_with_def)
  from fill_voting_period_info_cancels [OF demo_keys(1) this] show ?thesis
    by (auto simp: demo_state_def)
qed

theorem unauthorized_ballot_aborts_witness:
  "\<exists>s'. process_voting_period (demo_env (failed_with ''Error: Unauthorized ballot'')) (demo_state [''nay'']) =
          (Inl (ClientError (stderr (failed_with ''Error: Unauthorized ballot''))), s') \<and>
        events s' = [CurrentProposal demo_hash, BallotUnauthorized, CheckBakerData, ClientFailure]"
proof -
  let ?res = "failed_with ''Error: Unauthorized ballot''"
  let ?E = "demo_env ?res" and ?s = "demo_state [''nay'']"
  let ?q = "query_step ?E ballot_outcome_query (log_event (CurrentProposal demo_hash) ?s)"
  have "fst ?q = Inr ''nay''" by (simp add: ballot_outcome_query_def ballot_outcomes_def demo_eval)
  then have q: "?q = (Inr ''nay'', snd ?q)" by (metis prod.collapse)
  have ev: "events (snd ?q) = [CurrentProposal demo_hash]"
    by (simp add: ballot_outcome_query_def ballot_outcomes_def demo_eval)
  have f: "returncode ?res \<noteq> 0" "ballot_unauthorized (stderr ?res)" "\<not> ballot_wrong_period (stderr ?res)"
    by (simp_all add: failed_with_def ballot_unauthorized_def ballot_wrong_period_def)
  from unauthorized_ballot_aborts [OF demo_keys q demo_client(1) [symmetric] f]
  show ?thesis by (simp add: ev demo_client)
qed

theorem ballot_submits_choice_witness:
  "\<exists>s'. process_voting_period (demo_env \<lparr>returncode = 0, stdout = [], stderr = []\<rparr>) (demo_state [''help'', ''2'']) =
          (Inr (), s') \<and>
        calls s' = [SubmitBallot ''--endpoint http://localhost:8732'' ''baker'' demo_hash ''nay'']"
proof -
  let ?E = "demo_env \<lparr>returncode = 0, stdout = [], stderr = []\<rparr>" and ?s = "demo_state [''help'', ''2'']"
  let ?q = "query_step ?E ballot_outcome_query (log_event (CurrentProposal demo_hash) ?s)"
  have "fst ?q = Inr ''nay''" by (simp add: ballot_outcome_query_def ballot_outcomes_def demo_eval)
  then have q: "?q = (Inr ''nay'', snd ?q)" by (metis prod.collapse)
  have ok: "returncode (client ?E (tick ?s) (SubmitBallot ''--endpoint http://localhost:8732'' ''baker'' demo_hash ''nay'')) = 0"
    by (simp add: demo_client)
  from ballot_submits_choice [OF demo_keys q ok] show ?thesis by (auto simp: demo_state_def)
qed

theorem upload_cli_roundtrip_witness:
  "upload_parse_args ''/home/ci'' (upload_argv \<lparr>upload_directory = ''/srv/out'', upload_artifacts = [''a.changes''],
       upload_destination = Some ''epel''\<rparr>) =
     Inr \<lparr>upload_directory = ''/srv/out'', upload_artifacts = [''a.changes''], upload_destination = Some ''epel''\<rparr>"
proof -
  have n: "normpath ''/srv/out'' = ''/srv/out''"
    by (simp add: normpath_def initial_slashes_def norm_step_def)
  show ?thesis
    by (rule upload_cli_roundtrip) (simp_all add: n plain_arg_def)
qed

theorem pg_parser_required_choices_witness:
  "\<exists>ns. parse_args ''/home/ci'' pg_parser [''--os'', ''ubuntu'', ''-t'', ''source''] = Inr ns \<and>
     (\<exists>v\<in>{''ubuntu'', ''fedora''}. ns ''os'' = Some (NsStr v)) \<and>
     (\<exists>v\<in>{''source'', ''binary''}. ns ''type'' = Some (NsStr v))"
proof -
  have "\<not> isl (parse_args ''/home/ci'' pg_parser [''--os'', ''ubuntu'', ''-t'', ''source''])"
    by code_simp
  then obtain ns where p: "parse_args ''/home/ci'' pg_parser [''--os'', ''ubuntu'', ''-t'', ''source''] = Inr ns"
    by (cases "parse_args ''/home/ci'' pg_parser [''--os'', ''ubuntu'', ''-t'', ''source'']") auto
  from p pg_parser_required_choices [OF p] show ?thesis by blast
qed

theorem upload_script_absolute_paths_witness:
  "Dput ''tezos-serokell'' ''/home/ci/out/a.changes'' \<in>
     set (snd (upload_script ''/home/ci'' (\<lambda>_. []) [] (Some ''v19.1'') [''--directory'', ''out'', ''--artifacts'', ''a.changes''])) \<and>
   take 1 ''/home/ci/out/a.changes'' = ''/''"
proof -
  have m: "Dput ''tezos-serokell'' ''/home/ci/out/a.changes'' \<in>
     set (snd (upload_script ''/home/ci'' (\<lambda>_. []) [] (Some ''v19.1'') [''--directory'', ''out'', ''--artifacts'', ''a.changes'']))"
    by code_simp
  from m upload_script_absolute_paths [OF _ m] show ?thesis by simp
qed

theorem wizard_command_line_witness:
  "wizard_exit (demo_env ok_result) demo_benv ''/home/ci'' [] mainnet_state =
     main_status (demo_env ok_result) demo_benv ''mainnet'' mainnet_state \<and>
   wizard_exit (demo_env ok_result) demo_benv ''/home/ci'' [''--network'', ''ghostnet''] mainnet_state =
     main_status (demo_env ok_result) demo_benv ''ghostnet'' mainnet_state \<and>
   wizard_exit (demo_env ok_result) demo_benv ''/home/ci'' [''ghostnet''] mainnet_state = Some 2"
  by (rule wizard_command_line) (simp_all add: plain_arg_def)

theorem pg_script_guarded_errors_witness:
  "fst (pg_script demo_pg_env [''--os'', ''fedora'', ''-t'', ''binary'', ''-d'', ''39'', ''-p'', ''nosuch'']) = Inl (KeyError ''nosuch'') \<and>
   fst (pg_script demo_pg_env [''--os'', ''fedora'', ''-t'', ''binary'', ''-d'', ''39'', ''-p'', ''nosuch'']) \<noteq> Inl (UnboundLocalError ''run_deps'') \<and>
   fst (pg_script demo_pg_env [''--os'', ''fedora'', ''-t'', ''binary'', ''-d'', ''39'', ''-p'', ''nosuch'']) \<noteq> Inl (IndexError ''distributions'')"
proof -
  have "\<not> isl (parse_args (pg_cwd demo_pg_env) pg_parser [''--os'', ''fedora'', ''-t'', ''binary'', ''-d'', ''39'', ''-p'', ''nosuch''])"
    by code_simp
  then obtain ns where p: "parse_args (pg_cwd demo_pg_env) pg_parser [''--os'', ''fedora'', ''-t'', ''binary'', ''-d'', ''39'', ''-p'', ''nosuch''] = Inr ns"
    by (cases "parse_args (pg_cwd demo_pg_env) pg_parser [''--os'', ''fedora'', ''-t'', ''binary'', ''-d'', ''39'', ''-p'', ''nosuch'']") auto
  have f: "fst (pg_script demo_pg_env [''--os'', ''fedora'', ''-t'', ''binary'', ''-d'', ''39'', ''-p'', ''nosuch'']) = Inl (KeyError ''nosuch'')"
    by code_simp
  from f pg_script_guarded_errors [OF p] show ?thesis by blast
qed

theorem pg_script_no_distributions_witness:
  "\<exists>ns. parse_args (pg_cwd demo_pg_env) pg_parser [''--os'', ''ubuntu'', ''-t'', ''binary'', ''-p'', ''octez-node''] = Inr ns \<and>
     ns ''distributions'' = Some NsNone \<and> pg_home demo_pg_env \<noteq> None \<and>
     pg_script demo_pg_env [''--os'', ''ubuntu'', ''-t'', ''binary'', ''-p'', ''octez-node''] =
       (Inl (TypeError ''distributions''), [MakeDirs output_dir])"
proof -
  have "\<not> isl (parse_args (pg_cwd demo_pg_env) pg_parser [''--os'', ''ubuntu'', ''-t'', ''binary'', ''-p'', ''octez-node''])"
    by code_simp
  then obtain ns where p: "parse_args (pg_cwd demo_pg_env) pg_parser [''--os'', ''ubuntu'', ''-t'', ''binary'', ''-p'', ''octez-node''] = Inr ns"
    by (cases "parse_args (pg_cwd demo_pg_env) pg_parser [''--os'', ''ubuntu'', ''-t'', ''binary'', ''-p'', ''octez-node'']") auto
  have "projr (parse_args (pg_cwd demo_pg_env) pg_parser [''--os'', ''ubuntu'', ''-t'', ''binary'', ''-p'', ''octez-node'']) ''distributions'' = Some NsNone"
    by code_simp
  with p have d: "ns ''distributions'' = Some NsNone" by simp
  have h: "pg_home demo_pg_env \<noteq> None" by (simp add: demo_pg_env_def)
  from p d h pg_script_no_distributions [OF p d h] show ?thesis by blast
qed

theorem upload_bare_flag_witness:
  "upload_parse_args ''/home/ci'' [''--artifacts'', ''a.changes''] =
     Inr \<lparr>upload_directory = ''/home/ci'', upload_artifacts = [''a.changes''], upload_destination = None\<rparr> \<and>
   upload_parse_args ''/home/ci'' ([''--artifacts'', ''a.changes''] @ [''--upload'']) =
     Inr \<lparr>upload_directory = ''/home/ci'', upload_artifacts = [''a.changes''], upload_destination = Some ''regular''\<rparr>"
proof -
  have p: "upload_parse_args ''/home/ci'' [''--artifacts'', ''a.changes''] =
     Inr \<lparr>upload_directory = ''/home/ci'', upload_artifacts = [''a.changes''], upload_destination = None\<rparr>"
    by code_simp
  from p upload_bare_flag [OF p] show ?thesis by simp
qed

end
